(* ===== verification/Prelude.thy ===== *)
theory Prelude
  imports Main "HOL-Library.Word"
begin

text \<open>
  Shared vocabulary of the development: the exceptions the library throws, computations that
  change a state and may throw, a small collection of rules to reason about them, and the
  generic lemmas on lists the components share.
\<close>

section \<open>Exceptions\<close>

text \<open>
  The classes derived from \<^verbatim>\<open>std::exception\<close> that the sources throw.  An error code is a pair
  of its category and its number.  \<open>AssertFailed\<close> stands for a failing \<^verbatim>\<open>assert\<close>; the model
  keeps every assertion of the code, as a debug build does.
\<close>

datatype err_category = SystemCategory | GaiCategory | SslCategory | Win32Category

type_synonym error_code = "err_category \<times> int"

datatype exn =
    SystemError error_code string
  | RuntimeError string
  | LogicError string
  | InvalidArgument string
  | OutOfRange string
  | AssertFailed

text \<open>The objects a \<^verbatim>\<open>catch(std::runtime_error const &)\<close> clause catches.\<close>

fun is_runtime_error :: "exn \<Rightarrow> bool" where
  "is_runtime_error (SystemError c m) = True"
| "is_runtime_error (RuntimeError m) = True"
| "is_runtime_error _ = False"

section \<open>Computations with state and exceptions\<close>

text \<open>
  A statement of the code is a function from the state to a result (an exception or a value)
  and the state it leaves behind.  A thrown exception keeps the changes made so far.
\<close>

type_synonym ('s, 'a) exec = "'s \<Rightarrow> (exn + 'a) \<times> 's"

definition ret :: "'a \<Rightarrow> ('s, 'a) exec" where
  "ret a = (\<lambda>s. (Inr a, s))"

definition throw :: "exn \<Rightarrow> ('s, 'a) exec" where
  "throw e = (\<lambda>s. (Inl e, s))"

definition andthen :: "('s, 'a) exec \<Rightarrow> ('a \<Rightarrow> ('s, 'b) exec) \<Rightarrow> ('s, 'b) exec" where
  "andthen m f = (\<lambda>s. case m s of (Inl e, s') \<Rightarrow> (Inl e, s') | (Inr a, s') \<Rightarrow> f a s')"

definition catch :: "('s, 'a) exec \<Rightarrow> (exn \<Rightarrow> bool) \<Rightarrow> (exn \<Rightarrow> ('s, 'a) exec) \<Rightarrow> ('s, 'a) exec" where
  "catch m p h = (\<lambda>s. case m s of
     (Inl e, s') \<Rightarrow> (if p e then h e s' else (Inl e, s'))
   | (Inr a, s') \<Rightarrow> (Inr a, s'))"

text \<open>
  A destructor that runs when a scope is left by an exception: the state change is made, the
  exception goes on.
\<close>

definition on_throw :: "('s, 'a) exec \<Rightarrow> ('s \<Rightarrow> 's) \<Rightarrow> ('s, 'a) exec" where
  "on_throw m d = (\<lambda>s. case m s of (Inl e, s') \<Rightarrow> (Inl e, d s') | (Inr a, s') \<Rightarrow> (Inr a, s'))"

text \<open>A call that cannot fail by itself, as the value it returns and the state after it.\<close>

definition call :: "('s \<Rightarrow> 'a \<times> 's) \<Rightarrow> ('s, 'a) exec" where
  "call f = (\<lambda>s. let (a, s') = f s in (Inr a, s'))"

definition get :: "('s \<Rightarrow> 'a) \<Rightarrow> ('s, 'a) exec" where
  "get f = (\<lambda>s. (Inr (f s), s))"

definition modify :: "('s \<Rightarrow> 's) \<Rightarrow> ('s, unit) exec" where
  "modify f = (\<lambda>s. (Inr (), f s))"

text \<open>Run a computation on a part of a larger state.\<close>

definition zoom :: "('t \<Rightarrow> 's) \<Rightarrow> ('s \<Rightarrow> 't \<Rightarrow> 't) \<Rightarrow> ('s, 'a) exec \<Rightarrow> ('t, 'a) exec" where
  "zoom g p m = (\<lambda>t. let (r, s') = m (g t) in (r, p s' t))"

named_theorems exec_defs \<open>definitions of the basic computations\<close>
named_theorems exec_elims \<open>what a known outcome of a computation says of its parts\<close>

declare ret_def [exec_defs] throw_def [exec_defs] andthen_def [exec_defs] catch_def [exec_defs]
  on_throw_def [exec_defs] call_def [exec_defs] get_def [exec_defs] modify_def [exec_defs]
  zoom_def [exec_defs]

lemma ret_run [simp]: "ret a s = (Inr a, s)"
  by (simp add: ret_def)

lemma throw_run [simp]: "throw e s = (Inl e, s)"
  by (simp add: throw_def)

lemma get_run [simp]: "get f s = (Inr (f s), s)"
  by (simp add: get_def)

lemma modify_run [simp]: "modify f s = (Inr (), f s)"
  by (simp add: modify_def)

lemma call_run [simp]: "call f s = (Inr (fst (f s)), snd (f s))"
  by (simp add: call_def split: prod.splits)

lemma zoom_run [simp]: "zoom g p m t = (fst (m (g t)), p (snd (m (g t))) t)"
  by (simp add: zoom_def split: prod.splits)

lemma andthen_Inr_step [simp]: "m s = (Inr a, s') \<Longrightarrow> andthen m f s = f a s'"
  by (simp add: andthen_def)

lemma andthen_Inl_step [simp]: "m s = (Inl e, s') \<Longrightarrow> andthen m f s = (Inl e, s')"
  by (simp add: andthen_def)

lemma andthen_ret [simp]: "andthen (ret a) f = f a"
  by (simp add: andthen_def ret_def)

lemma andthen_throw [simp]: "andthen (throw e) f = throw e"
  by (simp add: andthen_def throw_def)

lemma andthen_assoc: "andthen (andthen m f) g = andthen m (\<lambda>a. andthen (f a) g)"
  by (rule ext) (simp add: andthen_def split: prod.splits sum.splits)

lemma andthen_eq_Inr [exec_elims]:
  "andthen m f s = (Inr b, t) \<longleftrightarrow> (\<exists>a s'. m s = (Inr a, s') \<and> f a s' = (Inr b, t))"
  by (auto simp: andthen_def split: prod.splits sum.splits)

lemma andthen_eq_Inl [exec_elims]:
  "andthen m f s = (Inl e, t) \<longleftrightarrow>
     m s = (Inl e, t) \<or> (\<exists>a s'. m s = (Inr a, s') \<and> f a s' = (Inl e, t))"
  by (auto simp: andthen_def split: prod.splits sum.splits)

lemma catch_Inr [simp]: "m s = (Inr a, s') \<Longrightarrow> catch m p h s = (Inr a, s')"
  by (simp add: catch_def)

lemma catch_Inl [simp]:
  "m s = (Inl e, s') \<Longrightarrow> catch m p h s = (if p e then h e s' else (Inl e, s'))"
  by (simp add: catch_def)

lemma on_throw_Inr [simp]: "m s = (Inr a, s') \<Longrightarrow> on_throw m d s = (Inr a, s')"
  by (simp add: on_throw_def)

lemma on_throw_Inl [simp]: "m s = (Inl e, s') \<Longrightarrow> on_throw m d s = (Inl e, d s')"
  by (simp add: on_throw_def)

lemma andthen_cong [fundef_cong]:
  assumes "m s = m' s'" and "\<And>a t. m' s' = (Inr a, t) \<Longrightarrow> f a t = f' a t" and "s = s'"
  shows "andthen m f s = andthen m' f' s'"
  using assms by (auto simp: andthen_def split: prod.splits sum.splits)

section \<open>Keeping a property of the state\<close>

text \<open>A computation keeps \<open>I\<close> when it leaves \<open>I\<close> in place, whether it returns or throws.\<close>

definition keeps :: "('s \<Rightarrow> bool) \<Rightarrow> ('s, 'a) exec \<Rightarrow> bool" where
  "keeps I m \<longleftrightarrow> (\<forall>s. I s \<longrightarrow> I (snd (m s)))"

named_theorems keeps_intros \<open>rules that show a composed computation keeps a property\<close>

lemma keepsI: "(\<And>s r t. I s \<Longrightarrow> m s = (r, t) \<Longrightarrow> I t) \<Longrightarrow> keeps I m"
  by (metis keeps_def prod.collapse)

lemma keepsD: "keeps I m \<Longrightarrow> m s = (r, t) \<Longrightarrow> I s \<Longrightarrow> I t"
  by (metis keeps_def snd_conv)

lemma keeps_ret [keeps_intros, simp]: "keeps I (ret a)"
  by (simp add: keeps_def)

lemma keeps_throw [keeps_intros, simp]: "keeps I (throw e)"
  by (simp add: keeps_def)

lemma keeps_get [keeps_intros, simp]: "keeps I (get f)"
  by (simp add: keeps_def)

lemma keeps_andthen [keeps_intros]: "keeps I m \<Longrightarrow> (\<And>a. keeps I (f a)) \<Longrightarrow> keeps I (andthen m f)"
  by (fastforce simp: keeps_def andthen_def split: prod.splits sum.splits)

lemma keeps_catch [keeps_intros]: "keeps I m \<Longrightarrow> (\<And>e. keeps I (h e)) \<Longrightarrow> keeps I (catch m p h)"
  by (fastforce simp: keeps_def catch_def split: prod.splits sum.splits)

lemma keeps_if [keeps_intros]: "keeps I m \<Longrightarrow> keeps I m' \<Longrightarrow> keeps I (if b then m else m')"
  by simp

lemma keeps_call [keeps_intros]: "(\<And>s. I s \<Longrightarrow> I (snd (f s))) \<Longrightarrow> keeps I (call f)"
  by (simp add: keeps_def)

lemma keeps_modify [keeps_intros]: "(\<And>s. I s \<Longrightarrow> I (f s)) \<Longrightarrow> keeps I (modify f)"
  by (simp add: keeps_def)

text \<open>A computation leaves an observation of the state as it is, whether it returns or throws.\<close>

definition leaves :: "('s \<Rightarrow> 'x) \<Rightarrow> ('s, 'a) exec \<Rightarrow> bool" where
  "leaves f m \<longleftrightarrow> (\<forall>s. f (snd (m s)) = f s)"

named_theorems leaves_intros \<open>rules that show a composed computation leaves an observation as it is\<close>

lemma leaves_keeps: "(\<And>x. keeps (\<lambda>s. f s = x) m) \<Longrightarrow> leaves f m"
  by (simp add: leaves_def keeps_def)

lemma leaves_basic [leaves_intros, simp]: "leaves f (ret a)" "leaves f (throw e)" "leaves f (get g)"
  by (simp_all add: leaves_def)

lemma leaves_andthen [leaves_intros]: "leaves f m \<Longrightarrow> (\<And>a. leaves f (g a)) \<Longrightarrow> leaves f (andthen m g)"
proof (unfold leaves_def, intro allI)
  fix s
  assume m: "\<forall>s. f (snd (m s)) = f s" and g: "\<And>a. \<forall>s. f (snd (g a s)) = f s"
  obtain r t where "m s = (r, t)" by fastforce
  with spec [OF m, of s] g show "f (snd (andthen m g s)) = f s" by (cases r) simp_all
qed

lemma leaves_if [leaves_intros]: "leaves f m \<Longrightarrow> leaves f m' \<Longrightarrow> leaves f (if b then m else m')"
  by simp

lemma leavesD: "leaves f m \<Longrightarrow> m s = (r, t) \<Longrightarrow> f t = f s"
  by (metis leaves_def snd_conv)

section \<open>Lists\<close>

text \<open>
  \<open>std::find_if\<close> followed by an action at the found position splits a list into the part
  before the first element with the property and the rest.
\<close>

lemma length_takeWhile_eq_iff [simp]: "length (takeWhile P xs) = length xs \<longleftrightarrow> (\<forall>x \<in> set xs. P x)"
proof (induction xs)
  case (Cons x xs)
  then show ?case by auto
qed simp

lemma take_length_takeWhile [simp]: "take (length (takeWhile P xs)) xs = takeWhile P xs"
  by (metis takeWhile_eq_take)

lemma drop_length_takeWhile [simp]: "drop (length (takeWhile P xs)) xs = dropWhile P xs"
  by (metis dropWhile_eq_drop)

lemma erase_found_eq_remove1:
  "takeWhile (\<lambda>x. x \<noteq> t) xs @ drop (Suc (length (takeWhile (\<lambda>x. x \<noteq> t) xs))) xs = remove1 t xs"
  by (induction xs) auto

lemma distinct_remove1_filter: "distinct xs \<Longrightarrow> remove1 x xs = filter (\<lambda>y. y \<noteq> x) xs"
  by (auto simp: distinct_remove1_removeAll removeAll_filter_not_eq intro: filter_cong)

lemma length_remove1_in: "x \<in> set xs \<Longrightarrow> Suc (length (remove1 x xs)) = length xs"
  by (induction xs) auto

lemma hd_dropWhile_not: "dropWhile P xs = y # ys \<Longrightarrow> \<not> P y"
  by (metis hd_dropWhile list.distinct(1) list.sel(1))

lemma sorted_dropWhile_gt:
  fixes f :: "'a \<Rightarrow> 'b::linorder"
  shows "sorted (map f xs) \<Longrightarrow> u \<in> set (dropWhile (\<lambda>u. f u \<le> w) xs) \<Longrightarrow> w < f u"
  by (induction xs) (auto split: if_splits)

lemma takeWhile_all_append:
  "\<forall>x \<in> set xs. P x \<Longrightarrow> takeWhile P (xs @ ys) = xs @ takeWhile P ys"
  "\<forall>x \<in> set xs. P x \<Longrightarrow> dropWhile P (xs @ ys) = dropWhile P ys"
  by (induction xs) auto

lemma le_length_takeWhile:
  "j \<le> length (takeWhile P xs) \<longleftrightarrow> j \<le> length xs \<and> list_all P (take j xs)"
proof (induction xs arbitrary: j)
  case (Cons x xs)
  then show ?case by (cases j) auto
qed simp

end
