(* ===== verification/Os.thy ===== *)
theory Os
  imports Prelude
begin

unbundle bit_operations_syntax

text \<open>
  The operating system as the sources use it.  None of these calls is code of the repository, so
  all of them are a parameter: a record of functions over an arbitrary type of worlds, which
  every definition that reaches the system takes as an argument.  What POSIX documents of a call
  and a theorem needs is stated here as a named hypothesis.  The branches for Windows
  (\<^verbatim>\<open>#ifdef _WIN32\<close>) are not modelled except where a theory says so.
\<close>

section \<open>Data shared with the system\<close>

text \<open>A socket file descriptor; \<^verbatim>\<open>fdInvalid\<close> is -1.\<close>

type_synonym fd = int

type_synonym byte = "8 word"

text \<open>
  Durations are counts of milliseconds and time points counts of nanoseconds, as
  \<^verbatim>\<open>std::chrono::milliseconds\<close> and \<^verbatim>\<open>std::chrono::steady_clock\<close> have them.
\<close>

type_synonym duration = int

type_synonym timepoint = int

text \<open>
  Event masks are sets of flags: the code combines them only with \<^verbatim>\<open>|=\<close>, \<^verbatim>\<open>&= ~\<close> and \<^verbatim>\<open>&\<close>, which
  are union, difference and intersection whatever the values of the flags.
\<close>

datatype pollflag = POLLIN | POLLOUT | POLLERR | POLLHUP | POLLNVAL

record pollfd =
  pfd_fd :: fd
  pfd_events :: "pollflag set"
  pfd_revents :: "pollflag set"

datatype family = AF_UNSPEC | AF_INET | AF_INET6 | AF_OTHER int

datatype socktype = SOCK_STREAM | SOCK_DGRAM | SOCK_OTHER int

datatype protocol = IPPROTO_TCP | IPPROTO_UDP | IPPROTO_OTHER int

datatype sockopt = SO_REUSEADDR | SO_BROADCAST | SO_NOSIGPIPE | SO_RCVBUF

section \<open>The calls\<close>

text \<open>
  Every call returns what the C function returns and the next world.  A call that fills a buffer
  also returns the bytes it wrote there; the data of a call that sends is passed as a string.
  \<open>sys_what\<close> is \<^verbatim>\<open>std::exception::what\<close>, whose text the standard library composes.
\<close>

record 'w os =
  sys_now :: "'w \<Rightarrow> timepoint \<times> 'w"
  sys_poll :: "pollfd list \<Rightarrow> int \<Rightarrow> 'w \<Rightarrow> (int \<times> pollfd list) \<times> 'w"
  sys_errno :: "'w \<Rightarrow> int"
  sys_socket :: "family \<Rightarrow> socktype \<Rightarrow> protocol \<Rightarrow> 'w \<Rightarrow> fd \<times> 'w"
  sys_close :: "fd \<Rightarrow> 'w \<Rightarrow> 'w"
  sys_fcntl_getfl :: "fd \<Rightarrow> 'w \<Rightarrow> int \<times> 'w"
  sys_fcntl_setfl :: "fd \<Rightarrow> int \<Rightarrow> 'w \<Rightarrow> int \<times> 'w"
  sys_O_NONBLOCK :: int
  sys_has_nosigpipe :: bool
  sys_setsockopt :: "fd \<Rightarrow> sockopt \<Rightarrow> int \<Rightarrow> 'w \<Rightarrow> int \<times> 'w"
  sys_getsockopt :: "fd \<Rightarrow> sockopt \<Rightarrow> 'w \<Rightarrow> (int \<times> int \<times> nat) \<times> 'w"
  sys_recv :: "fd \<Rightarrow> nat \<Rightarrow> 'w \<Rightarrow> (int \<times> string) \<times> 'w"
  sys_recvfrom :: "fd \<Rightarrow> nat \<Rightarrow> 'w \<Rightarrow> (int \<times> string \<times> byte list) \<times> 'w"
  sys_send :: "fd \<Rightarrow> string \<Rightarrow> 'w \<Rightarrow> int \<times> 'w"
  sys_sendto :: "fd \<Rightarrow> string \<Rightarrow> byte list \<Rightarrow> 'w \<Rightarrow> int \<times> 'w"
  sys_bind :: "fd \<Rightarrow> byte list \<Rightarrow> 'w \<Rightarrow> int \<times> 'w"
  sys_connect :: "fd \<Rightarrow> byte list \<Rightarrow> 'w \<Rightarrow> int \<times> 'w"
  sys_listen :: "fd \<Rightarrow> int \<Rightarrow> 'w \<Rightarrow> int \<times> 'w"
  sys_accept :: "fd \<Rightarrow> 'w \<Rightarrow> (fd \<times> byte list) \<times> 'w"
  sys_getsockname :: "fd \<Rightarrow> 'w \<Rightarrow> (int \<times> byte list) \<times> 'w"
  sys_getpeername :: "fd \<Rightarrow> 'w \<Rightarrow> (int \<times> byte list) \<times> 'w"
  sys_what :: "exn \<Rightarrow> string"

section \<open>Documented behaviour\<close>

text \<open>
  \<^verbatim>\<open>poll(2)\<close>: with a negative timeout the call blocks until an event occurs or fails; it never
  reports a timeout.
\<close>

definition poll_blocks :: "'w os \<Rightarrow> bool" where
  "poll_blocks os \<longleftrightarrow> (\<forall>pfds t w. t < 0 \<longrightarrow> fst (fst (sys_poll os pfds t w)) \<noteq> 0)"

text \<open>
  \<^verbatim>\<open>poll(2)\<close> fills \<^verbatim>\<open>revents\<close> and leaves the other fields of each element alone.
\<close>

definition poll_only_revents :: "'w os \<Rightarrow> bool" where
  "poll_only_revents os \<longleftrightarrow> (\<forall>pfds t w.
     map (\<lambda>p. (pfd_fd p, pfd_events p)) (snd (fst (sys_poll os pfds t w))) =
     map (\<lambda>p. (pfd_fd p, pfd_events p)) pfds)"

text \<open>
  \<^verbatim>\<open>send(2)\<close> on a stream socket appends a prefix of the data to the stream of the peer and returns
  its length; a failing call appends nothing.  \<open>stream\<close> is what the peer of a descriptor can have
  received in the end.  Waiting and reading the clock send nothing.
\<close>

definition stream_send :: "'w os \<Rightarrow> ('w \<Rightarrow> fd \<Rightarrow> string) \<Rightarrow> bool" where
  "stream_send os stream \<longleftrightarrow>
     (\<forall>s d w r w'. sys_send os s d w = (r, w') \<longrightarrow>
        (if r < 0 then stream w' s = stream w s
         else nat r \<le> length d \<and> stream w' s = stream w s @ take (nat r) d))
   \<and> (\<forall>s pfds t w. stream (snd (sys_poll os pfds t w)) s = stream w s)
   \<and> (\<forall>s w. stream (snd (sys_now os w)) s = stream w s)"

text \<open>\<^verbatim>\<open>recv(2)\<close> fills at most the given number of bytes and returns their number.\<close>

definition recv_bounded :: "'w os \<Rightarrow> bool" where
  "recv_bounded os \<longleftrightarrow> (\<forall>s n w r d w'. sys_recv os s n w = ((r, d), w') \<longrightarrow> 0 \<le> r \<longrightarrow>
     length d = nat r \<and> length d \<le> n)"

text \<open>The steady clock never goes back.\<close>

definition steady :: "'w os \<Rightarrow> ('w \<Rightarrow> timepoint) \<Rightarrow> bool" where
  "steady os clock \<longleftrightarrow> (\<forall>w t w'. sys_now os w = (t, w') \<longrightarrow> clock w \<le> t \<and> t \<le> clock w')
     \<and> (\<forall>pfds m w. clock w \<le> clock (snd (sys_poll os pfds m w)))"

text \<open>
  The clock and the calls that take time: \<^verbatim>\<open>poll\<close> reports a timeout only after it has waited for the
  whole timeout, and no call turns the clock back.
\<close>

definition timely :: "'w os \<Rightarrow> ('w \<Rightarrow> timepoint) \<Rightarrow> bool" where
  "timely os clock \<longleftrightarrow>
     (\<forall>w t w'. sys_now os w = (t, w') \<longrightarrow> clock w \<le> t \<and> t \<le> clock w')
   \<and> (\<forall>pfds m w. clock w \<le> clock (snd (sys_poll os pfds m w)))
   \<and> (\<forall>pfds m w pfds' w'. 0 \<le> m \<longrightarrow> sys_poll os pfds m w = ((0, pfds'), w') \<longrightarrow> clock w + m * 1000000 \<le> clock w')
   \<and> (\<forall>s d w. clock w \<le> clock (snd (sys_send os s d w)))"

text \<open>The error of the last failing call, as \<^verbatim>\<open>SocketError()\<close> reads it.\<close>

definition SocketError :: "'w os \<Rightarrow> 'w \<Rightarrow> error_code" where
  "SocketError os w = (SystemCategory, sys_errno os w)"

definition throw_system :: "'w os \<Rightarrow> string \<Rightarrow> ('w, 'a) exec" where
  "throw_system os msg = (\<lambda>w. (Inl (SystemError (SocketError os w) msg), w))"

lemma throw_system_run [simp]:
  "throw_system os msg w = (Inl (SystemError (SocketError os w) msg), w)"
  by (simp add: throw_system_def)

lemma leaves_throw_system [leaves_intros, simp]: "leaves f (throw_system os msg)"
  by (simp add: leaves_def)

lemma keeps_throw_system [keeps_intros, simp]: "keeps I (throw_system os msg)"
  by (simp add: keeps_def)

end
