(* ===== verification/Script.thy ===== *)
theory Script
  imports Os
begin

text \<open>
  A concrete system on which the model can be run: its answers are written down beforehand, its
  clock advances by a fixed step with every reading and by the timeout of a \<^verbatim>\<open>poll\<close> that expires, and
  it records what was sent.  It satisfies the documented behaviour that theory \<open>Os\<close> names, so the
  theorems that rely on it are about something.
\<close>

section \<open>The scripted world\<close>

record script =
  s_clock :: timepoint
  s_tick :: nat
  s_polls :: "(int \<times> pollflag set list) list"
  s_sends :: "int list"
  s_sendtos :: "int list"
  s_recvs :: "(int \<times> string) list"
  s_recvfroms :: "(int \<times> string \<times> byte list) list"
  s_accepts :: "(fd \<times> byte list) list"
  s_result :: "string \<Rightarrow> int"
  s_name :: "byte list"
  s_open :: "fd list"
  s_flags :: "fd \<Rightarrow> int"
  s_stream :: "fd \<Rightarrow> string"
  s_datagrams :: "(fd \<times> string \<times> byte list) list"
  s_errno :: int

definition script0 :: script where
  "script0 = \<lparr>s_clock = 0, s_tick = 0, s_polls = [], s_sends = [], s_sendtos = [], s_recvs = [],
     s_recvfroms = [], s_accepts = [], s_result = (\<lambda>_. 0), s_name = [], s_open = [],
     s_flags = (\<lambda>_. 0), s_stream = (\<lambda>_. []), s_datagrams = [], s_errno = 11\<rparr>"

definition script_now :: "script \<Rightarrow> timepoint \<times> script" where
  "script_now w = (s_clock w, w\<lparr>s_clock := s_clock w + int (s_tick w)\<rparr>)"

fun set_revents :: "pollfd list \<Rightarrow> pollflag set list \<Rightarrow> pollfd list" where
  "set_revents (p # ps) (r # rs) = p\<lparr>pfd_revents := r\<rparr> # set_revents ps rs"
| "set_revents (p # ps) [] = p\<lparr>pfd_revents := {}\<rparr> # set_revents ps []"
| "set_revents [] _ = []"

text \<open>Without an answer, \<^verbatim>\<open>poll\<close> fails; with a negative timeout it never reports a timeout.\<close>

definition script_poll :: "pollfd list \<Rightarrow> int \<Rightarrow> script \<Rightarrow> (int \<times> pollfd list) \<times> script" where
  "script_poll pfds t w =
     (case s_polls w of
        [] \<Rightarrow> ((-1, pfds), w)
      | (r, evs) # rest \<Rightarrow>
          if r = 0 then
            if t < 0 then ((-1, pfds), w\<lparr>s_polls := rest\<rparr>)
            else ((0, set_revents pfds []), w\<lparr>s_polls := rest, s_clock := s_clock w + t * 1000000\<rparr>)
          else ((r, set_revents pfds evs), w\<lparr>s_polls := rest\<rparr>))"

definition script_send :: "fd \<Rightarrow> string \<Rightarrow> script \<Rightarrow> int \<times> script" where
  "script_send fd d w =
     (case s_sends w of
        [] \<Rightarrow> (-1, w)
      | r # rest \<Rightarrow>
          if r < 0 then (r, w\<lparr>s_sends := rest\<rparr>)
          else let n = min (nat r) (length d)
               in (int n, w\<lparr>s_sends := rest, s_stream := (s_stream w)(fd := s_stream w fd @ take n d)\<rparr>))"

definition script_sendto :: "fd \<Rightarrow> string \<Rightarrow> byte list \<Rightarrow> script \<Rightarrow> int \<times> script" where
  "script_sendto fd d a w =
     (case s_sendtos w of
        [] \<Rightarrow> (-1, w)
      | r # rest \<Rightarrow>
          if r < 0 then (r, w\<lparr>s_sendtos := rest\<rparr>)
          else (r, w\<lparr>s_sendtos := rest, s_datagrams := s_datagrams w @ [(fd, d, a)]\<rparr>))"

definition script_recv :: "fd \<Rightarrow> nat \<Rightarrow> script \<Rightarrow> (int \<times> string) \<times> script" where
  "script_recv fd n w =
     (case s_recvs w of
        [] \<Rightarrow> ((-1, []), w)
      | (r, d) # rest \<Rightarrow>
          if r < 0 then ((r, []), w\<lparr>s_recvs := rest\<rparr>)
          else ((int (length (take n d)), take n d), w\<lparr>s_recvs := rest\<rparr>))"

definition script_recvfrom :: "fd \<Rightarrow> nat \<Rightarrow> script \<Rightarrow> (int \<times> string \<times> byte list) \<times> script" where
  "script_recvfrom fd n w =
     (case s_recvfroms w of
        [] \<Rightarrow> ((-1, [], []), w)
      | (r, d, a) # rest \<Rightarrow>
          if r < 0 then ((r, [], []), w\<lparr>s_recvfroms := rest\<rparr>)
          else ((int (length (take n d)), take n d, a), w\<lparr>s_recvfroms := rest\<rparr>))"

definition script_socket :: "family \<Rightarrow> socktype \<Rightarrow> protocol \<Rightarrow> script \<Rightarrow> fd \<times> script" where
  "script_socket fam type proto w =
     (if s_result w ''socket'' < 0 then (-1, w)
      else let fd = 1 + foldr max (s_open w) 2 in (fd, w\<lparr>s_open := fd # s_open w\<rparr>))"

definition script_close :: "fd \<Rightarrow> script \<Rightarrow> script" where
  "script_close fd w = w\<lparr>s_open := removeAll fd (s_open w)\<rparr>"

definition script_accept :: "fd \<Rightarrow> script \<Rightarrow> (fd \<times> byte list) \<times> script" where
  "script_accept fd w =
     (case s_accepts w of
        [] \<Rightarrow> ((-1, []), w)
      | (c, a) # rest \<Rightarrow>
          if c < 0 \<or> c \<in> set (s_open w) then ((-1, []), w\<lparr>s_accepts := rest\<rparr>)
          else ((c, a), w\<lparr>s_accepts := rest, s_open := c # s_open w\<rparr>))"

definition script_what :: "exn \<Rightarrow> string" where
  "script_what e = (case e of SystemError c m \<Rightarrow> m | RuntimeError m \<Rightarrow> m | LogicError m \<Rightarrow> m
     | InvalidArgument m \<Rightarrow> m | OutOfRange m \<Rightarrow> m | AssertFailed \<Rightarrow> [])"

definition script_os :: "script os" where
  "script_os = \<lparr>
     sys_now = script_now,
     sys_poll = script_poll,
     sys_errno = s_errno,
     sys_socket = script_socket,
     sys_close = script_close,
     sys_fcntl_getfl = (\<lambda>fd w. (if s_result w ''fcntl'' < 0 then -1 else s_flags w fd, w)),
     sys_fcntl_setfl = (\<lambda>fd v w. (if s_result w ''fcntl'' < 0 then (-1, w)
        else (0, w\<lparr>s_flags := (s_flags w)(fd := v)\<rparr>))),
     sys_O_NONBLOCK = 2048,
     sys_has_nosigpipe = False,
     sys_setsockopt = (\<lambda>fd opt v w. (s_result w ''setsockopt'', w)),
     sys_getsockopt = (\<lambda>fd opt w. ((s_result w ''getsockopt'', 65536, 4), w)),
     sys_recv = script_recv,
     sys_recvfrom = script_recvfrom,
     sys_send = script_send,
     sys_sendto = script_sendto,
     sys_bind = (\<lambda>fd a w. (s_result w ''bind'', w)),
     sys_connect = (\<lambda>fd a w. (s_result w ''connect'', w)),
     sys_listen = (\<lambda>fd n w. (s_result w ''listen'', w)),
     sys_accept = script_accept,
     sys_getsockname = (\<lambda>fd w. ((s_result w ''getsockname'', s_name w), w)),
     sys_getpeername = (\<lambda>fd w. ((s_result w ''getpeername'', s_name w), w)),
     sys_what = script_what\<rparr>"

section \<open>It behaves as documented\<close>

lemma script_os_poll_blocks [simp]: "poll_blocks script_os"
  by (auto simp: poll_blocks_def script_os_def script_poll_def split: list.split)

lemma set_revents_other: "map (\<lambda>p. (pfd_fd p, pfd_events p)) (set_revents ps rs) = map (\<lambda>p. (pfd_fd p, pfd_events p)) ps"
  by (induction ps rs rule: set_revents.induct) auto

lemma script_os_poll_only_revents [simp]: "poll_only_revents script_os"
  by (auto simp: poll_only_revents_def script_os_def script_poll_def set_revents_other split: list.split)

lemma script_os_stream_send [simp]: "stream_send script_os s_stream"
  by (auto simp: stream_send_def script_os_def script_send_def script_poll_def script_now_def Let_def
      split: list.splits if_splits)

lemma script_os_recv_bounded [simp]: "recv_bounded script_os"
  by (auto simp: recv_bounded_def script_os_def script_recv_def split: list.splits if_splits)

lemma script_os_steady [simp]: "steady script_os s_clock"
  by (auto simp: steady_def script_os_def script_now_def script_poll_def split: list.splits if_splits)

lemma script_os_timely [simp]: "timely script_os s_clock"
  by (auto simp: timely_def script_os_def script_now_def script_poll_def script_send_def Let_def
      split: list.splits if_splits)

text \<open>The calls of the scripted system, for evaluation.\<close>

lemmas script_calls = script_os_def script_now_def script_poll_def script_send_def script_sendto_def
  script_recv_def script_recvfrom_def script_socket_def script_close_def script_accept_def script0_def

end
