(* ===== verification/Wait.thy ===== *)
theory Wait
  imports Os
begin

text \<open>
  \<^verbatim>\<open>src/wait.h\<close> and \<^verbatim>\<open>src/wait.cpp\<close>: the deadlines that a blocking operation is run under, and
  waiting for a descriptor to become readable or writable.  The five deadline structures share an
  interface that is used as a template parameter; here it is the locale \<open>deadline_policy\<close>,
  interpreted on each of them.
\<close>

section \<open>Conversions between clock ticks and milliseconds\<close>

text \<open>
  \<^verbatim>\<open>duration_cast\<close> truncates towards zero; a duration added to a time point is converted exactly.
\<close>

definition ns_per_ms :: int where
  "ns_per_ms = 1000000"

definition duration_cast_ms :: "int \<Rightarrow> duration" where
  "duration_cast_ms ns = (if ns < 0 then - ((- ns) div ns_per_ms) else ns div ns_per_ms)"

definition add_ms :: "timepoint \<Rightarrow> duration \<Rightarrow> timepoint" where
  "add_ms t d = t + d * ns_per_ms"

lemma duration_cast_ms_nonneg: "0 \<le> ns \<Longrightarrow> 0 \<le> duration_cast_ms ns"
  by (simp add: duration_cast_ms_def ns_per_ms_def)

lemma duration_cast_ms_nonpos: "ns \<le> 0 \<Longrightarrow> duration_cast_ms ns \<le> 0"
  by (simp add: duration_cast_ms_def ns_per_ms_def pos_imp_zdiv_nonneg_iff)

lemma duration_cast_ms_le: "0 \<le> ns \<Longrightarrow> duration_cast_ms ns * ns_per_ms \<le> ns"
  by (simp add: duration_cast_ms_def ns_per_ms_def)

lemma duration_cast_ms_gt: "0 \<le> ns \<Longrightarrow> ns < (duration_cast_ms ns + 1) * ns_per_ms"
  by (simp add: duration_cast_ms_def ns_per_ms_def)

lemma duration_cast_ms_mono:
  assumes "a \<le> b"
  shows "duration_cast_ms a \<le> duration_cast_ms b"
proof (cases "a < 0 \<and> 0 \<le> b")
  case True
  then show ?thesis
    using duration_cast_ms_nonpos [of a] duration_cast_ms_nonneg [of b] by simp
next
  case False
  with assms show ?thesis
    by (auto simp: duration_cast_ms_def ns_per_ms_def intro: zdiv_mono1)
qed

lemma duration_cast_ms_add_ms [simp]: "duration_cast_ms (add_ms t d - t) = d"
  using nonzero_mult_div_cancel_right [of 1000000 "- d"]
  by (simp add: duration_cast_ms_def add_ms_def ns_per_ms_def)

section \<open>Deadlines\<close>

text \<open>
  \<^verbatim>\<open>wait_detail::Clocked\<close> and the structures built from it.  The unlimited and the zero deadline
  carry no data of their own beside the clock, so \<^verbatim>\<open>DeadlineUnlimitedTime\<close> and
  \<^verbatim>\<open>DeadlineZeroTime\<close> are \<open>clocked\<close> and \<^verbatim>\<open>DeadlineUnlimited\<close> and \<^verbatim>\<open>DeadlineZero\<close> are \<open>unit\<close>.
\<close>

record clocked =
  now :: timepoint

record deadline_limited = clocked +
  deadline :: timepoint

definition Clocked :: "'w os \<Rightarrow> 'w \<Rightarrow> clocked \<times> 'w" where
  "Clocked os w = (let (t, w') = sys_now os w in (\<lparr>now = t\<rparr>, w'))"

definition Clocked_Tick :: "'w os \<Rightarrow> 'd clocked_scheme \<Rightarrow> 'w \<Rightarrow> 'd clocked_scheme \<times> 'w" where
  "Clocked_Tick os d w = (let (t, w') = sys_now os w in (d\<lparr>now := t\<rparr>, w'))"

definition Unclocked_Tick :: "'w os \<Rightarrow> unit \<Rightarrow> 'w \<Rightarrow> unit \<times> 'w" where
  "Unclocked_Tick os d w = (d, w)"

definition Unlimited_TimeLeft :: "'d \<Rightarrow> bool" where
  "Unlimited_TimeLeft d = True"

definition Unlimited_Remaining :: "'d \<Rightarrow> duration" where
  "Unlimited_Remaining d = -1"

definition ZeroLimited_TimeLeft :: "'d \<Rightarrow> bool" where
  "ZeroLimited_TimeLeft d = False"

definition ZeroLimited_Remaining :: "'d \<Rightarrow> duration" where
  "ZeroLimited_Remaining d = 0"

definition DeadlineLimited :: "'w os \<Rightarrow> duration \<Rightarrow> 'w \<Rightarrow> deadline_limited \<times> 'w" where
  "DeadlineLimited os timeout w =
     (let (t, w') = sys_now os w in (\<lparr>now = t, deadline = add_ms t timeout\<rparr>, w'))"

definition DeadlineLimited_TimeLeft :: "deadline_limited \<Rightarrow> bool" where
  "DeadlineLimited_TimeLeft d \<longleftrightarrow> now d < deadline d"

definition DeadlineLimited_Remaining :: "deadline_limited \<Rightarrow> duration" where
  "DeadlineLimited_Remaining d =
     (let remaining = duration_cast_ms (deadline d - now d)
      in if remaining < 0 then 0 else remaining)"

subsection \<open>The interface shared by the deadlines\<close>

text \<open>
  What a loop that is templated over the deadline may rely on: a tick only reads the clock, the
  remaining time is either unlimited (-1) or not negative, an unlimited deadline never expires and
  an expired one has nothing left.
\<close>

locale deadline_policy =
  fixes tick :: "'w os \<Rightarrow> 'd \<Rightarrow> 'w \<Rightarrow> 'd \<times> 'w"
    and time_left :: "'d \<Rightarrow> bool"
    and remaining :: "'d \<Rightarrow> duration"
  assumes remaining_ge: "- 1 \<le> remaining d"
    and unlimited_left: "remaining d < 0 \<Longrightarrow> time_left d"
    and expired_remaining: "\<not> time_left d \<Longrightarrow> remaining d = 0"
    and tick_world: "snd (tick os d w) \<in> {w, snd (sys_now os w)}"
begin

lemma remaining_cases: "remaining d = -1 \<or> 0 \<le> remaining d"
  using remaining_ge [of d] by linarith

lemma tick_keeps: "(\<And>w. I w \<Longrightarrow> I (snd (sys_now os w))) \<Longrightarrow> I w \<Longrightarrow> I (snd (tick os d w))"
  using tick_world [of os d w] by auto

end

text \<open>A deadline that also knows the current time, as scheduling needs it.\<close>

locale clocked_policy = deadline_policy tick time_left remaining
  for tick :: "'w os \<Rightarrow> 'd \<Rightarrow> 'w \<Rightarrow> 'd \<times> 'w"
    and time_left :: "'d \<Rightarrow> bool"
    and remaining :: "'d \<Rightarrow> duration" +
  fixes time_now :: "'d \<Rightarrow> timepoint"
  assumes tick_now: "time_now (fst (tick os d w)) = fst (sys_now os w)"
    and tick_clock: "snd (tick os d w) = snd (sys_now os w)"
begin

lemma tick_eq: "tick os d w = (d', w') \<Longrightarrow> time_now d' = fst (sys_now os w) \<and> w' = snd (sys_now os w)"
  by (metis fst_conv snd_conv tick_clock tick_now)

end

interpretation unlimited: deadline_policy Unclocked_Tick Unlimited_TimeLeft Unlimited_Remaining
  by unfold_locales (simp_all add: Unclocked_Tick_def Unlimited_TimeLeft_def Unlimited_Remaining_def)

interpretation zero: deadline_policy Unclocked_Tick ZeroLimited_TimeLeft ZeroLimited_Remaining
  by unfold_locales (simp_all add: Unclocked_Tick_def ZeroLimited_TimeLeft_def ZeroLimited_Remaining_def)

interpretation unlimited_time: clocked_policy Clocked_Tick Unlimited_TimeLeft Unlimited_Remaining now
  by unfold_locales
    (simp_all add: Clocked_Tick_def Unlimited_TimeLeft_def Unlimited_Remaining_def split: prod.splits)

interpretation zero_time: clocked_policy Clocked_Tick ZeroLimited_TimeLeft ZeroLimited_Remaining now
  by unfold_locales
    (simp_all add: Clocked_Tick_def ZeroLimited_TimeLeft_def ZeroLimited_Remaining_def split: prod.splits)

lemma DeadlineLimited_Remaining_nonneg: "0 \<le> DeadlineLimited_Remaining d"
  by (simp add: DeadlineLimited_Remaining_def Let_def)

lemma DeadlineLimited_expired: "\<not> DeadlineLimited_TimeLeft d \<Longrightarrow> DeadlineLimited_Remaining d = 0"
  using duration_cast_ms_nonpos [of "deadline d - now d"]
  by (simp add: DeadlineLimited_TimeLeft_def DeadlineLimited_Remaining_def Let_def)

interpretation limited: clocked_policy Clocked_Tick DeadlineLimited_TimeLeft DeadlineLimited_Remaining now
proof unfold_locales
  fix d :: deadline_limited
  show "- 1 \<le> DeadlineLimited_Remaining d"
    using DeadlineLimited_Remaining_nonneg [of d] by simp
  show "DeadlineLimited_Remaining d < 0 \<Longrightarrow> DeadlineLimited_TimeLeft d"
    using DeadlineLimited_Remaining_nonneg [of d] by simp
  show "\<not> DeadlineLimited_TimeLeft d \<Longrightarrow> DeadlineLimited_Remaining d = 0"
    by (rule DeadlineLimited_expired)
qed (simp_all add: Clocked_Tick_def split: prod.splits)

lemma DeadlineLimited_Remaining_gt: "deadline d - now d < (DeadlineLimited_Remaining d + 1) * ns_per_ms"
proof (cases "DeadlineLimited_TimeLeft d")
  case True
  then show ?thesis
    using duration_cast_ms_gt [of "deadline d - now d"] duration_cast_ms_nonneg [of "deadline d - now d"]
    by (simp add: DeadlineLimited_TimeLeft_def DeadlineLimited_Remaining_def Let_def)
next
  case False
  then show ?thesis
    using DeadlineLimited_expired [OF False] by (simp add: DeadlineLimited_TimeLeft_def ns_per_ms_def)
qed

lemma DeadlineLimited_Remaining_le:
  "deadline d - now d \<le> t * ns_per_ms \<Longrightarrow> 0 \<le> t \<Longrightarrow> DeadlineLimited_Remaining d \<le> t"
proof -
  assume *: "deadline d - now d \<le> t * ns_per_ms" and t: "0 \<le> t"
  have "duration_cast_ms (t * ns_per_ms) = t" using duration_cast_ms_add_ms [of 0 t] unfolding add_ms_def by simp
  with duration_cast_ms_mono [OF *] t show "DeadlineLimited_Remaining d \<le> t"
    by (simp add: DeadlineLimited_Remaining_def Let_def)
qed

lemma DeadlineLimited_Remaining_lt:
  assumes "deadline d - now d < t * ns_per_ms" and "0 < t"
  shows "DeadlineLimited_Remaining d < t"
proof (rule ccontr)
  assume "\<not> DeadlineLimited_Remaining d < t"
  then have "t * ns_per_ms \<le> DeadlineLimited_Remaining d * ns_per_ms" by (simp add: ns_per_ms_def)
  moreover have "0 < DeadlineLimited_Remaining d" using assms(2) \<open>\<not> DeadlineLimited_Remaining d < t\<close> by simp
  then have "DeadlineLimited_Remaining d * ns_per_ms \<le> deadline d - now d"
    using duration_cast_ms_le [of "deadline d - now d"] duration_cast_ms_nonpos [of "deadline d - now d"]
    by (cases "0 \<le> deadline d - now d") (auto simp: DeadlineLimited_Remaining_def Let_def split: if_splits)
  ultimately show False using assms(1) by simp
qed

text \<open>The clock readings of a limited deadline never change the point in time it stands for.\<close>

lemma Clocked_Tick_deadline: "deadline (fst (Clocked_Tick os d w)) = deadline d"
  by (simp add: Clocked_Tick_def split: prod.splits)

section \<open>Waiting for events\<close>

text \<open>
  \<^verbatim>\<open>ToMsec\<close> narrows the 64 bit count of the timeout to the \<^verbatim>\<open>int\<close> that \<^verbatim>\<open>poll\<close> takes.
\<close>

definition ToMsec :: "duration \<Rightarrow> int" where
  "ToMsec timeout = sint (word_of_int timeout :: 32 word)"

lemma ToMsec_eq_iff: "ToMsec t = t \<longleftrightarrow> - (2 ^ 31) \<le> t \<and> t < 2 ^ 31"
proof -
  have "ToMsec t = signed_take_bit 31 t"
    by (simp add: ToMsec_def sint_sbintrunc')
  also have "(signed_take_bit 31 t = t) \<longleftrightarrow> (- (2 ^ 31) \<le> t \<and> t < 2 ^ 31)"
    by (simp add: signed_take_bit_int_eq_self_iff)
  finally show ?thesis by simp
qed

definition DoPoll :: "'w os \<Rightarrow> pollfd list \<Rightarrow> int \<Rightarrow> ('w, int \<times> pollfd list) exec" where
  "DoPoll os pfds timeoutMs = call (sys_poll os pfds timeoutMs)"

definition Wait_fd :: "'w os \<Rightarrow> fd \<Rightarrow> pollflag set \<Rightarrow> duration \<Rightarrow> ('w, bool) exec" where
  "Wait_fd os s events timeout =
     andthen (DoPoll os [\<lparr>pfd_fd = s, pfd_events = events, pfd_revents = {}\<rparr>] (ToMsec timeout))
       (\<lambda>(result, _).
          if result \<noteq> 0 then
            (if result < 0 then
               throw_system os
                 (if events = {POLLIN} then ''failed to wait for socket readable''
                  else ''failed to wait for socket writable'')
             else ret True)
          else ret False)"

definition WaitReadable :: "'w os \<Rightarrow> fd \<Rightarrow> duration \<Rightarrow> ('w, bool) exec" where
  "WaitReadable os s timeout = Wait_fd os s {POLLIN} timeout"

definition WaitWritable :: "'w os \<Rightarrow> fd \<Rightarrow> duration \<Rightarrow> ('w, bool) exec" where
  "WaitWritable os s timeout = Wait_fd os s {POLLOUT} timeout"

definition Wait :: "'w os \<Rightarrow> pollfd list \<Rightarrow> duration \<Rightarrow> ('w, bool \<times> pollfd list) exec" where
  "Wait os pfds timeout =
     andthen (DoPoll os pfds (ToMsec timeout))
       (\<lambda>(result, pfds').
          if result \<noteq> 0 then
            (if result < 0 then
               throw_system os ''failed to wait for socket readable/writable''
             else ret (True, pfds'))
          else ret (False, pfds'))"

lemma Wait_fd_cases:
  assumes "Wait_fd os s ev t w = (r, w')"
  obtains (ready) v where "sys_poll os [\<lparr>pfd_fd = s, pfd_events = ev, pfd_revents = {}\<rparr>] (ToMsec t) w = (v, w')"
      and "0 < fst v" and "r = Inr True"
  | (timeout) v where "sys_poll os [\<lparr>pfd_fd = s, pfd_events = ev, pfd_revents = {}\<rparr>] (ToMsec t) w = (v, w')"
      and "fst v = 0" and "r = Inr False"
  | (error) v m where "sys_poll os [\<lparr>pfd_fd = s, pfd_events = ev, pfd_revents = {}\<rparr>] (ToMsec t) w = (v, w')"
      and "fst v < 0" and "r = Inl (SystemError (SocketError os w') m)"
proof -
  obtain v w1 where p: "sys_poll os [\<lparr>pfd_fd = s, pfd_events = ev, pfd_revents = {}\<rparr>] (ToMsec t) w = (v, w1)"
    by fastforce
  obtain n ps where v: "v = (n, ps)" by fastforce
  note eq = assms [unfolded Wait_fd_def DoPoll_def andthen_def]
  consider "0 < n" | "n = 0" | "n < 0" by linarith
  then show thesis
  proof cases
    case 1 with p v eq show ?thesis by (intro ready) auto
  next
    case 2 with p v eq show ?thesis by (intro timeout) auto
  next
    case 3 with p v eq show ?thesis by (intro error) auto
  qed
qed

lemma Wait_fd_keeps:
  assumes "\<And>pfds m w. I w \<Longrightarrow> I (snd (sys_poll os pfds m w))"
  shows "keeps I (Wait_fd os s ev t)"
proof (rule keepsI)
  fix w r w' assume "I w" and "Wait_fd os s ev t w = (r, w')"
  from this(2) this(1) show "I w'"
    by (cases rule: Wait_fd_cases) (metis assms snd_conv)+
qed

lemma Wait_fd_snd: "snd (Wait_fd os s ev t w) =
    snd (sys_poll os [\<lparr>pfd_fd = s, pfd_events = ev, pfd_revents = {}\<rparr>] (ToMsec t) w)"
  by (cases "Wait_fd os s ev t w") (auto elim: Wait_fd_cases)

section \<open>Properties\<close>

text \<open>
  The timeout reaches \<^verbatim>\<open>poll\<close> unchanged exactly when it fits into an \<^verbatim>\<open>int\<close>: about 24.8 days
  in both directions.
\<close>

theorem ToMsec_exact_iff: "ToMsec t = t \<longleftrightarrow> - (2 ^ 31) \<le> t \<and> t < 2 ^ 31"
  by (rule ToMsec_eq_iff)

text \<open>
  A limited deadline reports the whole milliseconds that are left, rounded down, while time is
  left, and 0 afterwards: never a negative number, which would mean to wait without limit.
\<close>

theorem DeadlineLimited_Remaining_exact:
  "if DeadlineLimited_TimeLeft d
   then 0 \<le> DeadlineLimited_Remaining d
      \<and> DeadlineLimited_Remaining d * 1000000 \<le> deadline d - now d
      \<and> deadline d - now d < (DeadlineLimited_Remaining d + 1) * 1000000
   else DeadlineLimited_Remaining d = 0"
proof (cases "DeadlineLimited_TimeLeft d")
  case True
  then have "0 \<le> deadline d - now d" by (simp add: DeadlineLimited_TimeLeft_def)
  with True show ?thesis
    using duration_cast_ms_le [of "deadline d - now d"] duration_cast_ms_gt [of "deadline d - now d"]
      duration_cast_ms_nonneg [of "deadline d - now d"]
    by (simp add: DeadlineLimited_Remaining_def Let_def ns_per_ms_def)
qed (simp add: DeadlineLimited_expired)

end
