(* ===== verification/ErrorCode.thy ===== *)
theory ErrorCode
  imports Os
begin

text \<open>
  \<^verbatim>\<open>src/error_code*.cpp\<close>: error codes are pairs of a category and a number, the category turns
  the number into a text.  The texts themselves come from the system (\<^verbatim>\<open>gai_strerror\<close>,
  \<^verbatim>\<open>FormatMessage\<close>, the OpenSSL error table), which are parameters.
\<close>

section \<open>Making error codes\<close>

definition AddressError :: "int \<Rightarrow> error_code" where
  "AddressError code = (GaiCategory, code)"

definition SslError :: "int \<Rightarrow> error_code" where
  "SslError code = (SslCategory, code)"

definition SocketError_win :: "int \<Rightarrow> error_code" where
  "SocketError_win code = (Win32Category, code)"

section \<open>Category names and messages\<close>

fun category_name :: "err_category \<Rightarrow> string" where
  "category_name GaiCategory = ''GetAddrInfoError''"
| "category_name SslCategory = ''OpenSSLError''"
| "category_name Win32Category = ''Win32Error''"
| "category_name SystemCategory = ''system''"

definition gai_message :: "(int \<Rightarrow> string) \<Rightarrow> int \<Rightarrow> string" where
  "gai_message gai_strerror messageId = gai_strerror messageId"

text \<open>
  The OpenSSL message: the reason string when there is one, otherwise the pieces that
  \<^verbatim>\<open>ERR_print_errors_cb\<close> passes to the callback, appended in order.
\<close>

definition ssl_message :: "(64 word \<Rightarrow> string option) \<Rightarrow> string list \<Rightarrow> int \<Rightarrow> string" where
  "ssl_message reason_string pieces messageId =
     (case reason_string (word_of_int messageId) of
        Some reason \<Rightarrow> reason
      | None \<Rightarrow> foldl (\<lambda>buf str. buf @ str) [] pieces)"

text \<open>
  The Windows message: \<^verbatim>\<open>FormatMessage\<close> fills a buffer of 256 characters and returns the length,
  0 on failure; then trailing line breaks are removed one by one.
\<close>

definition CR :: char where "CR = CHR 0x0D"
definition LF :: char where "LF = CHR 0x0A"

function trim_newlines :: "string \<Rightarrow> string" where
  "trim_newlines message =
     (if message \<noteq> [] \<and> (last message = CR \<or> last message = LF)
      then trim_newlines (butlast message) else message)"
  by pat_completeness auto
termination by (relation "measure length") auto

declare trim_newlines.simps [simp del]

definition win32_message :: "(nat \<Rightarrow> int \<Rightarrow> nat \<times> string) \<Rightarrow> int \<Rightarrow> string" where
  "win32_message format_message messageId =
     (let (len, written) = format_message 256 messageId;
          message = take 256 (written @ replicate 256 (CHR 0x00))
      in if len \<noteq> 0 then trim_newlines (take len message) else ''Unknown error'')"

section \<open>Lemmas\<close>

lemma foldl_append_concat: "foldl (\<lambda>buf str. buf @ str) acc xs = acc @ concat xs"
  by (induction xs arbitrary: acc) auto

lemma ssl_message_concat:
  "reason (word_of_int n) = None \<Longrightarrow> ssl_message reason pieces n = concat pieces"
  by (simp add: ssl_message_def foldl_append_concat)

lemma trim_newlines_dropWhile:
  "trim_newlines message = rev (dropWhile (\<lambda>c. c \<in> {CR, LF}) (rev message))"
proof (induction message rule: trim_newlines.induct)
  case (1 message)
  show ?case
  proof (cases message rule: rev_cases)
    case Nil
    then show ?thesis by (simp add: trim_newlines.simps)
  next
    case (snoc xs x)
    with 1 show ?thesis by (subst trim_newlines.simps) simp
  qed
qed

section \<open>Properties\<close>

text \<open>
  The message of a Windows error is what \<^verbatim>\<open>FormatMessage\<close> wrote into the 256 characters, without
  its trailing line breaks and only those; a fixed text when the system knows no message.
\<close>

theorem win32_message_trimmed:
  "win32_message fmt messageId =
     (let (len, written) = fmt 256 messageId
      in if len = 0 then ''Unknown error''
         else rev (dropWhile (\<lambda>c. c \<in> {CR, LF})
                (rev (take (min len 256) (written @ replicate 256 (CHR 0x00))))))"
  by (simp add: win32_message_def trim_newlines_dropWhile Let_def case_prod_beta del: take_append rev_append)

end
