(* ===== verification/Guards.thy ===== *)
theory Guards
  imports ErrorCode
begin

text \<open>
  \<^verbatim>\<open>src/winsock_guard.cpp\<close> and \<^verbatim>\<open>src/ssl_guard.cpp\<close>: reference-counted initialisation of the
  socket subsystem and of OpenSSL.  Each guard object adds one to a static counter when it is
  constructed and removes it when it is destroyed; the first one initialises, the last one cleans
  up.  The static variables are the state here.
\<close>

section \<open>The WinSock guard\<close>

text \<open>The calls made to the subsystem, most recent first.\<close>

datatype winsock_call = WSAStartup int | WSACleanup

record 'w winsock =
  ws_curr :: int
  ws_calls :: "winsock_call list"
  ws_sys :: 'w

definition WinSock_UpdateInstanceCount ::
  "('w \<Rightarrow> int \<times> 'w) \<Rightarrow> int \<Rightarrow> ('w winsock, unit) exec" where
  "WinSock_UpdateInstanceCount startup modifier s =
     (let prev = ws_curr s;
          s1 = s\<lparr>ws_curr := ws_curr s + modifier\<rparr>
      in if prev = 0 \<and> ws_curr s1 = 1 then
           (let (result, w) = startup (ws_sys s1);
                s2 = s1\<lparr>ws_sys := w, ws_calls := WSAStartup result # ws_calls s1\<rparr>
            in if result \<noteq> 0
               then (Inl (SystemError (SocketError_win result)
                       ''failed to intitialize socket subsystem''), s2)
               else (Inr (), s2))
         else if prev = 1 \<and> ws_curr s1 = 0 then
           (Inr (), s1\<lparr>ws_calls := WSACleanup # ws_calls s1\<rparr>)
         else (Inr (), s1))"

definition WinSockGuard :: "('w \<Rightarrow> int \<times> 'w) \<Rightarrow> ('w winsock, unit) exec" where
  "WinSockGuard startup = WinSock_UpdateInstanceCount startup 1"

definition WinSockGuard_destroy :: "('w \<Rightarrow> int \<times> 'w) \<Rightarrow> ('w winsock, unit) exec" where
  "WinSockGuard_destroy startup = WinSock_UpdateInstanceCount startup (- 1)"

definition winsock_active :: "'w winsock \<Rightarrow> bool" where
  "winsock_active s \<longleftrightarrow> ws_calls s \<noteq> [] \<and> hd (ws_calls s) = WSAStartup 0"

section \<open>The OpenSSL guard\<close>

datatype ssl_callback = Id | Locking_cb | DynlockCreate_cb | DynlockLock_cb | DynlockDestroy_cb

record 'w sslguard =
  ssl_curr :: int
  cb_id :: "ssl_callback option"
  cb_locking :: "ssl_callback option"
  cb_dynlock_create :: "ssl_callback option"
  cb_dynlock_lock :: "ssl_callback option"
  cb_dynlock_destroy :: "ssl_callback option"
  ssl_sys :: 'w

text \<open>
  \<open>lib_init\<close> stands for \<^verbatim>\<open>SSL_library_init\<close> followed by \<^verbatim>\<open>SSL_load_error_strings\<close>, \<open>evp_cleanup\<close>
  for \<^verbatim>\<open>EVP_cleanup\<close>.
\<close>

definition Ssl_UpdateInstanceCount ::
  "('w \<Rightarrow> 'w) \<Rightarrow> ('w \<Rightarrow> 'w) \<Rightarrow> int \<Rightarrow> ('w sslguard, unit) exec" where
  "Ssl_UpdateInstanceCount lib_init evp_cleanup modifier s =
     (let prev = ssl_curr s;
          s1 = s\<lparr>ssl_curr := ssl_curr s + modifier\<rparr>
      in if prev = 0 \<and> ssl_curr s1 = 1 then
           (Inr (), s1\<lparr>ssl_sys := lib_init (ssl_sys s1),
                       cb_id := Some Id,
                       cb_locking := Some Locking_cb,
                       cb_dynlock_create := Some DynlockCreate_cb,
                       cb_dynlock_lock := Some DynlockLock_cb,
                       cb_dynlock_destroy := Some DynlockDestroy_cb\<rparr>)
         else if prev = 1 \<and> ssl_curr s1 = 0 then
           (Inr (), s1\<lparr>cb_dynlock_destroy := None,
                       cb_dynlock_lock := None,
                       cb_dynlock_create := None,
                       cb_locking := None,
                       cb_id := None,
                       ssl_sys := evp_cleanup (ssl_sys s1)\<rparr>)
         else (Inr (), s1))"

definition SslGuard :: "('w \<Rightarrow> 'w) \<Rightarrow> ('w \<Rightarrow> 'w) \<Rightarrow> ('w sslguard, unit) exec" where
  "SslGuard lib_init evp_cleanup = Ssl_UpdateInstanceCount lib_init evp_cleanup 1"

definition SslGuard_destroy :: "('w \<Rightarrow> 'w) \<Rightarrow> ('w \<Rightarrow> 'w) \<Rightarrow> ('w sslguard, unit) exec" where
  "SslGuard_destroy lib_init evp_cleanup = Ssl_UpdateInstanceCount lib_init evp_cleanup (- 1)"

definition ssl_active :: "'w sslguard \<Rightarrow> bool" where
  "ssl_active s \<longleftrightarrow> cb_id s = Some Id \<and> cb_locking s = Some Locking_cb
     \<and> cb_dynlock_create s = Some DynlockCreate_cb \<and> cb_dynlock_lock s = Some DynlockLock_cb
     \<and> cb_dynlock_destroy s = Some DynlockDestroy_cb"

subsection \<open>The locking callbacks\<close>

text \<open>
  The static array of mutexes, as the list of their states (held or free).  A call that would
  block is \<open>None\<close>.  The index is converted to \<^verbatim>\<open>size_t\<close> first.
\<close>

definition Mutex :: "bool list \<Rightarrow> int \<Rightarrow> exn + nat" where
  "Mutex mutices n =
     (let i = unat (word_of_int n :: 64 word)
      in if i \<ge> length mutices then Inl (LogicError ''invalid SSL locking index'') else Inr i)"

definition Locking :: "bool list \<Rightarrow> bool \<Rightarrow> int \<Rightarrow> exn + bool list option" where
  "Locking mutices lock n =
     (case Mutex mutices n of
        Inl e \<Rightarrow> Inl e
      | Inr i \<Rightarrow>
          (if lock then (if mutices ! i then Inr None else Inr (Some (mutices[i := True])))
           else Inr (Some (mutices[i := False]))))"

text \<open>A dynamic lock is one mutex of its own.\<close>

definition DynlockCreate :: bool where
  "DynlockCreate = False"

definition DynlockLock :: "bool \<Rightarrow> bool \<Rightarrow> bool option" where
  "DynlockLock lock v = (if lock then (if v then None else Some True) else Some False)"

section \<open>Runs of constructions and destructions\<close>

datatype guard_op = Construct | Destroy

text \<open>
  Guards are constructed and destroyed in any order; only a constructed guard is destroyed, so no
  prefix of a run has more destructions than constructions.  A constructor that throws ends the
  run: no object exists then.
\<close>

fun run_guards :: "(int \<Rightarrow> ('s, unit) exec) \<Rightarrow> guard_op list \<Rightarrow> ('s, unit) exec" where
  "run_guards update [] = ret ()"
| "run_guards update (Construct # ops) = andthen (update 1) (\<lambda>_. run_guards update ops)"
| "run_guards update (Destroy # ops) = andthen (update (- 1)) (\<lambda>_. run_guards update ops)"

fun valid_run :: "nat \<Rightarrow> guard_op list \<Rightarrow> bool" where
  "valid_run n [] = True"
| "valid_run n (Construct # ops) = valid_run (Suc n) ops"
| "valid_run n (Destroy # ops) = (0 < n \<and> valid_run (n - 1) ops)"

fun alive :: "nat \<Rightarrow> guard_op list \<Rightarrow> nat" where
  "alive n [] = n"
| "alive n (Construct # ops) = alive (Suc n) ops"
| "alive n (Destroy # ops) = alive (n - 1) ops"

text \<open>
  The contract both counters keep: a successful update changes the count by the modifier, only
  the transitions between 0 and 1 change whether the subsystem is active, and they do.
\<close>

locale instance_counter =
  fixes update :: "int \<Rightarrow> ('s, unit) exec"
    and count :: "'s \<Rightarrow> int"
    and active :: "'s \<Rightarrow> bool"
  assumes up: "update 1 s = (Inr (), t) \<Longrightarrow> 0 \<le> count s \<Longrightarrow>
      count t = count s + 1 \<and> active t = (count s = 0 \<or> active s)"
    and down: "update (- 1) s = (Inr (), t) \<Longrightarrow> 0 < count s \<Longrightarrow>
      count t = count s - 1 \<and> active t = (count s \<noteq> 1 \<and> active s)"
begin

lemma run_active:
  "run_guards update ops s = (Inr (), t) \<Longrightarrow> valid_run n ops \<Longrightarrow> count s = int n \<Longrightarrow>
   (active s \<longleftrightarrow> 0 < n) \<Longrightarrow> count t = int (alive n ops) \<and> (active t \<longleftrightarrow> 0 < alive n ops)"
proof (induction n ops arbitrary: s rule: alive.induct)
  case (1 n)
  then show ?case by simp
next
  case (2 n ops)
  from "2.prems"(1) obtain s1 where s1: "update 1 s = (Inr (), s1)"
    and rest: "run_guards update ops s1 = (Inr (), t)"
    by (auto simp: andthen_eq_Inr)
  from up [OF s1] "2.prems"(3) have "count s1 = int (Suc n)" and "active s1 \<longleftrightarrow> 0 < Suc n"
    using "2.prems"(4) by auto
  with "2.IH" [OF rest] "2.prems"(2) show ?case by simp
next
  case (3 n ops)
  from "3.prems"(1) obtain s1 where s1: "update (- 1) s = (Inr (), s1)"
    and rest: "run_guards update ops s1 = (Inr (), t)"
    by (auto simp: andthen_eq_Inr)
  from "3.prems"(2) have "0 < n" by simp
  with down [OF s1] "3.prems"(3,4) have "count s1 = int (n - 1)" and "active s1 \<longleftrightarrow> 0 < n - 1"
    by (auto simp: of_nat_diff)
  with "3.IH" [OF rest] "3.prems"(2) show ?case by simp
qed

end

interpretation winsock: instance_counter "WinSock_UpdateInstanceCount startup" ws_curr winsock_active
  by unfold_locales
    (auto simp: WinSock_UpdateInstanceCount_def winsock_active_def Let_def
       split: prod.splits if_splits)

interpretation openssl: instance_counter "Ssl_UpdateInstanceCount lib_init evp_cleanup" ssl_curr ssl_active
  by unfold_locales
    (auto simp: Ssl_UpdateInstanceCount_def ssl_active_def Let_def split: if_splits)

lemma ssl_update_returns: "fst (Ssl_UpdateInstanceCount i c m s) = Inr ()"
  by (simp add: Ssl_UpdateInstanceCount_def Let_def)

lemma ssl_run_returns: "fst (run_guards (Ssl_UpdateInstanceCount i c) ops s) = Inr ()"
proof (induction ops arbitrary: s)
  case Nil
  show ?case by simp
next
  case (Cons a ops)
  obtain s' where "Ssl_UpdateInstanceCount i c (case a of Construct \<Rightarrow> 1 | Destroy \<Rightarrow> - 1) s = (Inr (), s')"
    by (metis prod.collapse ssl_update_returns)
  with Cons show ?case by (cases a) simp_all
qed

section \<open>Properties\<close>

text \<open>
  C30. Through any run of guard constructions and destructions that does not throw, the socket
  subsystem is initialised exactly while at least one guard is alive.
\<close>

theorem winsock_guard_active:
  assumes "run_guards (WinSock_UpdateInstanceCount startup) ops
     \<lparr>ws_curr = 0, ws_calls = [], ws_sys = w\<rparr> = (Inr (), t)"
    and "valid_run 0 ops"
  shows "ws_curr t = int (alive 0 ops) \<and> (winsock_active t \<longleftrightarrow> 0 < alive 0 ops)"
  using winsock.run_active [OF assms] by (simp add: winsock_active_def)

theorem winsock_guard_active_witness:
  "winsock_active (snd (run_guards (WinSock_UpdateInstanceCount (\<lambda>w. (0, w)))
      [Construct, Construct, Destroy] \<lparr>ws_curr = 0, ws_calls = [], ws_sys = ()\<rparr>))"
proof -
  let ?run = "run_guards (WinSock_UpdateInstanceCount (\<lambda>w. (0, w)))
      [Construct, Construct, Destroy] \<lparr>ws_curr = 0, ws_calls = [], ws_sys = ()\<rparr>"
  have "?run = (Inr (), snd ?run)"
    by (simp add: WinSock_UpdateInstanceCount_def andthen_def)
  from winsock_guard_active [OF this] show ?thesis by simp
qed

text \<open>
  The same for OpenSSL: the callbacks are installed exactly while a guard is alive, and the
  run never throws.
\<close>

theorem ssl_guard_active:
  assumes "valid_run 0 ops"
  shows "\<exists>t. run_guards (Ssl_UpdateInstanceCount lib_init evp_cleanup) ops
       \<lparr>ssl_curr = 0, cb_id = None, cb_locking = None, cb_dynlock_create = None,
        cb_dynlock_lock = None, cb_dynlock_destroy = None, ssl_sys = w\<rparr> = (Inr (), t)
     \<and> ssl_curr t = int (alive 0 ops) \<and> (ssl_active t \<longleftrightarrow> 0 < alive 0 ops)"
proof -
  let ?run = "run_guards (Ssl_UpdateInstanceCount lib_init evp_cleanup) ops
       \<lparr>ssl_curr = 0, cb_id = None, cb_locking = None, cb_dynlock_create = None,
        cb_dynlock_lock = None, cb_dynlock_destroy = None, ssl_sys = w\<rparr>"
  have run: "?run = (Inr (), snd ?run)"
    by (metis prod.collapse ssl_run_returns)
  from openssl.run_active [OF run assms] show ?thesis
    by (subst run) (simp add: ssl_active_def)
qed

theorem ssl_guard_active_witness:
  "\<exists>t. run_guards (Ssl_UpdateInstanceCount id id) [Construct, Construct, Destroy]
       \<lparr>ssl_curr = 0, cb_id = None, cb_locking = None, cb_dynlock_create = None,
        cb_dynlock_lock = None, cb_dynlock_destroy = None, ssl_sys = ()\<rparr> = (Inr (), t)
     \<and> ssl_active t"
  using ssl_guard_active [of "[Construct, Construct, Destroy]" id id "()"] by auto

text \<open>
  C31. A failed initialisation leaks a count: the guard whose constructor throws has already been
  counted and is never destroyed, so the next guard is constructed without initialising anything.
\<close>

theorem winsock_failed_startup_leaks:
  assumes "ws_curr s = 0" and "startup (ws_sys s) = (result, w)" and "result \<noteq> 0"
  shows "\<exists>t. WinSockGuard startup s = (Inl (SystemError (Win32Category, result)
            ''failed to intitialize socket subsystem''), t)
     \<and> ws_curr t = 1
     \<and> WinSockGuard startup t = (Inr (), t\<lparr>ws_curr := 2\<rparr>)
     \<and> \<not> winsock_active (t\<lparr>ws_curr := 2\<rparr>)"
  using assms
  by (simp add: WinSockGuard_def WinSock_UpdateInstanceCount_def SocketError_win_def
      winsock_active_def)

theorem winsock_failed_startup_leaks_witness:
  "\<exists>t. WinSockGuard (\<lambda>w. (10091, w)) \<lparr>ws_curr = 0, ws_calls = [], ws_sys = ()\<rparr> =
       (Inl (SystemError (Win32Category, 10091) ''failed to intitialize socket subsystem''), t)
     \<and> \<not> winsock_active (snd (WinSockGuard (\<lambda>w. (10091, w)) t))"
  using winsock_failed_startup_leaks
    [of "\<lparr>ws_curr = 0, ws_calls = [], ws_sys = ()\<rparr>" "\<lambda>w. (10091, w)" 10091 "()"] by auto

text \<open>
  The locking callback accepts exactly the indices of the mutex array; a negative one is
  refused like one past the end, because the conversion to \<^verbatim>\<open>size_t\<close> wraps it around.
\<close>

theorem Mutex_index:
  assumes "length mutices \<le> 2 ^ 31" and "- (2 ^ 31) \<le> n" and "n < 2 ^ 31"
  shows "Mutex mutices n = (if 0 \<le> n \<and> n < int (length mutices) then Inr (nat n)
       else Inl (LogicError ''invalid SSL locking index''))"
proof (cases "0 \<le> n")
  case True
  then have "unat (word_of_int n :: 64 word) = nat n"
    using assms(3) by (simp add: unat_eq_nat_uint uint_word_of_int)
  with True show ?thesis by (auto simp: Mutex_def Let_def)
next
  case False
  have "n mod 2 ^ 64 = (n + 2 ^ 64) mod 2 ^ 64" by simp
  also have "\<dots> = n + 2 ^ 64"
    using False assms(2) by (intro mod_pos_pos_trivial) auto
  finally have "unat (word_of_int n :: 64 word) = nat (n + 2 ^ 64)"
    by (simp add: unat_eq_nat_uint uint_word_of_int)
  with False assms(1,2) show ?thesis by (auto simp: Mutex_def Let_def)
qed

theorem Mutex_index_witness:
  "Mutex [False, False] (-1) = Inl (LogicError ''invalid SSL locking index'')
   \<and> Mutex [False, False] 1 = Inr 1"
  using Mutex_index [of "[False, False]" "-1"] Mutex_index [of "[False, False]" 1] by simp

end
