(* ===== verification/ToDo.thy ===== *)
theory ToDo
  imports Os "HOL-Library.Multiset"
begin

text \<open>
  \<^verbatim>\<open>src/todo_impl.h\<close> and \<^verbatim>\<open>src/todo_impl.cpp\<close>: the list of scheduled tasks, sorted by time.  A
  task object is shared between its owner and the list, and \<^verbatim>\<open>Move\<close> changes its time in place;
  so the objects live in a store (\<open>when_of\<close>) and the list holds their addresses.
\<close>

section \<open>State\<close>

type_synonym todo_id = nat

text \<open>
  \<open>pending\<close> is the deque of \<^verbatim>\<open>ToDos\<close>, \<open>when_of\<close> the member \<^verbatim>\<open>when\<close> of each task object and
  \<open>next_todo\<close> the address of the next object to be made.
\<close>

record todos =
  pending :: "todo_id list"
  when_of :: "todo_id \<Rightarrow> timepoint"
  next_todo :: todo_id

definition no_todos :: todos where
  "no_todos = \<lparr>pending = [], when_of = (\<lambda>_. 0), next_todo = 0\<rparr>"

section \<open>Operations of the list\<close>

definition WhenBefore :: "todos \<Rightarrow> timepoint \<Rightarrow> todo_id \<Rightarrow> bool" where
  "WhenBefore s when todo \<longleftrightarrow> when < when_of s todo"

definition IsSame :: "todo_id \<Rightarrow> todo_id \<Rightarrow> bool" where
  "IsSame ptr todo \<longleftrightarrow> todo = ptr"

text \<open>The iterator \<^verbatim>\<open>std::find_if\<close> returns, as an index; the length stands for \<^verbatim>\<open>end()\<close>.\<close>

definition ToDos_Find :: "(todo_id \<Rightarrow> bool) \<Rightarrow> todo_id list \<Rightarrow> nat" where
  "ToDos_Find pred xs = length (takeWhile (\<lambda>x. \<not> pred x) xs)"

definition ToDos_Insert :: "todo_id \<Rightarrow> todos \<Rightarrow> todos" where
  "ToDos_Insert todo s =
     (let at = ToDos_Find (WhenBefore s (when_of s todo)) (pending s)
      in s\<lparr>pending := take at (pending s) @ todo # drop at (pending s)\<rparr>)"

definition ToDos_Remove :: "todo_id \<Rightarrow> todos \<Rightarrow> todos" where
  "ToDos_Remove todo s =
     (let it = ToDos_Find (IsSame todo) (pending s)
      in if it \<noteq> length (pending s)
         then s\<lparr>pending := take it (pending s) @ drop (Suc it) (pending s)\<rparr>
         else s)"

definition ToDos_Move :: "todo_id \<Rightarrow> timepoint \<Rightarrow> todos \<Rightarrow> todos" where
  "ToDos_Move todo when s =
     (let s1 = ToDos_Remove todo s;
          s2 = s1\<lparr>when_of := (when_of s1)(todo := when)\<rparr>
      in ToDos_Insert todo s2)"

text \<open>\<^verbatim>\<open>pop_front\<close> of the deque, as the driver uses it on a list that is not empty.\<close>

definition ToDos_pop_front :: "todos \<Rightarrow> todos" where
  "ToDos_pop_front s = s\<lparr>pending := tl (pending s)\<rparr>"

section \<open>Operations of a task\<close>

text \<open>
  The constructors of \<^verbatim>\<open>ToDo\<close>: a task without a time (its \<^verbatim>\<open>when\<close> is the epoch) and a task that
  is put into the list of the driver at once.  \<^verbatim>\<open>Cancel\<close> and \<^verbatim>\<open>Shift\<close> reach the driver through a
  weak pointer; \<open>None\<close> is a driver that is gone.
\<close>

definition ToDoImpl_unscheduled :: "todos \<Rightarrow> todo_id \<times> todos" where
  "ToDoImpl_unscheduled s =
     (next_todo s, s\<lparr>next_todo := Suc (next_todo s), when_of := (when_of s)(next_todo s := 0)\<rparr>)"

definition ToDoImpl_at :: "timepoint \<Rightarrow> todos \<Rightarrow> todo_id \<times> todos" where
  "ToDoImpl_at when s =
     (next_todo s, s\<lparr>next_todo := Suc (next_todo s), when_of := (when_of s)(next_todo s := when)\<rparr>)"

definition ToDo_scheduled :: "timepoint \<Rightarrow> todos \<Rightarrow> todo_id \<times> todos" where
  "ToDo_scheduled when s = (let (t, s1) = ToDoImpl_at when s in (t, ToDos_Insert t s1))"

definition ToDoImpl_Cancel :: "todo_id \<Rightarrow> todos option \<Rightarrow> todos option" where
  "ToDoImpl_Cancel t driver = (case driver of Some s \<Rightarrow> Some (ToDos_Remove t s) | None \<Rightarrow> None)"

definition ToDoImpl_Shift :: "todo_id \<Rightarrow> timepoint \<Rightarrow> todos option \<Rightarrow> todos option" where
  "ToDoImpl_Shift t when driver =
     (case driver of Some s \<Rightarrow> Some (ToDos_Move t when s) | None \<Rightarrow> None)"

section \<open>Characterisation of the operations\<close>

lemma pending_Insert:
  "pending (ToDos_Insert t s) =
     takeWhile (\<lambda>u. when_of s u \<le> when_of s t) (pending s) @ t #
     dropWhile (\<lambda>u. when_of s u \<le> when_of s t) (pending s)"
  by (simp add: ToDos_Insert_def ToDos_Find_def WhenBefore_def Let_def not_less)

lemma when_of_Insert [simp]: "when_of (ToDos_Insert t s) = when_of s"
  and next_Insert [simp]: "next_todo (ToDos_Insert t s) = next_todo s"
  by (simp_all add: ToDos_Insert_def Let_def)

lemma pending_Remove: "pending (ToDos_Remove t s) = remove1 t (pending s)"
  by (auto simp: ToDos_Remove_def ToDos_Find_def IsSame_def Let_def erase_found_eq_remove1
      remove1_idem)

lemma when_of_Remove [simp]: "when_of (ToDos_Remove t s) = when_of s"
  and next_Remove [simp]: "next_todo (ToDos_Remove t s) = next_todo s"
  by (simp_all add: ToDos_Remove_def Let_def)

lemma when_of_Move [simp]: "when_of (ToDos_Move t w s) = (when_of s)(t := w)"
  and next_Move [simp]: "next_todo (ToDos_Move t w s) = next_todo s"
  by (simp_all add: ToDos_Move_def Let_def)

lemma mset_pending_Insert: "mset (pending (ToDos_Insert t s)) = add_mset t (mset (pending s))"
  using mset_append [of "takeWhile (\<lambda>u. when_of s u \<le> when_of s t) (pending s)"
      "dropWhile (\<lambda>u. when_of s u \<le> when_of s t) (pending s)"]
  by (simp add: pending_Insert)

lemma set_pending_Insert [simp]: "set (pending (ToDos_Insert t s)) = insert t (set (pending s))"
  by (metis mset_pending_Insert set_mset_add_mset_insert set_mset_mset)

lemma distinct_pending_Insert:
  "distinct (pending (ToDos_Insert t s)) \<longleftrightarrow> distinct (pending s) \<and> t \<notin> set (pending s)"
proof -
  have "distinct (pending (ToDos_Insert t s)) = distinct (t # pending s)"
    by (rule mset_eq_imp_distinct_iff) (simp add: mset_pending_Insert)
  then show ?thesis by auto
qed

section \<open>The invariant\<close>

text \<open>
  The list is sorted by the times of its tasks, holds no task twice and only tasks that exist.
\<close>

definition todos_inv :: "todos \<Rightarrow> bool" where
  "todos_inv s \<longleftrightarrow> sorted (map (when_of s) (pending s)) \<and> distinct (pending s)
     \<and> (\<forall>t \<in> set (pending s). t < next_todo s)"

lemma sorted_insert_between:
  assumes "sorted (map f xs)"
  shows "sorted (map f (takeWhile (\<lambda>u. f u \<le> f t) xs @ t # dropWhile (\<lambda>u. f u \<le> f t) xs))"
  using assms
proof (induction xs)
  case (Cons x xs)
  then show ?case
    by (cases "f x \<le> f t") (auto dest: set_takeWhileD set_dropWhileD)
qed simp

lemma Insert_inv:
  "todos_inv s \<Longrightarrow> t \<notin> set (pending s) \<Longrightarrow> t < next_todo s \<Longrightarrow> todos_inv (ToDos_Insert t s)"
  unfolding todos_inv_def
  by (simp add: distinct_pending_Insert)
    (simp add: pending_Insert sorted_insert_between del: map_append)

lemma Remove_inv: "todos_inv s \<Longrightarrow> todos_inv (ToDos_Remove t s)"
  unfolding todos_inv_def
  by (auto simp: pending_Remove sorted_map_remove1 dest: notin_set_remove1 set_remove1_subset [THEN subsetD])

lemma todos_inv_when_irrelevant:
  "todos_inv s \<Longrightarrow> t \<notin> set (pending s) \<Longrightarrow> todos_inv (s\<lparr>when_of := (when_of s)(t := w)\<rparr>)"
  unfolding todos_inv_def by (simp add: map_fun_upd)

lemma Remove_not_in: "todos_inv s \<Longrightarrow> t \<notin> set (pending (ToDos_Remove t s))"
  by (simp add: todos_inv_def pending_Remove)

lemma Move_inv:
  assumes "todos_inv s" and "t < next_todo s"
  shows "todos_inv (ToDos_Move t w s)"
proof -
  let ?s = "ToDos_Remove t s\<lparr>when_of := (when_of (ToDos_Remove t s))(t := w)\<rparr>"
  have "todos_inv ?s"
    using assms(1) by (intro todos_inv_when_irrelevant Remove_inv Remove_not_in)
  moreover have "t \<notin> set (pending ?s)"
    using Remove_not_in [OF assms(1)] by simp
  ultimately have "todos_inv (ToDos_Insert t ?s)"
    using assms(2) by (intro Insert_inv) simp_all
  then show ?thesis by (simp add: ToDos_Move_def Let_def)
qed

lemma set_pending_Move: "todos_inv s \<Longrightarrow> set (pending (ToDos_Move t w s)) = insert t (set (pending s))"
  by (auto simp: ToDos_Move_def Let_def pending_Remove todos_inv_def)

lemma no_todos_inv: "todos_inv no_todos"
  by (simp add: todos_inv_def no_todos_def)

lemma pop_front_inv: "todos_inv s \<Longrightarrow> todos_inv (ToDos_pop_front s)"
  by (cases "pending s") (auto simp: todos_inv_def ToDos_pop_front_def)

lemma todos_inv_sorted: "todos_inv s \<Longrightarrow> sorted (map (when_of s) (pending s))"
  and todos_inv_distinct: "todos_inv s \<Longrightarrow> distinct (pending s)"
  by (simp_all add: todos_inv_def)

section \<open>The interface the driver uses\<close>

text \<open>
  A queue of tasks ordered by due time: what inserting, removing, moving and popping do to the
  set of queued tasks and to their times, and that they keep the invariant.
\<close>

locale task_queue =
  fixes ins :: "'t \<Rightarrow> 's \<Rightarrow> 's"
    and rem :: "'t \<Rightarrow> 's \<Rightarrow> 's"
    and mov :: "'t \<Rightarrow> timepoint \<Rightarrow> 's \<Rightarrow> 's"
    and pop :: "'s \<Rightarrow> 's"
    and queue :: "'s \<Rightarrow> 't list"
    and due :: "'s \<Rightarrow> 't \<Rightarrow> timepoint"
    and exists_in :: "'s \<Rightarrow> 't \<Rightarrow> bool"
    and invar :: "'s \<Rightarrow> bool"
  assumes ordered: "invar s \<Longrightarrow> sorted (map (due s) (queue s))"
    and distinct_queue: "invar s \<Longrightarrow> distinct (queue s)"
    and queue_ins: "set (queue (ins t s)) = insert t (set (queue s))"
    and due_ins: "due (ins t s) = due s"
    and invar_ins: "invar s \<Longrightarrow> t \<notin> set (queue s) \<Longrightarrow> exists_in s t \<Longrightarrow> invar (ins t s)"
    and queue_rem: "invar s \<Longrightarrow> set (queue (rem t s)) = set (queue s) - {t}"
    and due_rem: "due (rem t s) = due s"
    and invar_rem: "invar s \<Longrightarrow> invar (rem t s)"
    and queue_mov: "invar s \<Longrightarrow> set (queue (mov t w s)) = insert t (set (queue s))"
    and due_mov: "due (mov t w s) = (due s)(t := w)"
    and invar_mov: "invar s \<Longrightarrow> exists_in s t \<Longrightarrow> invar (mov t w s)"
    and queue_pop: "queue (pop s) = tl (queue s)"
    and due_pop: "due (pop s) = due s"
    and invar_pop: "invar s \<Longrightarrow> invar (pop s)"
begin

lemma front_first: "invar s \<Longrightarrow> queue s = t # ts \<Longrightarrow> u \<in> set ts \<Longrightarrow> due s t \<le> due s u"
  using ordered [of s] by auto

lemma front_late_all_late:
  "invar s \<Longrightarrow> queue s = t # ts \<Longrightarrow> now < due s t \<Longrightarrow> u \<in> set (queue s) \<Longrightarrow> now < due s u"
  using front_first by fastforce

lemma popped_gone: "invar s \<Longrightarrow> queue s = t # ts \<Longrightarrow> t \<notin> set (queue (pop s))"
  using distinct_queue [of s] by (simp add: queue_pop)

lemma plan_rem: "invar s \<Longrightarrow>
    (\<lambda>u. if u \<in> set (queue (rem t s)) then Some (due (rem t s) u) else None) =
    (\<lambda>u. if u \<in> set (queue s) then Some (due s u) else None)(t := None)"
  by (auto simp: queue_rem due_rem)

lemma plan_mov: "invar s \<Longrightarrow>
    (\<lambda>u. if u \<in> set (queue (mov t w s)) then Some (due (mov t w s) u) else None) =
    (\<lambda>u. if u \<in> set (queue s) then Some (due s u) else None)(t \<mapsto> w)"
  by (auto simp: queue_mov due_mov)

end

interpretation todo: task_queue ToDos_Insert ToDos_Remove ToDos_Move ToDos_pop_front
  pending when_of "\<lambda>s t. t < next_todo s" todos_inv
proof unfold_locales
  fix s t assume "todos_inv s"
  then show "set (pending (ToDos_Remove t s)) = set (pending s) - {t}"
    by (simp add: pending_Remove todos_inv_def)
qed (simp_all add: todos_inv_sorted todos_inv_distinct Insert_inv Remove_inv Move_inv
    set_pending_Move pop_front_inv, simp_all add: ToDos_pop_front_def)

section \<open>Specification: a plan of tasks\<close>

text \<open>
  What the list promises to its users: a partial map from tasks to the times they are to run at.
\<close>

type_synonym plan = "todo_id \<rightharpoonup> timepoint"

definition todo_plan :: "todos \<Rightarrow> plan" where
  "todo_plan s = (\<lambda>t. if t \<in> set (pending s) then Some (when_of s t) else None)"

datatype todo_op = NewTask | NewTaskAt timepoint | CancelTask todo_id | ShiftTask todo_id timepoint

fun todo_step :: "todo_op \<Rightarrow> todos \<Rightarrow> todos" where
  "todo_step NewTask s = snd (ToDoImpl_unscheduled s)"
| "todo_step (NewTaskAt w) s = snd (ToDo_scheduled w s)"
| "todo_step (CancelTask t) s = ToDos_Remove t s"
| "todo_step (ShiftTask t w) s = ToDos_Move t w s"

text \<open>Only tasks that exist can be cancelled or shifted.\<close>

fun todo_op_ok :: "todo_id \<Rightarrow> todo_op \<Rightarrow> bool" where
  "todo_op_ok n (CancelTask t) = (t < n)"
| "todo_op_ok n (ShiftTask t w) = (t < n)"
| "todo_op_ok n _ = True"

fun plan_step :: "todo_op \<Rightarrow> todo_id \<times> plan \<Rightarrow> todo_id \<times> plan" where
  "plan_step NewTask (n, p) = (Suc n, p)"
| "plan_step (NewTaskAt w) (n, p) = (Suc n, p(n \<mapsto> w))"
| "plan_step (CancelTask t) (n, p) = (n, p(t := None))"
| "plan_step (ShiftTask t w) (n, p) = (n, p(t \<mapsto> w))"

fun todo_ops_ok :: "todo_id \<Rightarrow> todo_op list \<Rightarrow> bool" where
  "todo_ops_ok n [] = True"
| "todo_ops_ok n (op # ops) =
     (todo_op_ok n op \<and> todo_ops_ok (fst (plan_step op (n, Map.empty))) ops)"

lemma new_task_inv:
  "todos_inv s \<Longrightarrow> todos_inv (s\<lparr>next_todo := Suc (next_todo s),
     when_of := (when_of s)(next_todo s := w)\<rparr>)"
  unfolding todos_inv_def by (fastforce simp: map_fun_upd less_Suc_eq)

lemma todo_step_inv:
  assumes "todos_inv s" and "todo_op_ok (next_todo s) op"
  shows "todos_inv (todo_step op s)"
proof (cases op)
  case (NewTaskAt w)
  have "next_todo s \<notin> set (pending s)" using assms(1) by (auto simp: todos_inv_def)
  then show ?thesis
    using NewTaskAt Insert_inv [OF new_task_inv [OF assms(1)]]
    by (simp add: ToDo_scheduled_def ToDoImpl_at_def)
qed (use assms in \<open>simp_all add: ToDoImpl_unscheduled_def new_task_inv Remove_inv Move_inv\<close>)

lemma todo_step_next: "next_todo (todo_step op s) = fst (plan_step op (next_todo s, p))"
  by (cases op) (simp_all add: ToDoImpl_unscheduled_def ToDo_scheduled_def ToDoImpl_at_def)

lemma todo_step_refines:
  assumes "todos_inv s"
  shows "plan_step op (next_todo s, todo_plan s) = (next_todo (todo_step op s), todo_plan (todo_step op s))"
proof -
  have fresh: "next_todo s \<notin> set (pending s)" using assms by (auto simp: todos_inv_def)
  show ?thesis
    using todo.plan_rem [OF assms] todo.plan_mov [OF assms] fresh
    by (cases op) (auto simp: todo_plan_def ToDoImpl_unscheduled_def ToDo_scheduled_def ToDoImpl_at_def)
qed

lemma todo_run:
  "todos_inv s \<Longrightarrow> todo_ops_ok (next_todo s) ops \<Longrightarrow>
   todos_inv (fold todo_step ops s) \<and>
   fold plan_step ops (next_todo s, todo_plan s) =
     (next_todo (fold todo_step ops s), todo_plan (fold todo_step ops s))"
proof (induction ops arbitrary: s)
  case (Cons op ops)
  have "todos_inv (todo_step op s)" using Cons.prems by (intro todo_step_inv) auto
  moreover have "todo_ops_ok (next_todo (todo_step op s)) ops"
    using Cons.prems(2) todo_step_next [of op s Map.empty] by simp
  ultimately show ?case
    using Cons.IH todo_step_refines [OF Cons.prems(1), of op] by simp
qed simp

section \<open>Insertion is a stable sort\<close>

definition insert_all :: "todo_id list \<Rightarrow> todos \<Rightarrow> todos" where
  "insert_all ts s = fold ToDos_Insert ts s"

lemma when_of_insert_all [simp]: "when_of (insert_all ts s) = when_of s"
  unfolding insert_all_def by (induction ts arbitrary: s) simp_all

lemma mset_insert_all: "mset (pending (insert_all ts s)) = mset (pending s) + mset ts"
  unfolding insert_all_def by (induction ts arbitrary: s) (simp_all add: mset_pending_Insert)

lemma sorted_insert_all:
  "sorted (map (when_of s) (pending s)) \<Longrightarrow> sorted (map (when_of s) (pending (insert_all ts s)))"
  unfolding insert_all_def
proof (induction ts arbitrary: s)
  case (Cons t ts)
  have "sorted (map (when_of s) (pending (ToDos_Insert t s)))"
    using Cons.prems by (simp only: pending_Insert sorted_insert_between)
  with Cons.IH [of "ToDos_Insert t s"] show ?case by simp
qed simp

lemma filter_same_time_Insert:
  assumes "sorted (map (when_of s) (pending s))"
  shows "filter (\<lambda>u. w = when_of s u) (pending (ToDos_Insert t s)) =
     filter (\<lambda>u. w = when_of s u) (pending s) @ (if w = when_of s t then [t] else [])"
proof -
  have *: "filter (\<lambda>u. f t = f u) (dropWhile (\<lambda>u. f u \<le> f t) xs) = []"
    if "sorted (map f xs)" for f :: "todo_id \<Rightarrow> timepoint" and xs
    using that by (induction xs) (auto simp: filter_empty_conv)
  let ?P = "\<lambda>u. when_of s u \<le> when_of s t"
  have "filter (\<lambda>u. w = when_of s u) (pending s) =
      filter (\<lambda>u. w = when_of s u) (takeWhile ?P (pending s)) @
      filter (\<lambda>u. w = when_of s u) (dropWhile ?P (pending s))"
    by (metis filter_append takeWhile_dropWhile_id)
  then show ?thesis
    using * [OF assms] by (auto simp: pending_Insert)
qed

lemma filter_same_time_insert_all:
  "sorted (map (when_of s) (pending s)) \<Longrightarrow>
   filter (\<lambda>u. w = when_of s u) (pending (insert_all ts s)) =
     filter (\<lambda>u. w = when_of s u) (pending s) @ filter (\<lambda>u. w = when_of s u) ts"
  unfolding insert_all_def
proof (induction ts arbitrary: s)
  case (Cons t ts)
  have "sorted (map (when_of s) (pending (ToDos_Insert t s)))"
    using Cons.prems by (simp only: pending_Insert sorted_insert_between)
  with Cons.IH [of "ToDos_Insert t s"] filter_same_time_Insert [OF Cons.prems, of w t]
  show ?case by auto
qed simp

section \<open>Properties\<close>

text \<open>
  C1. Any sequence of creating, cancelling and shifting tasks leaves the list sorted by time and
  free of duplicates, and the list implements the plan: the last time each task was given, for
  the tasks that have not been cancelled since.
\<close>

theorem todos_refine_plan:
  assumes "todo_ops_ok 0 ops"
  shows "todos_inv (fold todo_step ops no_todos) \<and>
    todo_plan (fold todo_step ops no_todos) = snd (fold plan_step ops (0, Map.empty))"
proof -
  have plan: "todo_plan no_todos = Map.empty" and n: "next_todo no_todos = 0"
    by (simp_all add: todo_plan_def no_todos_def)
  from todo_run [OF no_todos_inv, of ops] assms show ?thesis
    by (simp add: plan n)
qed

theorem todos_refine_plan_witness:
  "pending (fold todo_step [NewTaskAt 30, NewTaskAt 10, NewTask, ShiftTask 2 20, CancelTask 0] no_todos)
     = [1, 2] \<and>
   todo_plan (fold todo_step [NewTaskAt 30, NewTaskAt 10, NewTask, ShiftTask 2 20, CancelTask 0] no_todos)
     = [1 \<mapsto> 10, 2 \<mapsto> 20]"
proof
  let ?ops = "[NewTaskAt 30, NewTaskAt 10, NewTask, ShiftTask 2 20, CancelTask 0]"
  show "pending (fold todo_step ?ops no_todos) = [1, 2]" by code_simp
  have "todo_ops_ok 0 ?ops" by simp
  from todos_refine_plan [OF this] show "todo_plan (fold todo_step ?ops no_todos) = [1 \<mapsto> 10, 2 \<mapsto> 20]"
    by (auto simp: numeral_eq_Suc)
qed

text \<open>
  C29. Tasks are queued in a stable order: inserting tasks one after the other sorts them by time,
  and tasks for the same time stay in the order they were inserted.
\<close>

theorem insert_all_sort_key:
  assumes "pending s = []"
  shows "pending (insert_all ts s) = sort_key (when_of s) ts"
proof (rule sym, rule properties_for_sort_key)
  show "mset (pending (insert_all ts s)) = mset ts"
    by (simp add: mset_insert_all assms)
  show "sorted (map (when_of s) (pending (insert_all ts s)))"
    by (rule sorted_insert_all) (simp add: assms)
  fix u
  show "filter (\<lambda>x. when_of s u = when_of s x) (pending (insert_all ts s)) =
      filter (\<lambda>x. when_of s u = when_of s x) ts"
    using filter_same_time_insert_all [of s "when_of s u" ts] assms by simp
qed

theorem insert_all_sort_key_witness:
  "pending (insert_all [0, 1, 2, 3] (no_todos\<lparr>when_of := (\<lambda>t. if t = 1 then 5 else 7)\<rparr>))
     = [1, 0, 2, 3]"
  using insert_all_sort_key [of "no_todos\<lparr>when_of := (\<lambda>t. if t = 1 then 5 else 7)\<rparr>" "[0, 1, 2, 3]"]
  by (simp add: no_todos_def)

text \<open>
  Shifting a task takes effect whether it was pending or not: afterwards it is queued exactly
  once, for the new time, behind all tasks due no later and ahead of all tasks due later, and the
  other tasks keep their order.
\<close>

theorem Move_position:
  assumes "todos_inv s"
  shows "\<exists>before after. pending (ToDos_Move t w s) = before @ t # after
     \<and> before @ after = remove1 t (pending s) \<and> t \<notin> set before \<and> t \<notin> set after
     \<and> (\<forall>u \<in> set before. when_of s u \<le> w) \<and> (\<forall>u \<in> set after. w < when_of s u)"
proof (intro exI conjI)
  let ?due = "(when_of s)(t := w)" and ?q = "remove1 t (pending s)"
  let ?before = "takeWhile (\<lambda>u. ?due u \<le> w) ?q" and ?after = "dropWhile (\<lambda>u. ?due u \<le> w) ?q"
  have t: "t \<notin> set ?q" using assms by (simp add: todos_inv_def)
  show "pending (ToDos_Move t w s) = ?before @ t # ?after"
    by (simp add: ToDos_Move_def Let_def pending_Insert pending_Remove)
  show "?before @ ?after = ?q" by simp
  show "t \<notin> set ?before" and "t \<notin> set ?after"
    using t by (auto dest: set_takeWhileD set_dropWhileD)
  show "\<forall>u \<in> set ?before. when_of s u \<le> w"
    using t by (auto dest!: set_takeWhileD split: if_splits)
  have "sorted (map ?due ?q)"
    using todos_inv_sorted [OF Remove_inv [OF assms, of t]] t by (simp add: pending_Remove map_fun_upd)
  then have "\<forall>u \<in> set ?after. w < ?due u"
    using sorted_dropWhile_gt [of ?due ?q] by blast
  then show "\<forall>u \<in> set ?after. w < when_of s u"
    using \<open>t \<notin> set ?after\<close> by (metis fun_upd_other)
qed

theorem Move_position_witness:
  "\<exists>before after. pending (ToDos_Move 0 15 (fold todo_step [NewTaskAt 5, NewTaskAt 15, NewTaskAt 20] no_todos))
      = before @ 0 # after \<and> before @ after = [1, 2]"
proof -
  have "todos_inv (fold todo_step [NewTaskAt 5, NewTaskAt 15, NewTaskAt 20] no_todos)"
    using todo_run [OF no_todos_inv, of "[NewTaskAt 5, NewTaskAt 15, NewTaskAt 20]"] by simp
  from Move_position [OF this, of 0 15]
  have "\<exists>before after. pending (ToDos_Move 0 15 (fold todo_step [NewTaskAt 5, NewTaskAt 15, NewTaskAt 20] no_todos))
      = before @ 0 # after \<and> before @ after =
      remove1 0 (pending (fold todo_step [NewTaskAt 5, NewTaskAt 15, NewTaskAt 20] no_todos))"
    by blast
  moreover have "remove1 0 (pending (fold todo_step [NewTaskAt 5, NewTaskAt 15, NewTaskAt 20] no_todos)) = [1, 2]"
    by code_simp
  ultimately show ?thesis by simp
qed

end
