(* ===== verification/BufferPool.thy ===== *)
theory BufferPool
  imports Os
begin

text \<open>
  The buffer pool of \<^verbatim>\<open>include/sockpuppet/socket_buffered.h\<close> and \<^verbatim>\<open>src/socket_buffered.cpp\<close>:
  buffers are lent to users through pointers whose deleter returns them.  Buffers are identified
  by their address; the strings they hold live in a store, because borrower and pool share them.
  \<^verbatim>\<open>size_t\<close> is 64 bits wide.
\<close>

section \<open>Buffers\<close>

type_synonym ptr = nat

record buffer =
  content :: string
  capacity :: nat

definition new_buffer :: buffer where
  "new_buffer = \<lparr>content = [], capacity = 0\<rparr>"

text \<open>\<^verbatim>\<open>std::string\<close>: reserving, clearing and resizing, which pads with zero characters.\<close>

definition buf_reserve :: "nat \<Rightarrow> buffer \<Rightarrow> buffer" where
  "buf_reserve n b = b\<lparr>capacity := max (capacity b) n\<rparr>"

definition buf_clear :: "buffer \<Rightarrow> buffer" where
  "buf_clear b = b\<lparr>content := []\<rparr>"

definition str_resize :: "nat \<Rightarrow> string \<Rightarrow> string" where
  "str_resize n s = take n s @ replicate (n - length s) (CHR 0x00)"

definition buf_resize :: "nat \<Rightarrow> buffer \<Rightarrow> buffer" where
  "buf_resize n b = \<lparr>content = str_resize n (content b), capacity = max (capacity b) n\<rparr>"

lemma length_str_resize [simp]: "length (str_resize n s) = n"
  by (simp add: str_resize_def)

lemma str_resize_le: "n \<le> length s \<Longrightarrow> str_resize n s = take n s"
  by (simp add: str_resize_def)

section \<open>The pool\<close>

text \<open>\<open>m_idle\<close> is the stack with its top first, \<open>m_busy\<close> the deque in its order.\<close>

record pool =
  m_maxCount :: "64 word"
  m_idle :: "ptr list"
  m_busy :: "ptr list"
  buf_at :: "ptr \<Rightarrow> buffer"
  next_buf :: ptr

definition pool_write :: "ptr \<Rightarrow> (buffer \<Rightarrow> buffer) \<Rightarrow> pool \<Rightarrow> pool" where
  "pool_write b f s = s\<lparr>buf_at := (buf_at s)(b := f (buf_at s b))\<rparr>"

text \<open>One round of the loop in the constructor: a new buffer on top of the idle stack.\<close>

definition pool_emplace_idle :: "nat \<Rightarrow> pool \<Rightarrow> pool" where
  "pool_emplace_idle reserveSize s =
     s\<lparr>m_idle := next_buf s # m_idle s,
       buf_at := (buf_at s)(next_buf s := buf_reserve reserveSize new_buffer),
       next_buf := Suc (next_buf s)\<rparr>"

definition BufferPool :: "64 word \<Rightarrow> nat \<Rightarrow> pool" where
  "BufferPool maxCount reserveSize =
     (pool_emplace_idle reserveSize ^^ unat maxCount)
       \<lparr>m_maxCount = maxCount - 1, m_idle = [], m_busy = [], buf_at = (\<lambda>_. new_buffer), next_buf = 0\<rparr>"

definition BufferPool_Get :: "(pool, ptr) exec" where
  "BufferPool_Get s =
     (if m_idle s = [] then
        (if of_nat (length (m_busy s)) \<le> m_maxCount s then
           (let buf = next_buf s
            in (Inr buf, s\<lparr>m_busy := m_busy s @ [buf],
                           buf_at := (buf_at s)(buf := new_buffer),
                           next_buf := Suc buf\<rparr>))
         else (Inl (RuntimeError ''out of buffers''), s))
      else
        (let buf = hd (m_idle s)
         in (Inr buf, pool_write buf buf_clear
               (s\<lparr>m_busy := m_busy s @ [buf], m_idle := tl (m_idle s)\<rparr>))))"

definition BufferEqual :: "ptr \<Rightarrow> ptr \<Rightarrow> bool" where
  "BufferEqual buf storage \<longleftrightarrow> storage = buf"

definition BufferPool_Recycle :: "ptr \<Rightarrow> (pool, unit) exec" where
  "BufferPool_Recycle buf s =
     (let it = length (takeWhile (\<lambda>b. \<not> BufferEqual buf b) (m_busy s))
      in if it = length (m_busy s) then (Inl (LogicError ''returned invalid buffer''), s)
         else (Inr (), s\<lparr>m_idle := (m_busy s ! it) # m_idle s,
                         m_busy := take it (m_busy s) @ drop (Suc it) (m_busy s)\<rparr>))"

text \<open>The deleter of a \<^verbatim>\<open>BufferPtr\<close>; it asserts that there is a buffer to return.\<close>

definition Recycler :: "ptr option \<Rightarrow> (pool, unit) exec" where
  "Recycler buf = (case buf of None \<Rightarrow> throw AssertFailed | Some b \<Rightarrow> BufferPool_Recycle b)"

definition BufferPool_destroy :: "(pool, unit) exec" where
  "BufferPool_destroy s = (if m_busy s = [] then (Inr (), s) else (Inl AssertFailed, s))"

section \<open>Invariant\<close>

text \<open>No buffer is in two places, and new buffers get new addresses.\<close>

definition pool_inv :: "pool \<Rightarrow> bool" where
  "pool_inv s \<longleftrightarrow> distinct (m_idle s @ m_busy s) \<and> (\<forall>b \<in> set (m_idle s) \<union> set (m_busy s). b < next_buf s)"

text \<open>A limited pool of \<open>n\<close> buffers never makes or loses one.\<close>

definition pool_limited :: "nat \<Rightarrow> pool \<Rightarrow> bool" where
  "pool_limited n s \<longleftrightarrow> 0 < n \<and> n < 2 ^ 64 \<and> m_maxCount s = of_nat n - 1
     \<and> length (m_idle s) + length (m_busy s) = n"

lemma pool_write_simps [simp]:
  "m_maxCount (pool_write b f s) = m_maxCount s"
  "m_idle (pool_write b f s) = m_idle s"
  "m_busy (pool_write b f s) = m_busy s"
  "next_buf (pool_write b f s) = next_buf s"
  "buf_at (pool_write b f s) = (buf_at s)(b := f (buf_at s b))"
  by (simp_all add: pool_write_def)

lemma pool_write_inv [simp]: "pool_inv (pool_write b f s) = pool_inv s"
  by (simp add: pool_inv_def)

lemma pool_write_limited [simp]: "pool_limited n (pool_write b f s) = pool_limited n s"
  by (simp add: pool_limited_def)

lemma Get_cases:
  assumes "BufferPool_Get s = (r, t)"
  obtains (fresh) b where "r = Inr b" "m_idle s = []" "b = next_buf s" "m_busy t = m_busy s @ [b]"
      "m_idle t = []" "buf_at t = (buf_at s)(b := new_buffer)" "next_buf t = Suc (next_buf s)"
      "m_maxCount t = m_maxCount s" "of_nat (length (m_busy s)) \<le> m_maxCount s"
  | (idle) b bs where "r = Inr b" "m_idle s = b # bs" "m_busy t = m_busy s @ [b]" "m_idle t = bs"
      "buf_at t = (buf_at s)(b := buf_clear (buf_at s b))" "next_buf t = next_buf s"
      "m_maxCount t = m_maxCount s"
  | (empty) "r = Inl (RuntimeError ''out of buffers'')" "t = s" "m_idle s = []"
      "\<not> of_nat (length (m_busy s)) \<le> m_maxCount s"
  using assms by (cases "m_idle s") (auto simp: BufferPool_Get_def Let_def split: if_splits)

lemma Get_inv: "BufferPool_Get s = (r, t) \<Longrightarrow> pool_inv s \<Longrightarrow> pool_inv t"
  by (erule Get_cases) (auto simp: pool_inv_def)

lemma Recycle_busy:
  "b \<in> set (m_busy s) \<Longrightarrow> BufferPool_Recycle b s =
     (Inr (), s\<lparr>m_idle := b # m_idle s, m_busy := remove1 b (m_busy s)\<rparr>)"
  using nth_length_takeWhile [of "\<lambda>x. x \<noteq> b" "m_busy s"]
    length_takeWhile_le [of "\<lambda>x. x \<noteq> b" "m_busy s"]
  by (auto simp: BufferPool_Recycle_def BufferEqual_def Let_def erase_found_eq_remove1 le_neq_implies_less)

lemma Recycle_unknown:
  "b \<notin> set (m_busy s) \<Longrightarrow> BufferPool_Recycle b s = (Inl (LogicError ''returned invalid buffer''), s)"
  by (auto simp: BufferPool_Recycle_def BufferEqual_def Let_def)

lemma Recycle_inv: "BufferPool_Recycle b s = (r, t) \<Longrightarrow> pool_inv s \<Longrightarrow> pool_inv t"
  by (cases "b \<in> set (m_busy s)")
    (auto simp: Recycle_busy Recycle_unknown pool_inv_def dest: notin_set_remove1 set_remove1_subset [THEN subsetD])

lemma Get_limited:
  assumes "BufferPool_Get s = (r, t)" and "pool_limited n s"
  shows "pool_limited n t"
  using assms(1)
proof (cases rule: Get_cases)
  case fresh
  then have "length (m_busy s) = n" using assms(2) by (simp add: pool_limited_def)
  moreover have "m_maxCount s = of_nat (n - 1)" using assms(2) by (simp add: pool_limited_def of_nat_diff)
  ultimately have "(of_nat n :: 64 word) \<le> of_nat (n - 1)" using fresh by simp
  moreover have "take_bit 64 n = n" and "take_bit 64 (n - Suc 0) = n - Suc 0"
    using assms(2) by (auto simp: pool_limited_def intro!: take_bit_nat_eq_self)
  ultimately have "n \<le> n - Suc 0" by (simp add: word_le_nat_alt unsigned_of_nat)
  moreover have "0 < n" using assms(2) by (simp add: pool_limited_def)
  ultimately have False by linarith
  then show ?thesis ..
qed (use assms(2) in \<open>auto simp: pool_limited_def\<close>)

lemma Recycle_limited: "BufferPool_Recycle b s = (r, t) \<Longrightarrow> pool_limited n s \<Longrightarrow> pool_limited n t"
  using length_remove1_in [of b "m_busy s"]
  by (cases "b \<in> set (m_busy s)") (auto simp: Recycle_busy Recycle_unknown pool_limited_def)

lemma BufferPool_fill_inv:
  assumes "pool_inv s" and "m_busy s = []"
  shows "pool_inv ((pool_emplace_idle r ^^ k) s) \<and> m_busy ((pool_emplace_idle r ^^ k) s) = []
     \<and> length (m_idle ((pool_emplace_idle r ^^ k) s)) = length (m_idle s) + k
     \<and> m_maxCount ((pool_emplace_idle r ^^ k) s) = m_maxCount s"
  by (induction k) (use assms in \<open>auto simp: pool_emplace_idle_def pool_inv_def less_Suc_eq\<close>)

lemma BufferPool_new:
  "pool_inv (BufferPool maxCount r)" "m_busy (BufferPool maxCount r) = []"
  "length (m_idle (BufferPool maxCount r)) = unat maxCount"
  "m_maxCount (BufferPool maxCount r) = maxCount - 1"
  using BufferPool_fill_inv [of "\<lparr>m_maxCount = maxCount - 1, m_idle = [], m_busy = [],
      buf_at = (\<lambda>_. new_buffer), next_buf = 0\<rparr>" "unat maxCount" r]
  by (simp_all add: BufferPool_def pool_inv_def)

lemma BufferPool_new_limited: "maxCount \<noteq> 0 \<Longrightarrow> pool_limited (unat maxCount) (BufferPool maxCount r)"
  using unsigned_less [of maxCount, where 'a = nat]
  by (simp add: pool_limited_def BufferPool_new unat_gt_0)

lemma BufferPool_idle_capacity:
  "\<forall>b \<in> set (m_idle (BufferPool maxCount r)). r \<le> capacity (buf_at (BufferPool maxCount r) b)"
proof -
  have "(\<forall>b \<in> set (m_idle ((pool_emplace_idle r ^^ k) s)). r \<le> capacity (buf_at ((pool_emplace_idle r ^^ k) s) b))"
    if "m_idle s = []" for k s
    by (induction k) (auto simp: that pool_emplace_idle_def buf_reserve_def)
  then show ?thesis by (simp add: BufferPool_def)
qed

section \<open>The interface of a lender\<close>

text \<open>
  What the users of a pool rely on: a buffer obtained was not lent before and is lent now, a
  failing attempt changes nothing, and a lent buffer can be given back, which changes the set of
  lent buffers by just that one.
\<close>

locale lender =
  fixes acquire :: "('s, 'b) exec"
    and release :: "'b \<Rightarrow> ('s, unit) exec"
    and lent :: "'s \<Rightarrow> 'b set"
    and invar :: "'s \<Rightarrow> bool"
  assumes acquire_ok: "invar s \<Longrightarrow> acquire s = (Inr b, t) \<Longrightarrow>
      b \<notin> lent s \<and> lent t = insert b (lent s) \<and> invar t"
    and acquire_fails: "invar s \<Longrightarrow> acquire s = (Inl e, t) \<Longrightarrow> t = s"
    and release_ok: "invar s \<Longrightarrow> b \<in> lent s \<Longrightarrow>
      \<exists>t. release b s = (Inr (), t) \<and> lent t = lent s - {b} \<and> invar t"
begin

lemma borrow_and_return:
  assumes "invar s" and "acquire s = (Inr b, t)"
  shows "\<exists>u. release b t = (Inr (), u) \<and> lent u = lent s \<and> invar u"
  using acquire_ok [OF assms] release_ok [of t b] by auto

text \<open>A borrower that returns its buffer on failure leaves the lent buffers as they were.\<close>

lemma return_on_throw:
  assumes "invar s" and "acquire s = (Inr b, t)"
  shows "lent (snd (release b t)) = lent s \<and> invar (snd (release b t))"
  using borrow_and_return [OF assms] by fastforce

end

interpretation pool: lender BufferPool_Get BufferPool_Recycle "\<lambda>s. set (m_busy s)" pool_inv
proof unfold_locales
  fix s b t
  assume inv: "pool_inv s" and g: "BufferPool_Get s = (Inr b, t)"
  from g show "b \<notin> set (m_busy s) \<and> set (m_busy t) = insert b (set (m_busy s)) \<and> pool_inv t"
    by (cases rule: Get_cases) (use inv Get_inv [OF g inv] in \<open>auto simp: pool_inv_def\<close>)
next
  fix s e t
  assume "BufferPool_Get s = (Inl e, t)"
  then show "t = s" by (cases rule: Get_cases) auto
next
  fix s b
  assume inv: "pool_inv s" and b: "b \<in> set (m_busy s)"
  then show "\<exists>t. BufferPool_Recycle b s = (Inr (), t) \<and> set (m_busy t) = set (m_busy s) - {b} \<and> pool_inv t"
    using Recycle_inv [OF Recycle_busy [OF b] inv]
    by (auto simp: Recycle_busy pool_inv_def)
qed

section \<open>Reachable pools\<close>

text \<open>
  A pool made by the constructor and used through its pointers: buffers are obtained, written by
  their borrowers in any way, and returned once.
\<close>

inductive pool_reach :: "64 word \<Rightarrow> nat \<Rightarrow> pool \<Rightarrow> bool" for maxCount reserveSize where
  new_pool: "pool_reach maxCount reserveSize (BufferPool maxCount reserveSize)"
| obtain_buffer: "pool_reach maxCount reserveSize s \<Longrightarrow> BufferPool_Get s = (r, t) \<Longrightarrow>
     pool_reach maxCount reserveSize t"
| borrower_write: "pool_reach maxCount reserveSize s \<Longrightarrow> b \<in> set (m_busy s) \<Longrightarrow>
     pool_reach maxCount reserveSize (pool_write b f s)"
| return_buffer: "pool_reach maxCount reserveSize s \<Longrightarrow> b \<in> set (m_busy s) \<Longrightarrow>
     Recycler (Some b) s = (r, t) \<Longrightarrow> pool_reach maxCount reserveSize t"

lemma pool_reach_inv: "pool_reach n r s \<Longrightarrow> pool_inv s"
proof (induction rule: pool_reach.induct)
  case (return_buffer s b q t)
  then show ?case using Recycle_inv by (simp add: Recycler_def)
qed (auto simp: BufferPool_new intro: Get_inv)

lemma pool_reach_limited: "pool_reach n r s \<Longrightarrow> n \<noteq> 0 \<Longrightarrow> pool_limited (unat n) s"
proof (induction rule: pool_reach.induct)
  case (return_buffer s b q t)
  then show ?case using Recycle_limited by (simp add: Recycler_def)
qed (auto simp: BufferPool_new_limited intro: Get_limited)

lemma pool_reach_maxCount: "pool_reach n r s \<Longrightarrow> m_maxCount s = n - 1"
proof (induction rule: pool_reach.induct)
  case (obtain_buffer s q t)
  from obtain_buffer.hyps(2) obtain_buffer.IH show ?case by (cases rule: Get_cases) simp_all
next
  case (return_buffer s b q t)
  then show ?case by (auto simp: Recycler_def Recycle_busy)
qed (simp_all add: BufferPool_new)

section \<open>Properties\<close>

text \<open>
  C28. A pool limited to \<open>n\<close> buffers lends them like \<open>n\<close> permits: in every reachable state the
  idle and the lent buffers are distinct and \<open>n\<close> in number, and obtaining one fails, with the
  documented error and no change, exactly when all \<open>n\<close> are lent.
\<close>

theorem pool_limited_permits:
  assumes "pool_reach n r s" and "n \<noteq> 0"
  shows "distinct (m_idle s @ m_busy s) \<and> length (m_idle s) + length (m_busy s) = unat n \<and>
    (if length (m_busy s) = unat n
     then BufferPool_Get s = (Inl (RuntimeError ''out of buffers''), s)
     else \<exists>b t. BufferPool_Get s = (Inr b, t) \<and> b \<in> set (m_idle s) \<and> m_busy t = m_busy s @ [b]
        \<and> content (buf_at t b) = [])"
proof -
  have lim: "pool_limited (unat n) s" by (rule pool_reach_limited [OF assms])
  obtain q t where g: "BufferPool_Get s = (q, t)" by fastforce
  have lt: "pool_limited (unat n) t" by (rule Get_limited [OF g lim])
  from g have "if length (m_busy s) = unat n
     then BufferPool_Get s = (Inl (RuntimeError ''out of buffers''), s)
     else \<exists>b t. BufferPool_Get s = (Inr b, t) \<and> b \<in> set (m_idle s) \<and> m_busy t = m_busy s @ [b]
        \<and> content (buf_at t b) = []"
  proof (cases rule: Get_cases)
    case fresh
    then show ?thesis using lim lt by (simp add: pool_limited_def)
  next
    case idle
    then show ?thesis using lim g by (auto simp: pool_limited_def buf_clear_def)
  next
    case empty
    then show ?thesis using lim g by (simp add: pool_limited_def)
  qed
  then show ?thesis
    using lim pool_reach_inv [OF assms(1)] by (simp add: pool_limited_def pool_inv_def)
qed

lemma pool_reach_Get: "pool_reach n r s \<Longrightarrow> pool_reach n r (snd (BufferPool_Get s))"
  by (rule pool_reach.obtain_buffer [OF _ prod.collapse [symmetric]])

lemma BufferPool_2: "BufferPool 2 r = \<lparr>m_maxCount = 1, m_idle = [1, 0], m_busy = [],
    buf_at = (\<lambda>_. new_buffer)(0 := buf_reserve r new_buffer, 1 := buf_reserve r new_buffer), next_buf = 2\<rparr>"
proof -
  have "unat (2 :: 64 word) = Suc (Suc 0)" by simp
  then show ?thesis by (simp add: BufferPool_def pool_emplace_idle_def fun_upd_twist numeral_2_eq_2)
qed

theorem pool_limited_permits_witness:
  "BufferPool_Get (snd (BufferPool_Get (snd (BufferPool_Get (BufferPool 2 64))))) =
     (Inl (RuntimeError ''out of buffers''), snd (BufferPool_Get (snd (BufferPool_Get (BufferPool 2 64)))))"
proof -
  let ?s = "snd (BufferPool_Get (snd (BufferPool_Get (BufferPool 2 64))))"
  have "pool_reach 2 64 ?s" by (intro pool_reach_Get pool_reach.new_pool)
  moreover have "length (m_busy ?s) = unat (2 :: 64 word)"
    by (simp add: BufferPool_2 BufferPool_Get_def Let_def)
  ultimately show ?thesis using pool_limited_permits [of 2 64 ?s] by simp
qed

text \<open>
  A count of zero means unlimited: the bound wraps around to the largest \<^verbatim>\<open>size_t\<close>, so
  obtaining a buffer always succeeds, and an idle buffer is reused before a new one is made.
\<close>

theorem pool_unlimited_never_fails:
  assumes "pool_reach 0 r s"
  shows "\<exists>b t. BufferPool_Get s = (Inr b, t) \<and> b \<notin> set (m_busy s) \<and> content (buf_at t b) = []
    \<and> next_buf t = (if m_idle s = [] then Suc (next_buf s) else next_buf s)"
proof -
  obtain q t where g: "BufferPool_Get s = (q, t)" by fastforce
  have inv: "pool_inv s" by (rule pool_reach_inv [OF assms])
  have "m_maxCount s = - 1" using pool_reach_maxCount [OF assms] by simp
  then have le: "of_nat (length (m_busy s)) \<le> m_maxCount s"
    by (metis word_n1_ge)
  from g show ?thesis
  proof (cases rule: Get_cases)
    case fresh
    with inv g show ?thesis by (auto simp: pool_inv_def new_buffer_def)
  next
    case idle
    with inv g show ?thesis by (auto simp: pool_inv_def buf_clear_def)
  qed (use le in simp)
qed

theorem pool_unlimited_never_fails_witness:
  "\<exists>b t. BufferPool_Get (snd (BufferPool_Get (BufferPool 0 8))) = (Inr b, t)
     \<and> b \<notin> set (m_busy (snd (BufferPool_Get (BufferPool 0 8))))"
proof -
  have "pool_reach 0 8 (snd (BufferPool_Get (BufferPool 0 8)))"
    by (intro pool_reach_Get pool_reach.new_pool)
  from pool_unlimited_never_fails [OF this] show ?thesis by blast
qed

text \<open>
  Returning the buffer just obtained restores the pool: the same buffers are idle and lent as
  before, and a second return of the same pointer is refused.
\<close>

theorem pool_get_recycle:
  assumes "pool_reach n r s" and "BufferPool_Get s = (Inr b, t)"
  shows "\<exists>u. Recycler (Some b) t = (Inr (), u) \<and> m_busy u = m_busy s
    \<and> m_idle u = (if m_idle s = [] then [b] else m_idle s)
    \<and> Recycler (Some b) u = (Inl (LogicError ''returned invalid buffer''), u)"
proof -
  have inv: "pool_inv s" by (rule pool_reach_inv [OF assms(1)])
  from assms(2) have b: "b \<notin> set (m_busy s)" and busy: "m_busy t = m_busy s @ [b]"
    and idle: "b # m_idle t = (if m_idle s = [] then [b] else m_idle s)"
    by (cases rule: Get_cases; use inv in \<open>auto simp: pool_inv_def\<close>)+
  have "remove1 b (m_busy t) = m_busy s" using b busy by (simp add: remove1_append)
  then show ?thesis
    using b busy idle by (auto simp: Recycler_def Recycle_busy Recycle_unknown)
qed

theorem pool_get_recycle_witness:
  "\<exists>u. Recycler (Some 1) (snd (BufferPool_Get (BufferPool 2 64))) = (Inr (), u) \<and> m_busy u = []
    \<and> m_idle u = [1, 0]"
proof -
  have get: "BufferPool_Get (BufferPool 2 64) = (Inr 1, snd (BufferPool_Get (BufferPool 2 64)))"
    and idle: "m_idle (BufferPool 2 64) = [1, 0]"
    by (simp_all add: BufferPool_2 BufferPool_Get_def Let_def)
  from pool_get_recycle [OF pool_reach.new_pool get] show ?thesis
    by (auto simp: idle BufferPool_new)
qed

end
