(* ===== verification/Regex.thy ===== *)
theory Regex
  imports Prelude
begin

text \<open>
  \<^verbatim>\<open>std::regex_match\<close> for the constructs of the ECMAScript grammar that the address parser uses:
  character classes, sequences, the greedy quantifiers, capturing groups and the two anchors.  A
  backtracking matcher tries alternatives in a fixed order; the model computes the list of all its
  outcomes in that order, and a match is the first outcome that consumes the whole input.
\<close>

section \<open>Expressions and matching\<close>

datatype regex =
    Cls "char \<Rightarrow> bool"
  | Sq regex regex
  | Star regex
  | Opt regex
  | Grp nat regex
  | Bol
  | Eol

text \<open>The position, the remaining input and the groups captured so far.\<close>

type_synonym mstate = "nat \<times> string \<times> (nat \<rightharpoonup> string)"

definition Plus :: "regex \<Rightarrow> regex" where
  "Plus r = Sq r (Star r)"

fun lit :: "string \<Rightarrow> regex" where
  "lit [] = Opt (Cls (\<lambda>_. False))"
| "lit [c] = Cls (\<lambda>x. x = c)"
| "lit (c # cs) = Sq (Cls (\<lambda>x. x = c)) (lit cs)"

text \<open>
  Greedy repetition: first as many rounds as possible, each of which must consume something; the
  number of rounds is bounded by the input that is left.
\<close>

fun repeat :: "nat \<Rightarrow> (mstate \<Rightarrow> mstate list) \<Rightarrow> mstate \<Rightarrow> mstate list" where
  "repeat 0 f s = [s]"
| "repeat (Suc n) f s =
     concat (map (repeat n f) (filter (\<lambda>t. length (fst (snd t)) < length (fst (snd s))) (f s))) @ [s]"

fun outcomes :: "regex \<Rightarrow> mstate \<Rightarrow> mstate list" where
  "outcomes (Cls p) (i, cs, k) =
     (case cs of [] \<Rightarrow> [] | c # cs' \<Rightarrow> if p c then [(Suc i, cs', k)] else [])"
| "outcomes (Sq a b) s = concat (map (outcomes b) (outcomes a s))"
| "outcomes (Star a) s = repeat (length (fst (snd s))) (outcomes a) s"
| "outcomes (Opt a) s = outcomes a s @ [s]"
| "outcomes (Grp n a) s =
     map (\<lambda>(j, cs, k). (j, cs, k(n \<mapsto> take (j - fst s) (fst (snd s))))) (outcomes a s)"
| "outcomes Bol s = (if fst s = 0 then [s] else [])"
| "outcomes Eol s = (if fst (snd s) = [] then [s] else [])"

definition whole :: "mstate \<Rightarrow> bool" where
  "whole s \<longleftrightarrow> fst (snd s) = []"

definition regex_match :: "regex \<Rightarrow> string \<Rightarrow> (nat \<rightharpoonup> string) option" where
  "regex_match r s = map_option (\<lambda>t. snd (snd t)) (find whole (outcomes r (0, s, Map.empty)))"

section \<open>Classes of characters\<close>

definition is_digit :: "char \<Rightarrow> bool" where
  "is_digit c \<longleftrightarrow> c \<in> set ''0123456789''"

definition is_word :: "char \<Rightarrow> bool" where
  "is_word c \<longleftrightarrow> is_digit c \<or> c \<in> set ''ABCDEFGHIJKLMNOPQRSTUVWXYZabcdefghijklmnopqrstuvwxyz_''"

text \<open>\<^verbatim>\<open>.\<close> matches everything but a line terminator.\<close>

definition is_dot :: "char \<Rightarrow> bool" where
  "is_dot c \<longleftrightarrow> c \<noteq> CHR 0x0A \<and> c \<noteq> CHR 0x0D"

section \<open>Lemmas\<close>

lemma find_append: "find P (xs @ ys) = (case find P xs of None \<Rightarrow> find P ys | Some x \<Rightarrow> Some x)"
  by (induction xs) auto

lemma find_None_set: "find P xs = None \<longleftrightarrow> (\<forall>x \<in> set xs. \<not> P x)"
  by (induction xs) auto

lemma find_concat_map_None: "(\<And>x. x \<in> set xs \<Longrightarrow> find P (f x) = None) \<Longrightarrow> find P (concat (map f xs)) = None"
  by (auto simp: find_None_set)

text \<open>
  Repeating a character class consumes any prefix of the longest run of such characters, longest
  first.
\<close>

lemma repeat_Cls:
  "length cs \<le> n \<Longrightarrow> repeat n (outcomes (Cls p)) (i, cs, k) =
     map (\<lambda>j. (i + j, drop j cs, k)) (rev [0..<Suc (length (takeWhile p cs))])"
proof (induction n arbitrary: i cs)
  case (Suc n)
  show ?case
  proof (cases cs)
    case (Cons c cs')
    show ?thesis
    proof (cases "p c")
      case True
      let ?m = "length (takeWhile p cs')"
      have "repeat (Suc n) (outcomes (Cls p)) (i, cs, k) =
          repeat n (outcomes (Cls p)) (Suc i, cs', k) @ [(i, cs, k)]"
        using Cons True by simp
      also have "repeat n (outcomes (Cls p)) (Suc i, cs', k) =
          map (\<lambda>j. (Suc i + j, drop j cs', k)) (rev [0..<Suc ?m])"
        using Suc.prems Cons by (intro Suc.IH) simp
      also have "\<dots> @ [(i, cs, k)] =
          map (\<lambda>j. (i + j, drop j cs, k)) (rev (map Suc [0..<Suc ?m])) @ [(i, cs, k)]"
        using Cons by (simp add: rev_map)
      also have "\<dots> = map (\<lambda>j. (i + j, drop j cs, k)) (rev (0 # map Suc [0..<Suc ?m]))"
        by simp
      also have "0 # map Suc [0..<Suc ?m] = [0..<Suc (length (takeWhile p cs))]"
        using Cons True by (simp only: map_Suc_upt takeWhile.simps if_True length_Cons)
          (simp add: upt_conv_Cons del: upt_Suc)
      finally show ?thesis .
    qed (use Cons in simp)
  qed simp
qed simp

lemma outcomes_Star_Cls:
  "outcomes (Star (Cls p)) (i, cs, k) =
     map (\<lambda>j. (i + j, drop j cs, k)) (rev [0..<Suc (length (takeWhile p cs))])"
  by (simp add: repeat_Cls del: repeat.simps upt_Suc)

lemma outcomes_Plus_Cls:
  "outcomes (Plus (Cls p)) (i, cs, k) =
     map (\<lambda>j. (i + j, drop j cs, k)) (rev [1..<Suc (length (takeWhile p cs))])"
proof (cases cs)
  case (Cons c cs')
  show ?thesis
  proof (cases "p c")
    case True
    let ?m = "length (takeWhile p cs')"
    have "outcomes (Plus (Cls p)) (i, cs, k) =
        map (\<lambda>j. (Suc i + j, drop j cs', k)) (rev [0..<Suc ?m])"
      using Cons True by (simp add: Plus_def repeat_Cls del: repeat.simps upt_Suc)
    also have "\<dots> = map (\<lambda>j. (i + j, drop j cs, k)) (rev (map Suc [0..<Suc ?m]))"
      using Cons by (simp add: rev_map)
    also have "map Suc [0..<Suc ?m] = [1..<Suc (length (takeWhile p cs))]"
      using Cons True by (simp only: map_Suc_upt takeWhile.simps if_True length_Cons One_nat_def)
    finally show ?thesis .
  qed (use Cons in \<open>simp add: Plus_def\<close>)
qed (simp add: Plus_def)

lemma set_outcomes_Star_Cls:
  "set (outcomes (Star (Cls p)) (i, cs, k)) =
     {(i + j, drop j cs, k) | j. j \<le> length (takeWhile p cs)}"
  by (auto simp: outcomes_Star_Cls image_iff simp del: upt_Suc outcomes.simps)

lemma set_outcomes_Plus_Cls:
  "set (outcomes (Plus (Cls p)) (i, cs, k)) =
     {(i + j, drop j cs, k) | j. 1 \<le> j \<and> j \<le> length (takeWhile p cs)}"
  by (auto simp: outcomes_Plus_Cls image_iff simp del: upt_Suc outcomes.simps)

text \<open>The same as splits of the remaining input, also under a group.\<close>

lemma set_outcomes_Star:
  "set (outcomes (Star (Cls p)) (i, cs, k)) =
     {(i + length h, r, k) | h r. cs = h @ r \<and> list_all p h}"
proof -
  have "(\<exists>j. j \<le> length (takeWhile p cs) \<and> t = (i + j, drop j cs, k)) \<longleftrightarrow>
      (\<exists>h r. cs = h @ r \<and> list_all p h \<and> t = (i + length h, r, k))" for t
  proof
    assume "\<exists>j. j \<le> length (takeWhile p cs) \<and> t = (i + j, drop j cs, k)"
    then obtain j where "j \<le> length cs" "list_all p (take j cs)" "t = (i + j, drop j cs, k)"
      by (auto simp: le_length_takeWhile)
    then show "\<exists>h r. cs = h @ r \<and> list_all p h \<and> t = (i + length h, r, k)"
      by (intro exI [of _ "take j cs"] exI [of _ "drop j cs"]) simp
  qed (fastforce simp: le_length_takeWhile)
  then show ?thesis unfolding set_outcomes_Star_Cls by blast
qed

lemma set_outcomes_Plus:
  "set (outcomes (Plus (Cls p)) (i, cs, k)) =
     {(i + length h, r, k) | h r. cs = h @ r \<and> h \<noteq> [] \<and> list_all p h}"
proof -
  have "(\<exists>j. 1 \<le> j \<and> j \<le> length (takeWhile p cs) \<and> t = (i + j, drop j cs, k)) \<longleftrightarrow>
      (\<exists>h r. cs = h @ r \<and> h \<noteq> [] \<and> list_all p h \<and> t = (i + length h, r, k))" for t
  proof
    assume "\<exists>j. 1 \<le> j \<and> j \<le> length (takeWhile p cs) \<and> t = (i + j, drop j cs, k)"
    then obtain j where "1 \<le> j" "j \<le> length cs" "list_all p (take j cs)" "t = (i + j, drop j cs, k)"
      by (auto simp: le_length_takeWhile)
    then show "\<exists>h r. cs = h @ r \<and> h \<noteq> [] \<and> list_all p h \<and> t = (i + length h, r, k)"
      by (intro exI [of _ "take j cs"] exI [of _ "drop j cs"]) auto
  next
    assume "\<exists>h r. cs = h @ r \<and> h \<noteq> [] \<and> list_all p h \<and> t = (i + length h, r, k)"
    then obtain h r where "cs = h @ r" "h \<noteq> []" "list_all p h" "t = (i + length h, r, k)" by blast
    then show "\<exists>j. 1 \<le> j \<and> j \<le> length (takeWhile p cs) \<and> t = (i + j, drop j cs, k)"
      by (intro exI [of _ "length h"]) (simp add: le_length_takeWhile Suc_le_eq)
  qed
  then show ?thesis unfolding set_outcomes_Plus_Cls by blast
qed

lemma set_outcomes_Grp:
  "set (outcomes (Grp n a) s) =
     (\<lambda>(j, cs, k). (j, cs, k(n \<mapsto> take (j - fst s) (fst (snd s))))) ` set (outcomes a s)"
  by simp

lemma set_outcomes_Grp_Star:
  "set (outcomes (Grp n (Star (Cls p))) (i, cs, k)) =
     {(i + length h, r, k(n \<mapsto> h)) | h r. cs = h @ r \<and> list_all p h}"
  unfolding set_outcomes_Grp set_outcomes_Star by force

lemma set_outcomes_Grp_Plus:
  "set (outcomes (Grp n (Plus (Cls p))) (i, cs, k)) =
     {(i + length h, r, k(n \<mapsto> h)) | h r. cs = h @ r \<and> h \<noteq> [] \<and> list_all p h}"
  unfolding set_outcomes_Grp set_outcomes_Plus by force

lemma set_outcomes_Sq:
  "set (outcomes (Sq a b) s) = (\<Union>u \<in> set (outcomes a s). set (outcomes b u))"
  by simp

declare outcomes.simps(3) [simp del]

text \<open>When all matches of the whole input capture the same groups, their order does not matter.\<close>

lemma regex_match_unique:
  assumes "\<And>t. t \<in> set (outcomes r (0, s, Map.empty)) \<Longrightarrow> whole t \<Longrightarrow> snd (snd t) = k"
    and "\<exists>t \<in> set (outcomes r (0, s, Map.empty)). whole t"
  shows "regex_match r s = Some k"
proof -
  obtain t where "find whole (outcomes r (0, s, Map.empty)) = Some t"
    using assms(2) find_None_set by (metis not_None_eq)
  moreover from this have "t \<in> set (outcomes r (0, s, Map.empty))" and "whole t"
    by (auto simp: find_Some_iff)
  ultimately show ?thesis using assms(1) by (simp add: regex_match_def)
qed

lemma regex_match_None_iff:
  "regex_match r s = None \<longleftrightarrow> (\<forall>t \<in> set (outcomes r (0, s, Map.empty)). \<not> whole t)"
  by (simp add: regex_match_def find_None_set)

lemma regex_match_SomeE:
  assumes "regex_match r s = Some k"
  obtains i where "(i, [], k) \<in> set (outcomes r (0, s, Map.empty))"
proof -
  from assms obtain t where t: "find whole (outcomes r (0, s, Map.empty)) = Some t"
    and k: "k = snd (snd t)"
    by (auto simp: regex_match_def)
  from t have "t \<in> set (outcomes r (0, s, Map.empty))" and "whole t"
    by (auto simp: find_Some_iff)
  moreover obtain i cs k' where "t = (i, cs, k')" by (cases t)
  ultimately show thesis using k that by (simp add: whole_def)
qed

end
