(* ===== verification/Uri.thy ===== *)
theory Uri
  imports Regex Os
begin

text \<open>
  The textual part of \<^verbatim>\<open>src/address_impl.cpp\<close>: splitting a URI into host and service, and checking
  numeric services.  The lookup itself (\<^verbatim>\<open>getaddrinfo\<close>) is in theory \<open>Address\<close>.
\<close>

section \<open>Numeric services\<close>

definition reNumeric :: regex where
  "reNumeric = Sq Bol (Sq (Opt (lit ''-'')) (Sq (Plus (Cls is_digit)) Eol))"

definition IsServiceNumeric :: "string \<Rightarrow> bool" where
  "IsServiceNumeric serv \<longleftrightarrow> regex_match reNumeric serv \<noteq> None"

text \<open>
  \<^verbatim>\<open>std::stoll\<close> on the strings that reach it: an optional sign and digits.  A value that does not
  fit into 64 bits is an \<^verbatim>\<open>out_of_range\<close> error, no digits at all an \<^verbatim>\<open>invalid_argument\<close> error.
\<close>

definition digit_val :: "char \<Rightarrow> int" where
  "digit_val c = of_char c - 48"

definition digits_val :: "string \<Rightarrow> int" where
  "digits_val ds = foldl (\<lambda>n c. 10 * n + digit_val c) 0 ds"

definition stoll :: "string \<Rightarrow> exn + int" where
  "stoll s =
     (let neg = (s \<noteq> [] \<and> hd s = CHR ''-'');
          ds = takeWhile is_digit (if neg then tl s else s);
          v = (if neg then - digits_val ds else digits_val ds)
      in if ds = [] then Inl (InvalidArgument ''stoll'')
         else if v < - (2 ^ 63) \<or> 2 ^ 63 \<le> v then Inl (OutOfRange ''stoll'')
         else Inr v)"

definition uint16_max :: int where
  "uint16_max = 65535"

definition CheckServiceNumericOutOfRange :: "string \<Rightarrow> exn + unit" where
  "CheckServiceNumericOutOfRange serv =
     (case stoll serv of
        Inl e \<Rightarrow> Inl e
      | Inr port \<Rightarrow>
          if port < 0 \<or> port > uint16_max
          then Inl (RuntimeError (''numeric service '' @ serv @ '' out of range''))
          else Inr ())"

section \<open>Dissecting a URI\<close>

text \<open>The expressions of \<^verbatim>\<open>UriDissect\<close>, group by group.\<close>

definition reServ :: regex where
  "reServ =
     Sq (Opt (Grp 1 (Sq (Opt (Grp 2 (Sq Bol (Plus (Cls is_word))))) (lit ''://''))))
     (Sq (Grp 3 (Plus (Cls (\<lambda>c. c \<noteq> CHR ''/''))))
     (Sq (Opt (lit ''/''))
     (Sq (Star (Cls is_dot)) Eol)))"

definition rePortBracket :: regex where
  "rePortBracket =
     Sq Bol (Sq (lit ''['') (Sq (Grp 1 (Star (Cls is_dot))) (Sq (lit '']:'')
       (Grp 2 (Sq (Plus (Cls is_digit)) Eol)))))"

definition rePort :: regex where
  "rePort =
     Sq (Grp 1 (Sq Bol (Plus (Cls (\<lambda>c. c \<noteq> CHR '':'')))))
     (Sq (lit '':'') (Grp 2 (Sq (Plus (Cls is_digit)) Eol)))"

text \<open>
  Host, service and whether \<^verbatim>\<open>AI_NUMERICSERV\<close> was added to the hints, which otherwise are
  \<^verbatim>\<open>AF_UNSPEC\<close> and \<^verbatim>\<open>AI_PASSIVE\<close> for every URI.
\<close>

record dissect =
  dis_host :: string
  dis_serv :: string
  dis_numeric :: bool

definition group :: "(nat \<rightharpoonup> string) \<Rightarrow> nat \<Rightarrow> string" where
  "group k n = (case k n of None \<Rightarrow> [] | Some s \<Rightarrow> s)"

definition UriDissect :: "string \<Rightarrow> exn + dissect" where
  "UriDissect uri =
     (case regex_match reServ uri of
        None \<Rightarrow> Inl (LogicError ''unexpected regex non-match'')
      | Some k \<Rightarrow>
          let serv0 = (case k 2 of Some s \<Rightarrow> s | None \<Rightarrow> []);
              trimmed = group k 3;
              port_match = (case regex_match rePortBracket trimmed of
                  Some k' \<Rightarrow> Some k'
                | None \<Rightarrow> regex_match rePort trimmed)
          in case port_match of
               Some k' \<Rightarrow>
                 (case CheckServiceNumericOutOfRange (group k' 2) of
                    Inl e \<Rightarrow> Inl e
                  | Inr _ \<Rightarrow> Inr \<lparr>dis_host = group k' 1, dis_serv = group k' 2, dis_numeric = True\<rparr>)
             | None \<Rightarrow> Inr \<lparr>dis_host = trimmed, dis_serv = serv0, dis_numeric = False\<rparr>)"

section \<open>Specification of the split\<close>

text \<open>
  What the first expression does, written directly: an optional service in front of \<^verbatim>\<open>://\<close>, if
  something other than a slash follows, then everything up to the next slash; what is left must
  not contain a line break.
\<close>

definition scheme_split :: "string \<Rightarrow> string option \<times> string" where
  "scheme_split uri =
     (let w = takeWhile is_word uri; r = dropWhile is_word uri
      in if take 3 r = ''://'' \<and> drop 3 r \<noteq> [] \<and> hd (drop 3 r) \<noteq> CHR ''/''
         then (if w = [] then None else Some w, drop 3 r) else (None, uri))"

definition split_uri :: "string \<Rightarrow> (string option \<times> string) option" where
  "split_uri uri =
     (let (sc, r) = scheme_split uri;
          auth = takeWhile (\<lambda>c. c \<noteq> CHR ''/'') r; rest = dropWhile (\<lambda>c. c \<noteq> CHR ''/'') r
      in if auth = [] \<or> \<not> list_all is_dot rest then None else Some (sc, auth))"

subsection \<open>The part behind the service\<close>

abbreviation notslash :: "char \<Rightarrow> bool" where
  "notslash \<equiv> \<lambda>c. c \<noteq> CHR ''/''"

definition rePath :: regex where
  "rePath = Sq (Opt (lit ''/'')) (Sq (Star (Cls is_dot)) Eol)"

lemma is_dot_slash [simp]: "is_dot (CHR ''/'')"
  by (simp add: is_dot_def)

lemma takeWhile_length_all: "length (takeWhile P xs) \<ge> length xs \<longleftrightarrow> (\<forall>x \<in> set xs. P x)"
  by (metis length_takeWhile_eq_iff length_takeWhile_le le_antisym order_refl)

lemma outcomes_dots:
  "t \<in> set (outcomes (Sq (Star (Cls is_dot)) Eol) (i, cs, k)) \<longleftrightarrow>
     t = (i + length cs, [], k) \<and> list_all is_dot cs"
proof -
  have "t \<in> set (outcomes (Sq (Star (Cls is_dot)) Eol) (i, cs, k)) \<longleftrightarrow>
      (\<exists>j. j \<le> length (takeWhile is_dot cs) \<and> length cs \<le> j \<and> t = (i + j, [], k))"
    by (auto simp: set_outcomes_Star_Cls set_outcomes_Sq simp del: outcomes.simps(2))
  also have "\<dots> \<longleftrightarrow> length cs \<le> length (takeWhile is_dot cs) \<and> t = (i + length cs, [], k)"
    using length_takeWhile_le [of is_dot cs] by (auto intro: exI [of _ "length cs"])
  finally show ?thesis by (auto simp: takeWhile_length_all list_all_iff)
qed

lemma find_rePath:
  "map_option (\<lambda>t. snd (snd t)) (find whole (outcomes rePath (i, cs, k))) =
     (if list_all is_dot cs then Some k else None)"
proof -
  let ?D = "Sq (Star (Cls is_dot)) Eol"
  have mem: "t \<in> set (outcomes rePath (i, cs, k)) \<longleftrightarrow>
      t \<in> set (outcomes ?D (i, cs, k)) \<or>
      (\<exists>cs'. cs = CHR ''/'' # cs' \<and> t \<in> set (outcomes ?D (Suc i, cs', k)))" for t
    unfolding rePath_def set_outcomes_Sq [of _ ?D] by (auto split: list.splits)
  note outcomes.simps(2) [simp del]
  show ?thesis
  proof (cases "list_all is_dot cs")
    case True
    then have "\<exists>t \<in> set (outcomes rePath (i, cs, k)). whole t"
      by (intro bexI [of _ "(i + length cs, [], k)"]) (simp_all add: whole_def mem outcomes_dots)
    then obtain t where t: "find whole (outcomes rePath (i, cs, k)) = Some t"
      using find_None_set by (metis not_None_eq)
    then have "t \<in> set (outcomes rePath (i, cs, k))" by (auto simp: find_Some_iff)
    with t True show ?thesis by (auto simp: mem outcomes_dots)
  next
    case False
    then have "find whole (outcomes rePath (i, cs, k)) = None"
      by (auto simp: find_None_set mem outcomes_dots)
    with False show ?thesis by simp
  qed
qed

lemma find_reAuthority:
  "map_option (\<lambda>t. snd (snd t))
     (find whole (outcomes (Sq (Grp 3 (Plus (Cls notslash))) rePath) (i, cs, k))) =
   (if takeWhile notslash cs \<noteq> [] \<and> list_all is_dot (dropWhile notslash cs)
    then Some (k(3 \<mapsto> takeWhile notslash cs)) else None)"
proof -
  let ?n = "length (takeWhile notslash cs)"
  let ?g = "\<lambda>j. (i + j, drop j cs, k(3 \<mapsto> take j cs))"
  have out: "outcomes (Sq (Grp 3 (Plus (Cls notslash))) rePath) (i, cs, k) =
      concat (map (outcomes rePath) (map ?g (rev [1..<Suc ?n])))"
    by (simp add: outcomes_Plus_Cls comp_def del: upt_Suc)
  note outcomes.simps(2) [simp del]
  show ?thesis
  proof (cases "takeWhile notslash cs = []")
    case True
    then have "?n = 0" by simp
    then show ?thesis using True unfolding out by simp
  next
    case False
    then have "[1..<Suc ?n] = [1..<?n] @ [?n]" by (simp add: Suc_le_eq)
    then have out': "outcomes (Sq (Grp 3 (Plus (Cls notslash))) rePath) (i, cs, k) =
        outcomes rePath (?g ?n) @ concat (map (outcomes rePath) (map ?g (rev [1..<?n])))"
      by (simp only: out) simp
    have first: "map_option (\<lambda>t. snd (snd t)) (find whole (outcomes rePath (?g ?n))) =
        (if list_all is_dot (dropWhile notslash cs) then Some (k(3 \<mapsto> takeWhile notslash cs)) else None)"
      by (simp add: find_rePath)
    show ?thesis
    proof (cases "list_all is_dot (dropWhile notslash cs)")
      case True
      with first False show ?thesis by (auto simp: out' find_append)
    next
      case nodot: False
      have "find whole (outcomes rePath (?g j)) = None" if "j < ?n" for j
      proof -
        have "set (dropWhile notslash cs) \<subseteq> set (drop j cs)"
          using set_drop_subset_set_drop [of j ?n cs] that by (simp add: order_less_imp_le)
        with nodot have "\<not> list_all is_dot (drop j cs)" by (auto simp: list_all_iff)
        with find_rePath [of "i + j" "drop j cs"] show ?thesis by simp
      qed
      then have "find whole (concat (map (outcomes rePath) (map ?g (rev [1..<?n])))) = None"
        by (intro find_concat_map_None) auto
      with first nodot show ?thesis by (simp add: out' find_append)
    qed
  qed
qed

subsection \<open>The service\<close>

definition reScheme :: regex where
  "reScheme = Grp 1 (Sq (Opt (Grp 2 (Sq Bol (Plus (Cls is_word))))) (lit ''://''))"

lemma reServ_parts: "reServ = Sq (Opt reScheme) (Sq (Grp 3 (Plus (Cls notslash))) rePath)"
  by (simp add: reServ_def reScheme_def rePath_def)

lemma outcomes_lit_scheme:
  "outcomes (lit ''://'') (i, cs, k) = (if take 3 cs = ''://'' then [(i + 3, drop 3 cs, k)] else [])"
  by (auto split: list.splits simp: numeral_3_eq_3 take_Cons' drop_Cons')

lemma is_word_colon [simp]: "\<not> is_word (CHR '':'')"
  by (simp add: is_word_def is_digit_def)

lemma take3_scheme_hd: "take 3 cs = ''://'' \<Longrightarrow> \<exists>rest. cs = CHR '':'' # rest"
  by (cases cs) auto

lemma outcomes_reScheme:
  fixes cs
  defines "w \<equiv> takeWhile is_word cs" and "r \<equiv> dropWhile is_word cs"
  shows "outcomes reScheme (0, cs, Map.empty) =
    (if take 3 r = ''://''
     then [(length w + 3, drop 3 r,
            (if w = [] then Map.empty else [2 \<mapsto> w])(1 \<mapsto> take (length w + 3) cs))]
     else [])"
proof -
  let ?opt = "Opt (Grp 2 (Sq Bol (Plus (Cls is_word))))"
  let ?g = "\<lambda>j. (j, drop j cs, if j = 0 then Map.empty else [2 \<mapsto> take j cs])"
  have up: "[0..<Suc (length w)] = 0 # [1..<Suc (length w)]"
    by (simp add: upt_conv_Cons del: upt_Suc)
  have "outcomes ?opt (0, cs, Map.empty) = map ?g (rev [1..<Suc (length w)]) @ [?g 0]"
    by (auto simp: outcomes_Plus_Cls w_def simp del: upt_Suc)
  also have "\<dots> = map ?g (rev [0..<Suc (length w)])"
    by (simp only: up rev.simps map_append list.map)
  also have "\<dots> = ?g (length w) # map ?g (rev [0..<length w])" by simp
  finally have opt: "outcomes ?opt (0, cs, Map.empty) = \<dots>" .
  have early: "outcomes (lit ''://'') (?g j) = []" if "j < length w" for j
  proof -
    have "drop j (w @ r) = drop j w @ r" using that by simp
    then have "drop j cs = drop j w @ r" by (simp add: w_def r_def)
    moreover have "drop j w \<noteq> []" and "\<forall>c \<in> set (drop j w). is_word c"
      using that by (auto simp: w_def dest!: in_set_dropD set_takeWhileD)
    ultimately obtain c rest where "drop j cs = c # rest" and "is_word c"
      by (cases "drop j w") auto
    then have "take 3 (drop j cs) \<noteq> ''://''"
      using take3_scheme_hd [of "drop j cs"] by auto
    then show ?thesis by (simp add: outcomes_lit_scheme del: lit.simps)
  qed
  have "concat (map (outcomes (lit ''://'')) (map ?g (rev [0..<length w]))) = []"
    using early by (auto simp del: lit.simps)
  moreover have "drop (length w) cs = r" by (simp add: w_def r_def)
  moreover have "take (length w) cs = w" by (simp add: w_def)
  ultimately have "outcomes (Sq ?opt (lit ''://'')) (0, cs, Map.empty) =
      (if take 3 r = ''://'' then [(length w + 3, drop 3 r, if w = [] then Map.empty else [2 \<mapsto> w])] else [])"
    unfolding outcomes.simps(2) opt by (simp add: outcomes_lit_scheme del: lit.simps)
  then show ?thesis
    unfolding reScheme_def by (simp del: outcomes.simps(2,4) lit.simps)
qed

text \<open>The two groups of the first outcome that consumes everything.\<close>

definition found :: "mstate list \<Rightarrow> (string option \<times> string) option" where
  "found ts = map_option (\<lambda>t. (snd (snd t) 2, group (snd (snd t)) 3)) (find whole ts)"

lemma found_append: "found (ts @ us) = (case found ts of None \<Rightarrow> found us | Some x \<Rightarrow> Some x)"
  by (simp add: found_def find_append split: option.splits)

lemma found_match:
  "map_option (\<lambda>k. (k 2, group k 3)) (regex_match r s) = found (outcomes r (0, s, Map.empty))"
  by (simp add: regex_match_def found_def option.map_comp comp_def)

lemma found_authority:
  "found (outcomes (Sq (Grp 3 (Plus (Cls notslash))) rePath) (i, cs, k)) =
     (if takeWhile notslash cs \<noteq> [] \<and> list_all is_dot (dropWhile notslash cs)
      then Some (k 2, takeWhile notslash cs) else None)"
  using arg_cong [OF find_reAuthority [of i cs k], of "map_option (\<lambda>k. (k 2, group k 3))"]
  by (simp only: found_def option.map_comp comp_def) (simp add: group_def)

lemma outcomes_reServ:
  "outcomes reServ (0, uri, Map.empty) =
     concat (map (outcomes (Sq (Grp 3 (Plus (Cls notslash))) rePath)) (outcomes reScheme (0, uri, Map.empty)))
     @ outcomes (Sq (Grp 3 (Plus (Cls notslash))) rePath) (0, uri, Map.empty)"
  unfolding reServ_parts outcomes.simps(2) [of "Opt reScheme"] outcomes.simps(4) by simp

lemma takeWhile_notslash_word:
  "\<forall>c \<in> set w. is_word c \<Longrightarrow> takeWhile notslash (w @ xs) = w @ takeWhile notslash xs"
  "\<forall>c \<in> set w. is_word c \<Longrightarrow> dropWhile notslash (w @ xs) = dropWhile notslash xs"
proof -
  have "\<not> is_word (CHR ''/'')" by (simp add: is_word_def is_digit_def)
  then show "\<forall>c \<in> set w. is_word c \<Longrightarrow> takeWhile notslash (w @ xs) = w @ takeWhile notslash xs"
    "\<forall>c \<in> set w. is_word c \<Longrightarrow> dropWhile notslash (w @ xs) = dropWhile notslash xs"
    by (induction w) auto
qed

lemma regex_match_reServ:
  "map_option (\<lambda>k. (k 2, group k 3)) (regex_match reServ uri) = split_uri uri"
proof (cases "take 3 (dropWhile is_word uri) = ''://''")
  case False
  then have "outcomes reScheme (0, uri, Map.empty) = []" by (simp add: outcomes_reScheme)
  with False show ?thesis
    by (simp add: found_match outcomes_reServ found_authority split_uri_def scheme_split_def Let_def
        del: outcomes.simps)
next
  case True
  define w u where "w = takeWhile is_word uri" and "u = drop 3 (dropWhile is_word uri)"
  have r: "dropWhile is_word uri = ''://'' @ u"
    using True by (metis append_take_drop_id u_def)
  then have uri: "uri = w @ ''://'' @ u" by (metis takeWhile_dropWhile_id w_def)
  have w: "\<forall>c \<in> set w. is_word c" by (auto simp: w_def dest: set_takeWhileD)
  have auth: "takeWhile notslash uri = w @ '':''" "dropWhile notslash uri = ''//'' @ u"
    unfolding uri using takeWhile_notslash_word [OF w, of "''://'' @ u"] by simp_all
  have "outcomes reScheme (0, uri, Map.empty) = [(length w + 3, u,
      (if w = [] then Map.empty else [2 \<mapsto> w])(1 \<mapsto> take (length w + 3) uri))]"
    using True by (simp add: outcomes_reScheme u_def w_def del: outcomes.simps)
  then have first: "found (outcomes reServ (0, uri, Map.empty)) =
      (if takeWhile notslash u \<noteq> [] \<and> list_all is_dot (dropWhile notslash u)
       then Some (if w = [] then None else Some w, takeWhile notslash u)
       else if list_all is_dot u then Some (None, w @ '':'') else None)"
    unfolding outcomes_reServ found_append by (simp add: found_authority auth del: outcomes.simps)
  have head: "takeWhile notslash u \<noteq> [] \<longleftrightarrow> u \<noteq> [] \<and> hd u \<noteq> CHR ''/''"
    by (cases u) auto
  have tail: "list_all is_dot u \<Longrightarrow> list_all is_dot (dropWhile notslash u)"
    by (auto simp: list_all_iff dest: set_dropWhileD)
  have "scheme_split uri = (if takeWhile notslash u \<noteq> [] then (if w = [] then None else Some w, u) else (None, uri))"
    unfolding scheme_split_def head Let_def r w_def [symmetric] by simp
  then show ?thesis
    unfolding found_match first split_uri_def using tail by (auto simp: auth Let_def)
qed

subsection \<open>The port\<close>

text \<open>
  Both port expressions split the trailing digits off; in front of them is either a bracketed
  host and a colon or a host without colons and a colon.
\<close>

definition port_split :: "string \<Rightarrow> (string \<times> string) option" where
  "port_split a =
     (let ds = rev (takeWhile is_digit (rev a)); p = rev (dropWhile is_digit (rev a));
          h = butlast (butlast (tl p))
      in if ds = [] then None
         else if p = CHR ''['' # h @ '']:'' \<and> list_all is_dot h then Some (h, ds)
         else if p = butlast p @ '':'' \<and> butlast p \<noteq> [] \<and> CHR '':'' \<notin> set (butlast p)
         then Some (butlast p, ds)
         else None)"

lemma set_outcomes_digits:
  "set (outcomes (Sq (Plus (Cls is_digit)) Eol) (i, cs, k)) =
     (if cs \<noteq> [] \<and> list_all is_digit cs then {(i + length cs, [], k)} else {})"
  unfolding set_outcomes_Sq set_outcomes_Plus by auto

lemma outcomes_digits:
  "t \<in> set (outcomes (Grp 2 (Sq (Plus (Cls is_digit)) Eol)) (i, cs, k)) \<longleftrightarrow>
     t = (i + length cs, [], k(2 \<mapsto> cs)) \<and> cs \<noteq> [] \<and> list_all is_digit cs"
  by (simp add: set_outcomes_digits del: outcomes.simps(2))

lemma trailing_digits:
  assumes "list_all is_digit ds" and "p = [] \<or> \<not> is_digit (last p)"
  shows "takeWhile is_digit (rev (p @ ds)) = rev ds" and "dropWhile is_digit (rev (p @ ds)) = rev p"
proof -
  have d: "\<forall>c \<in> set (rev ds). is_digit c" using assms(1) by (simp add: list_all_iff)
  have "takeWhile is_digit (rev p) = []" and "dropWhile is_digit (rev p) = rev p"
    using assms(2) by (cases p rule: rev_cases; simp)+
  then show "takeWhile is_digit (rev (p @ ds)) = rev ds" and "dropWhile is_digit (rev (p @ ds)) = rev p"
    using takeWhile_all_append [OF d, of "rev p"] by simp_all
qed

lemma is_digit_colon [simp]: "\<not> is_digit (CHR '':'')"
  by (simp add: is_digit_def)

lemma outcomes_lit_bracket:
  "outcomes (lit '']:'') (i, cs, k) = (if take 2 cs = '']:'' then [(i + 2, drop 2 cs, k)] else [])"
  by (auto split: list.splits simp: numeral_2_eq_2 take_Cons' drop_Cons')

lemma take2_bracket: "take 2 cs = '']:'' \<longleftrightarrow> (\<exists>r. cs = '']:'' @ r)"
proof
  assume "take 2 cs = '']:''"
  then show "\<exists>r. cs = '']:'' @ r" by (metis append_take_drop_id)
qed auto

lemma Sq_splits:
  assumes "set (outcomes a s) = {f h r | h r. P h r}"
  shows "t \<in> set (outcomes (Sq a b) s) \<longleftrightarrow> (\<exists>h r. P h r \<and> t \<in> set (outcomes b (f h r)))"
  unfolding set_outcomes_Sq assms by blast

lemma outcomes_bracket_digits:
  "t \<in> set (outcomes (Sq (lit '']:'') (Grp 2 (Sq (Plus (Cls is_digit)) Eol))) (i, cs, k)) \<longleftrightarrow>
     (\<exists>ds. cs = '']:'' @ ds \<and> ds \<noteq> [] \<and> list_all is_digit ds \<and> t = (i + 2 + length ds, [], k(2 \<mapsto> ds)))"
proof (cases "take 2 cs = '']:''")
  case True
  then obtain r where "cs = '']:'' @ r" by (auto simp: take2_bracket)
  then show ?thesis unfolding set_outcomes_Sq outcomes_lit_bracket using outcomes_digits by auto
next
  case False
  then show ?thesis unfolding set_outcomes_Sq outcomes_lit_bracket by auto
qed

lemma outcomes_colon_digits:
  "t \<in> set (outcomes (Sq (lit '':'') (Grp 2 (Sq (Plus (Cls is_digit)) Eol))) (i, cs, k)) \<longleftrightarrow>
     (\<exists>ds. cs = '':'' @ ds \<and> ds \<noteq> [] \<and> list_all is_digit ds \<and> t = (i + 1 + length ds, [], k(2 \<mapsto> ds)))"
proof (cases "\<exists>r. cs = CHR '':'' # r")
  case True
  then obtain r where cs: "cs = CHR '':'' # r" by blast
  have "outcomes (lit '':'') (i, cs, k) = [(i + 1, r, k)]" by (simp add: cs)
  then show ?thesis unfolding set_outcomes_Sq using outcomes_digits cs by auto
next
  case False
  then have "outcomes (lit '':'') (i, cs, k) = []" by (cases cs) auto
  then show ?thesis unfolding set_outcomes_Sq using False by auto
qed

lemma rePortBracket_outcomes:
  "t \<in> set (outcomes rePortBracket (0, a, Map.empty)) \<longleftrightarrow>
     (\<exists>h ds. a = CHR ''['' # h @ '']:'' @ ds \<and> list_all is_dot h \<and> ds \<noteq> [] \<and> list_all is_digit ds
        \<and> t = (length a, [], [1 \<mapsto> h, 2 \<mapsto> ds]))"
proof -
  let ?L = "Sq (lit '']:'') (Grp 2 (Sq (Plus (Cls is_digit)) Eol))"
  let ?H = "Grp 1 (Star (Cls is_dot))"
  have G: "t \<in> set (outcomes (Sq ?H ?L) (1, b, Map.empty)) \<longleftrightarrow>
      (\<exists>h ds. b = h @ '']:'' @ ds \<and> list_all is_dot h \<and> ds \<noteq> [] \<and> list_all is_digit ds
         \<and> t = (Suc (length b), [], [1 \<mapsto> h, 2 \<mapsto> ds]))" for b
    unfolding Sq_splits [OF set_outcomes_Grp_Star] outcomes_bracket_digits by fastforce
  have start: "outcomes rePortBracket (0, a, Map.empty) =
      (case a of [] \<Rightarrow> [] | c # b \<Rightarrow> if c = CHR ''['' then outcomes (Sq ?H ?L) (1, b, Map.empty) else [])"
    unfolding rePortBracket_def outcomes.simps(2) [of Bol] outcomes.simps(2) [of "lit ''[''"]
    by (simp del: outcomes.simps(2,5) lit.simps(3) split: list.splits)
  show ?thesis
  proof (cases a)
    case (Cons c b)
    show ?thesis
    proof (cases "c = CHR ''[''")
      case True
      then show ?thesis unfolding start using Cons G [of b] by simp
    next
      case False
      then have "outcomes rePortBracket (0, a, Map.empty) = []" unfolding start using Cons by simp
      then show ?thesis using Cons False by simp
    qed
  next
    case Nil
    then have "outcomes rePortBracket (0, a, Map.empty) = []" unfolding start by simp
    then show ?thesis using Nil by simp
  qed
qed

lemma set_outcomes_host:
  "set (outcomes (Grp 1 (Sq Bol (Plus (Cls (\<lambda>c. c \<noteq> CHR '':''))))) (0, a, Map.empty)) =
     {(length h, r, [1 \<mapsto> h]) | h r. a = h @ r \<and> h \<noteq> [] \<and> CHR '':'' \<notin> set h}"
proof -
  have no_colon: "list_all (\<lambda>c. c \<noteq> CHR '':'') h \<longleftrightarrow> CHR '':'' \<notin> set h" for h
    by (auto simp: list_all_iff)
  have "set (outcomes (Grp 1 (Sq Bol (Plus (Cls (\<lambda>c. c \<noteq> CHR '':''))))) (0, a, Map.empty)) =
      set (outcomes (Grp 1 (Plus (Cls (\<lambda>c. c \<noteq> CHR '':'')))) (0, a, Map.empty))"
    by (simp add: Plus_def)
  also have "\<dots> = {(0 + length h, r, Map.empty(1 \<mapsto> h)) | h r. a = h @ r \<and> h \<noteq> [] \<and> list_all (\<lambda>c. c \<noteq> CHR '':'') h}"
    by (rule set_outcomes_Grp_Plus)
  finally show ?thesis using no_colon by simp
qed

lemma rePort_outcomes:
  "t \<in> set (outcomes rePort (0, a, Map.empty)) \<longleftrightarrow>
     (\<exists>h ds. a = h @ '':'' @ ds \<and> h \<noteq> [] \<and> CHR '':'' \<notin> set h \<and> ds \<noteq> [] \<and> list_all is_digit ds
        \<and> t = (length a, [], [1 \<mapsto> h, 2 \<mapsto> ds]))"
  unfolding rePort_def Sq_splits [OF set_outcomes_host] outcomes_colon_digits by fastforce

definition bracket_form :: "string \<Rightarrow> string \<Rightarrow> string \<Rightarrow> bool" where
  "bracket_form a h ds \<longleftrightarrow>
     a = CHR ''['' # h @ '']:'' @ ds \<and> list_all is_dot h \<and> ds \<noteq> [] \<and> list_all is_digit ds"

definition colon_form :: "string \<Rightarrow> string \<Rightarrow> string \<Rightarrow> bool" where
  "colon_form a h ds \<longleftrightarrow>
     a = h @ '':'' @ ds \<and> h \<noteq> [] \<and> CHR '':'' \<notin> set h \<and> ds \<noteq> [] \<and> list_all is_digit ds"

lemma bracket_form_digits:
  assumes "bracket_form a h ds"
  shows "rev (takeWhile is_digit (rev a)) = ds" "rev (dropWhile is_digit (rev a)) = CHR ''['' # h @ '']:''"
proof -
  have a: "a = (CHR ''['' # h @ '']:'') @ ds" and ds: "list_all is_digit ds"
    using assms by (simp_all add: bracket_form_def)
  have last: "\<not> is_digit (last (CHR ''['' # h @ '']:''))" by simp
  show "rev (takeWhile is_digit (rev a)) = ds" "rev (dropWhile is_digit (rev a)) = CHR ''['' # h @ '']:''"
    using trailing_digits [OF ds disjI2 [OF last]] unfolding a [symmetric] by simp_all
qed

lemma colon_form_digits:
  assumes "colon_form a h ds"
  shows "rev (takeWhile is_digit (rev a)) = ds" "rev (dropWhile is_digit (rev a)) = h @ '':''"
proof -
  have a: "a = (h @ '':'') @ ds" and ds: "list_all is_digit ds"
    using assms by (simp_all add: colon_form_def)
  have last: "\<not> is_digit (last (h @ '':''))" by simp
  show "rev (takeWhile is_digit (rev a)) = ds" "rev (dropWhile is_digit (rev a)) = h @ '':''"
    using trailing_digits [OF ds disjI2 [OF last]] unfolding a [symmetric] by simp_all
qed

lemma bracket_form_unique:
  assumes "bracket_form a h ds" and "bracket_form a h' ds'"
  shows "h' = h" "ds' = ds"
  using bracket_form_digits [OF assms(1)] bracket_form_digits [OF assms(2)] by auto

lemma colon_form_unique:
  assumes "colon_form a h ds" and "colon_form a h' ds'"
  shows "h' = h" "ds' = ds"
  using colon_form_digits [OF assms(1)] colon_form_digits [OF assms(2)] by auto

lemma port_split_bracket: "bracket_form a h ds \<Longrightarrow> port_split a = Some (h, ds)"
proof -
  assume f: "bracket_form a h ds"
  then have "ds \<noteq> []" "list_all is_dot h" by (simp_all add: bracket_form_def)
  then show ?thesis
    unfolding port_split_def Let_def bracket_form_digits [OF f] by (simp add: butlast_append)
qed

lemma port_split_colon:
  assumes f: "colon_form a h ds" and no: "\<nexists>h' ds'. bracket_form a h' ds'"
  shows "port_split a = Some (h, ds)"
proof -
  have a: "a = h @ '':'' @ ds" "ds \<noteq> []" "h \<noteq> []" "CHR '':'' \<notin> set h" "list_all is_digit ds"
    using f by (simp_all add: colon_form_def)
  have no_bracket: "\<not> (h @ '':'' = CHR ''['' # h' @ '']:'' \<and> list_all is_dot h')" for h'
  proof
    assume *: "h @ '':'' = CHR ''['' # h' @ '']:'' \<and> list_all is_dot h'"
    then have "(h @ '':'') @ ds = (CHR ''['' # h' @ '']:'') @ ds" by (simp only:)
    then have "bracket_form a h' ds" using a * by (simp add: bracket_form_def)
    with no show False by blast
  qed
  then show ?thesis
    unfolding port_split_def Let_def colon_form_digits [OF f] if_not_P [OF no_bracket]
    using a by simp
qed

lemma port_split_SomeD:
  assumes "port_split a = Some (h, ds)"
  shows "bracket_form a h ds \<or> colon_form a h ds"
proof -
  define d p where "d = rev (takeWhile is_digit (rev a))" and "p = rev (dropWhile is_digit (rev a))"
  have a: "a = p @ d" unfolding d_def p_def by (metis rev_append rev_rev_ident takeWhile_dropWhile_id)
  have d: "list_all is_digit d" unfolding d_def by (auto simp: list_all_iff dest: set_takeWhileD)
  let ?h = "butlast (butlast (tl p))"
  have split: "port_split a = (if d = [] then None
      else if p = CHR ''['' # ?h @ '']:'' \<and> list_all is_dot ?h then Some (?h, d)
      else if p = butlast p @ '':'' \<and> butlast p \<noteq> [] \<and> CHR '':'' \<notin> set (butlast p)
      then Some (butlast p, d) else None)"
    unfolding port_split_def Let_def d_def p_def ..
  consider "p = CHR ''['' # ?h @ '']:''" "list_all is_dot ?h" "h = ?h" "ds = d" "d \<noteq> []"
    | "p = butlast p @ '':''" "butlast p \<noteq> []" "CHR '':'' \<notin> set (butlast p)" "h = butlast p" "ds = d" "d \<noteq> []"
    using assms unfolding split by (auto split: if_splits)
  then show ?thesis
  proof cases
    case 1
    have "p @ d = CHR ''['' # ?h @ '']:'' @ d" using 1(1) by (metis append.assoc append_Cons)
    with 1 d a show ?thesis by (simp add: bracket_form_def)
  next
    case 2
    have "p @ d = butlast p @ '':'' @ d" using 2(1) by (metis append.assoc)
    with 2 d a show ?thesis by (simp add: colon_form_def)
  qed
qed

lemma regex_match_rePortBracket:
  "regex_match rePortBracket a = Some k \<longleftrightarrow> (\<exists>h ds. bracket_form a h ds \<and> k = [1 \<mapsto> h, 2 \<mapsto> ds])"
proof
  assume "regex_match rePortBracket a = Some k"
  then show "\<exists>h ds. bracket_form a h ds \<and> k = [1 \<mapsto> h, 2 \<mapsto> ds]"
    by (rule regex_match_SomeE) (auto simp: rePortBracket_outcomes bracket_form_def)
next
  assume "\<exists>h ds. bracket_form a h ds \<and> k = [1 \<mapsto> h, 2 \<mapsto> ds]"
  then obtain h ds where f: "bracket_form a h ds" and k: "k = [1 \<mapsto> h, 2 \<mapsto> ds]" by blast
  have out: "t \<in> set (outcomes rePortBracket (0, a, Map.empty)) \<longleftrightarrow>
      (\<exists>h ds. bracket_form a h ds \<and> t = (length a, [], [1 \<mapsto> h, 2 \<mapsto> ds]))" for t
    unfolding rePortBracket_outcomes bracket_form_def by blast
  show "regex_match rePortBracket a = Some k"
  proof (rule regex_match_unique)
    show "\<exists>t \<in> set (outcomes rePortBracket (0, a, Map.empty)). whole t"
      using f k out [of "(length a, [], k)"] by (intro bexI [of _ "(length a, [], k)"]) (simp add: whole_def, blast)
  next
    fix t
    assume "t \<in> set (outcomes rePortBracket (0, a, Map.empty))"
    then obtain h' ds' where "bracket_form a h' ds'" and "t = (length a, [], [1 \<mapsto> h', 2 \<mapsto> ds'])"
      using out by blast
    then show "snd (snd t) = k" using bracket_form_unique [OF f, of h' ds'] k by simp
  qed
qed

lemma regex_match_rePort:
  "regex_match rePort a = Some k \<longleftrightarrow> (\<exists>h ds. colon_form a h ds \<and> k = [1 \<mapsto> h, 2 \<mapsto> ds])"
proof
  assume "regex_match rePort a = Some k"
  then show "\<exists>h ds. colon_form a h ds \<and> k = [1 \<mapsto> h, 2 \<mapsto> ds]"
    by (rule regex_match_SomeE) (auto simp: rePort_outcomes colon_form_def)
next
  assume "\<exists>h ds. colon_form a h ds \<and> k = [1 \<mapsto> h, 2 \<mapsto> ds]"
  then obtain h ds where f: "colon_form a h ds" and k: "k = [1 \<mapsto> h, 2 \<mapsto> ds]" by blast
  have out: "t \<in> set (outcomes rePort (0, a, Map.empty)) \<longleftrightarrow>
      (\<exists>h ds. colon_form a h ds \<and> t = (length a, [], [1 \<mapsto> h, 2 \<mapsto> ds]))" for t
    unfolding rePort_outcomes colon_form_def by blast
  show "regex_match rePort a = Some k"
  proof (rule regex_match_unique)
    show "\<exists>t \<in> set (outcomes rePort (0, a, Map.empty)). whole t"
      using f k out [of "(length a, [], k)"] by (intro bexI [of _ "(length a, [], k)"]) (simp add: whole_def, blast)
  next
    fix t
    assume "t \<in> set (outcomes rePort (0, a, Map.empty))"
    then obtain h' ds' where "colon_form a h' ds'" and "t = (length a, [], [1 \<mapsto> h', 2 \<mapsto> ds'])"
      using out by blast
    then show "snd (snd t) = k" using colon_form_unique [OF f, of h' ds'] k by simp
  qed
qed

lemma port_match:
  "map_option (\<lambda>k. (group k 1, group k 2))
     (case regex_match rePortBracket a of Some k \<Rightarrow> Some k | None \<Rightarrow> regex_match rePort a) = port_split a"
proof (cases "regex_match rePortBracket a")
  case (Some k)
  then obtain h ds where "bracket_form a h ds" "k = [1 \<mapsto> h, 2 \<mapsto> ds]"
    by (auto simp: regex_match_rePortBracket)
  with Some show ?thesis by (simp add: port_split_bracket group_def)
next
  case None
  then have no: "\<nexists>h ds. bracket_form a h ds"
    using regex_match_rePortBracket [of a] by (metis option.discI)
  show ?thesis
  proof (cases "regex_match rePort a")
    case (Some k)
    then obtain h ds where "colon_form a h ds" "k = [1 \<mapsto> h, 2 \<mapsto> ds]"
      by (auto simp: regex_match_rePort)
    with Some None no show ?thesis by (simp add: port_split_colon group_def)
  next
    case none: None
    then have "\<nexists>h ds. colon_form a h ds"
      using regex_match_rePort [of a] by (metis option.discI)
    with no have "port_split a \<noteq> Some (h, ds)" for h ds using port_split_SomeD by blast
    then have "port_split a = None" by (cases "port_split a") auto
    with None none show ?thesis by simp
  qed
qed

section \<open>Properties\<close>

lemma digits_val_nonneg: "list_all is_digit ds \<Longrightarrow> 0 \<le> digits_val ds"
proof -
  have digit: "is_digit c \<Longrightarrow> 0 \<le> digit_val c" for c by (auto simp: is_digit_def digit_val_def)
  have "list_all is_digit ds \<Longrightarrow> 0 \<le> n \<Longrightarrow> 0 \<le> foldl (\<lambda>n c. 10 * n + digit_val c) n ds" for n :: int
    by (induction ds arbitrary: n) (auto simp: digit)
  then show "list_all is_digit ds \<Longrightarrow> 0 \<le> digits_val ds" by (simp add: digits_val_def)
qed

lemma is_digit_minus [simp]: "\<not> is_digit (CHR ''-'')"
  by (simp add: is_digit_def)

lemma stoll_digits:
  assumes "list_all is_digit ds" and "ds \<noteq> []"
  shows "stoll ds = (if 2 ^ 63 \<le> digits_val ds then Inl (OutOfRange ''stoll'') else Inr (digits_val ds))"
proof -
  have "hd ds \<noteq> CHR ''-''" using assms by (cases ds) auto
  moreover have "takeWhile is_digit ds = ds" using assms(1) by (simp add: list_all_iff)
  moreover have "\<not> digits_val ds < - (2 ^ 63)" using digits_val_nonneg [OF assms(1)] by simp
  ultimately show ?thesis
    using assms(2) by (simp add: stoll_def Let_def del: takeWhile_eq_all_conv)
qed

definition check_port :: "string \<Rightarrow> exn option" where
  "check_port ds =
     (if 2 ^ 63 \<le> digits_val ds then Some (OutOfRange ''stoll'')
      else if 2 ^ 16 \<le> digits_val ds then Some (RuntimeError (''numeric service '' @ ds @ '' out of range''))
      else None)"

lemma CheckServiceNumericOutOfRange_digits:
  "list_all is_digit ds \<Longrightarrow> ds \<noteq> [] \<Longrightarrow>
     CheckServiceNumericOutOfRange ds = (case check_port ds of Some e \<Rightarrow> Inl e | None \<Rightarrow> Inr ())"
  using digits_val_nonneg [of ds]
  by (simp add: CheckServiceNumericOutOfRange_def stoll_digits check_port_def uint16_max_def)

text \<open>The reference definition of the dissection: no regular expressions, only splits of the text.\<close>

definition dissect_spec :: "string \<Rightarrow> exn + dissect" where
  "dissect_spec uri =
     (case split_uri uri of
        None \<Rightarrow> Inl (LogicError ''unexpected regex non-match'')
      | Some (sc, auth) \<Rightarrow>
          (case port_split auth of
             Some (h, ds) \<Rightarrow>
               (case check_port ds of
                  Some e \<Rightarrow> Inl e
                | None \<Rightarrow> Inr \<lparr>dis_host = h, dis_serv = ds, dis_numeric = True\<rparr>)
           | None \<Rightarrow> Inr \<lparr>dis_host = auth, dis_serv = (case sc of Some s \<Rightarrow> s | None \<Rightarrow> []), dis_numeric = False\<rparr>))"

lemma UriDissect_dissect_spec: "UriDissect uri = dissect_spec uri"
proof (cases "regex_match reServ uri")
  case None
  then have "split_uri uri = None" using regex_match_reServ [of uri] by simp
  with None show ?thesis by (simp add: UriDissect_def dissect_spec_def)
next
  case (Some k)
  let ?a = "group k 3"
  let ?pm = "case regex_match rePortBracket ?a of Some k' \<Rightarrow> Some k' | None \<Rightarrow> regex_match rePort ?a"
  have s: "split_uri uri = Some (k 2, ?a)" using regex_match_reServ [of uri] Some by simp
  have u: "UriDissect uri =
      (case ?pm of
         Some k' \<Rightarrow> (case CheckServiceNumericOutOfRange (group k' 2) of
                    Inl e \<Rightarrow> Inl e
                  | Inr _ \<Rightarrow> Inr \<lparr>dis_host = group k' 1, dis_serv = group k' 2, dis_numeric = True\<rparr>)
       | None \<Rightarrow> Inr \<lparr>dis_host = ?a, dis_serv = (case k 2 of Some s \<Rightarrow> s | None \<Rightarrow> []), dis_numeric = False\<rparr>)"
    by (simp add: UriDissect_def Some Let_def)
  show ?thesis
  proof (cases ?pm)
    case None
    then have "port_split ?a = None" using port_match [of ?a] by simp
    with None show ?thesis by (simp add: u dissect_spec_def s)
  next
    case (Some k')
    then have p: "port_split ?a = Some (group k' 1, group k' 2)" using port_match [of ?a] by simp
    then have "list_all is_digit (group k' 2)" "group k' 2 \<noteq> []"
      using port_split_SomeD [OF p] by (auto simp: bracket_form_def colon_form_def)
    with Some p show ?thesis
      by (simp add: u dissect_spec_def s CheckServiceNumericOutOfRange_digits split: option.splits)
  qed
qed

text \<open>
  C2. \<^verbatim>\<open>UriDissect\<close> with its three regular expressions, matched greedily with backtracking, computes
  the direct split of the text: the service in front of \<^verbatim>\<open>://\<close>, the authority up to the first slash,
  and the trailing digits of \<^verbatim>\<open>[host]:digits\<close> or \<^verbatim>\<open>host:digits\<close> as port, for every input string, with
  the same error on a string that does not match, and on a port that does not fit into 16 or 64 bits.
\<close>

theorem UriDissect_equiv: "UriDissect uri = dissect_spec uri"
  by (rule UriDissect_dissect_spec)

lemma scheme_split_none:
  "take 3 (dropWhile is_word uri) \<noteq> ''://'' \<Longrightarrow> scheme_split uri = (None, uri)"
  by (simp add: scheme_split_def Let_def)

lemma takeWhile_notslash_path:
  "CHR ''/'' \<notin> set a \<Longrightarrow> path = [] \<or> hd path = CHR ''/'' \<Longrightarrow>
     takeWhile notslash (a @ path) = a \<and> dropWhile notslash (a @ path) = path"
  by (induction a) (cases path; auto)+

lemma dissect_spec_port:
  assumes "scheme_split (a @ path) = (None, a @ path)"
    and "CHR ''/'' \<notin> set a" and "a \<noteq> []" and "path = [] \<or> hd path = CHR ''/''" and "list_all is_dot path"
    and "port_split a = Some (h, ds)" and "check_port ds = None"
  shows "dissect_spec (a @ path) = Inr \<lparr>dis_host = h, dis_serv = ds, dis_numeric = True\<rparr>"
  using assms takeWhile_notslash_path [of a path]
  by (simp add: dissect_spec_def split_uri_def)

lemma dropWhile_word_bracket: "dropWhile is_word (CHR ''['' # cs) = CHR ''['' # cs"
  by (simp add: is_word_def is_digit_def)

text \<open>Every accepted way to write a numeric port yields host and port.\<close>

lemma dissect_bracket:
  assumes "list_all is_dot h" and "CHR ''/'' \<notin> set h" and "ds \<noteq> []" and "list_all is_digit ds"
    and "digits_val ds < 2 ^ 16" and "path = [] \<or> hd path = CHR ''/''" and "list_all is_dot path"
  shows "UriDissect (CHR ''['' # h @ '']:'' @ ds @ path) = Inr \<lparr>dis_host = h, dis_serv = ds, dis_numeric = True\<rparr>"
proof -
  let ?a = "CHR ''['' # h @ '']:'' @ ds"
  have slash: "CHR ''/'' \<notin> set ds" using assms(4) by (auto simp: list_all_iff is_digit_def)
  have f: "bracket_form ?a h ds" using assms by (simp add: bracket_form_def)
  have s: "scheme_split (?a @ path) = (None, ?a @ path)"
    by (intro scheme_split_none) (simp add: dropWhile_word_bracket del: dropWhile.simps)
  have "dissect_spec (?a @ path) = Inr \<lparr>dis_host = h, dis_serv = ds, dis_numeric = True\<rparr>"
    by (rule dissect_spec_port [OF s]) (use assms slash port_split_bracket [OF f] in \<open>auto simp: check_port_def\<close>)
  then show ?thesis by (simp add: UriDissect_dissect_spec)
qed

lemma dropWhile_word_colon:
  "CHR '':'' \<notin> set h \<Longrightarrow> c \<noteq> CHR ''/'' \<Longrightarrow> take 3 (dropWhile is_word (h @ CHR '':'' # c # cs)) \<noteq> ''://''"
  by (induction h) auto

lemma dissect_colon:
  assumes "h \<noteq> []" and "hd h \<noteq> CHR ''[''" and "CHR '':'' \<notin> set h" and "CHR ''/'' \<notin> set h" and "ds \<noteq> []" and "list_all is_digit ds" and "digits_val ds < 2 ^ 16"
    and "path = [] \<or> hd path = CHR ''/''" and "list_all is_dot path"
  shows "UriDissect (h @ '':'' @ ds @ path) = Inr \<lparr>dis_host = h, dis_serv = ds, dis_numeric = True\<rparr>"
proof -
  let ?a = "h @ '':'' @ ds"
  have slash: "CHR ''/'' \<notin> set ds" using assms(6) by (auto simp: list_all_iff is_digit_def)
  have f: "colon_form ?a h ds" using assms by (simp add: colon_form_def)
  have no: "\<nexists>h' ds'. bracket_form ?a h' ds'"
  proof
    assume "\<exists>h' ds'. bracket_form ?a h' ds'"
    then obtain h' ds' where b: "bracket_form ?a h' ds'" by blast
    have "h @ '':'' = CHR ''['' # h' @ '']:''"
      using bracket_form_digits [OF b] colon_form_digits [OF f] by simp
    with assms(1,2) show False by (cases h) auto
  qed
  obtain c cs where ds: "ds = c # cs" using assms(5) by (cases ds) auto
  have s: "scheme_split (?a @ path) = (None, ?a @ path)"
    using dropWhile_word_colon [OF assms(3), of c "cs @ path"] slash
    by (intro scheme_split_none) (auto simp: ds)
  have "dissect_spec (?a @ path) = Inr \<lparr>dis_host = h, dis_serv = ds, dis_numeric = True\<rparr>"
    by (rule dissect_spec_port [OF s]) (use assms slash port_split_colon [OF f no] in \<open>auto simp: check_port_def\<close>)
  then show ?thesis by (simp add: UriDissect_dissect_spec)
qed

text \<open>
  \<^verbatim>\<open>host:port\<close> and \<^verbatim>\<open>[host]:port\<close>, each with or without a path behind it, yield that host, that port
  and a numeric service, for every port below 2 to the 16.
\<close>

theorem UriDissect_port:
  assumes "h \<noteq> []" and "CHR ''/'' \<notin> set h" and "list_all is_dot h"
    and "ds \<noteq> []" and "list_all is_digit ds" and "digits_val ds < 2 ^ 16"
    and "path = [] \<or> hd path = CHR ''/''" and "list_all is_dot path"
  shows "UriDissect (CHR ''['' # h @ '']:'' @ ds @ path) = Inr \<lparr>dis_host = h, dis_serv = ds, dis_numeric = True\<rparr>
    \<and> (CHR '':'' \<notin> set h \<and> hd h \<noteq> CHR ''['' \<longrightarrow>
         UriDissect (h @ '':'' @ ds @ path) = Inr \<lparr>dis_host = h, dis_serv = ds, dis_numeric = True\<rparr>)"
  using assms dissect_bracket dissect_colon by blast

theorem UriDissect_port_witness:
  "UriDissect ''[local]:8554/x'' = Inr \<lparr>dis_host = ''local'', dis_serv = ''8554'', dis_numeric = True\<rparr>
   \<and> UriDissect ''local:8554/x'' = Inr \<lparr>dis_host = ''local'', dis_serv = ''8554'', dis_numeric = True\<rparr>"
  using UriDissect_port [of "''local''" "''8554''" "''/x''"]
  by (simp add: is_dot_def is_digit_def digits_val_def digit_val_def)

text \<open>
  With \<^verbatim>\<open>service://authority\<close> the service is the word in front, unless the authority itself ends in a
  port, which then wins.
\<close>

theorem UriDissect_service:
  assumes "w \<noteq> []" and "list_all is_word w" and "a \<noteq> []" and "CHR ''/'' \<notin> set a"
    and "port_split a = None" and "path = [] \<or> hd path = CHR ''/''" and "list_all is_dot path"
  shows "UriDissect (w @ ''://'' @ a @ path) = Inr \<lparr>dis_host = a, dis_serv = w, dis_numeric = False\<rparr>"
proof -
  have w: "takeWhile is_word (w @ ''://'' @ a @ path) = w"
    "dropWhile is_word (w @ ''://'' @ a @ path) = ''://'' @ a @ path"
    using assms(2) by (simp_all add: list_all_iff)
  have "hd a \<noteq> CHR ''/''" using assms(3,4) by (cases a) auto
  then have "scheme_split (w @ ''://'' @ a @ path) = (Some w, a @ path)"
    using assms(1,3) unfolding scheme_split_def w Let_def by simp
  then show ?thesis
    using assms takeWhile_notslash_path [OF assms(4,6)]
    by (simp add: UriDissect_dissect_spec dissect_spec_def split_uri_def)
qed

theorem UriDissect_service_witness:
  "UriDissect ''http://host/index'' = Inr \<lparr>dis_host = ''host'', dis_serv = ''http'', dis_numeric = False\<rparr>"
  using UriDissect_service [of "''http''" "''host''" "''/index''"]
  by (simp add: is_dot_def is_word_def is_digit_def port_split_def)

text \<open>
  C3. The documented form \<^verbatim>\<open>service://\<close> does not name a service: as nothing follows the slashes, the
  word and the colon are taken as the host, and the service is empty.
\<close>

theorem UriDissect_service_only:
  assumes "w \<noteq> []" and "list_all is_word w"
  shows "UriDissect (w @ ''://'') = Inr \<lparr>dis_host = w @ '':'', dis_serv = [], dis_numeric = False\<rparr>"
proof -
  have w: "takeWhile is_word (w @ ''://'') = w" "dropWhile is_word (w @ ''://'') = ''://''"
    using assms(2) by (simp_all add: list_all_iff)
  have s: "scheme_split (w @ ''://'') = (None, w @ ''://'')"
    unfolding scheme_split_def w Let_def by simp
  have "\<forall>c \<in> set w. is_word c" using assms(2) by (simp add: list_all_iff)
  from takeWhile_notslash_word [OF this, of "''://''"]
  have n: "takeWhile notslash (w @ ''://'') = w @ '':''" "dropWhile notslash (w @ ''://'') = ''//''"
    by simp_all
  have "port_split (w @ '':'') = None" by (simp add: port_split_def)
  then show ?thesis
    using s n by (simp add: UriDissect_dissect_spec dissect_spec_def split_uri_def)
qed

theorem UriDissect_service_only_witness:
  "UriDissect ''http://'' = Inr \<lparr>dis_host = ''http:'', dis_serv = [], dis_numeric = False\<rparr>"
  using UriDissect_service_only [of "''http''"] by (simp add: is_word_def is_digit_def)

end
