(* ===== verification/Address.thy ===== *)
theory Address
  imports Uri ErrorCode
begin

unbundle bit_operations_syntax

text \<open>
  \<^verbatim>\<open>src/address_impl.cpp\<close> (views, comparison, look-up, printing), \<^verbatim>\<open>src/address_impl_unix.cpp\<close>,
  \<^verbatim>\<open>src/address_impl_win.cpp\<close> and the wrappers of \<^verbatim>\<open>src/address.cpp\<close>.  The resolver of the C
  library and the layout of its structures are parameters, collected in a record.
\<close>

section \<open>Data\<close>

text \<open>A socket type or protocol of 0 is \<^term>\<open>SOCK_OTHER 0\<close> and \<^term>\<open>IPPROTO_OTHER 0\<close>.\<close>

record addrinfo =
  ai_family :: family
  ai_socktype :: socktype
  ai_protocol :: protocol
  ai_addr :: "byte list"
  ai_addrlen :: nat

record hints =
  hint_family :: family
  hint_passive :: bool
  hint_numericserv :: bool

record ifaddr =
  ifa_addr :: "byte list option"
  ifa_flags :: "32 word"

text \<open>A view is a pointer to memory and the number of bytes that count.\<close>

record sock_addr_view =
  view_addr :: "byte list"
  view_len :: nat

text \<open>The two classes behind \<^verbatim>\<open>Address::AddressImpl\<close>.\<close>

datatype address_impl =
    SockAddrInfo "addrinfo list"
  | SockAddrStorage "byte list" nat

text \<open>
  What the system provides: look-up and printing of addresses with their flags, the length
  limits, the flag of loopback interfaces, and how \<^verbatim>\<open>sa_family\<close> and the port lie in memory.
  \<^verbatim>\<open>getnameinfo\<close> returns the characters it wrote to each of the two buffers, NUL included.
\<close>

record 'w netdb =
  nd_getaddrinfo :: "string \<Rightarrow> string \<Rightarrow> hints \<Rightarrow> 'w \<Rightarrow> (int \<times> addrinfo list) \<times> 'w"
  nd_getnameinfo :: "byte list \<Rightarrow> bool \<Rightarrow> bool \<Rightarrow> 'w \<Rightarrow> (int \<times> string \<times> string) \<times> 'w"
  nd_getifaddrs :: "'w \<Rightarrow> (int \<times> ifaddr list) \<times> 'w"
  nd_family :: "byte list \<Rightarrow> family"
  nd_sin_port :: nat
  nd_sin6_port :: nat
  nd_sizeof_in :: nat
  nd_sizeof_in6 :: nat
  nd_sizeof_storage :: nat
  nd_IFF_LOOPBACK :: "32 word"
  nd_MAXHOST :: nat
  nd_MAXSERV :: nat

abbreviation NUL :: char where
  "NUL \<equiv> CHR 0x00"

text \<open>What a C function sees of a string.\<close>

definition c_str :: "string \<Rightarrow> string" where
  "c_str s = takeWhile (\<lambda>c. c \<noteq> NUL) s"

section \<open>Parsing\<close>

definition no_hints :: hints where
  "no_hints = \<lparr>hint_family = AF_UNSPEC, hint_passive = False, hint_numericserv = False\<rparr>"

definition ParseUri :: "'w netdb \<Rightarrow> string \<Rightarrow> ('w, addrinfo list) exec" where
  "ParseUri nd uri =
     (if uri = [] then throw (InvalidArgument ''empty uri'')
      else case UriDissect uri of
        Inl e \<Rightarrow> throw e
      | Inr d \<Rightarrow>
          andthen (call (nd_getaddrinfo nd (c_str (dis_host d)) (c_str (dis_serv d))
              \<lparr>hint_family = AF_UNSPEC, hint_passive = True, hint_numericserv = dis_numeric d\<rparr>))
            (\<lambda>(result, info).
              if result \<noteq> 0
              then throw (SystemError (AddressError result) (''failed to parse address \"'' @ uri @ ''\"''))
              else ret info))"

definition ParseHostServ :: "'w netdb \<Rightarrow> string \<Rightarrow> string \<Rightarrow> ('w, addrinfo list) exec" where
  "ParseHostServ nd host serv =
     (let lookup =
        andthen (call (nd_getaddrinfo nd (c_str host) (c_str serv) (no_hints\<lparr>hint_passive := True\<rparr>)))
          (\<lambda>(result, info).
            if result \<noteq> 0
            then throw (SystemError (AddressError result)
              (''failed to parse host/port \"'' @ host @ ''\", \"'' @ serv @ ''\"''))
            else ret info)
      in if host = [] then throw (InvalidArgument ''empty host'')
         else if serv = [] then throw (InvalidArgument ''empty service'')
         else if IsServiceNumeric serv
         then (case CheckServiceNumericOutOfRange serv of Inl e \<Rightarrow> throw e | Inr _ \<Rightarrow> lookup)
         else lookup)"

text \<open>\<^verbatim>\<open>std::to_string\<close> of an unsigned number.\<close>

fun decimal :: "nat \<Rightarrow> string" where
  "decimal n = (if n < 10 then [char_of (48 + n)] else decimal (n div 10) @ [char_of (48 + n mod 10)])"

declare decimal.simps [simp del]

definition ParsePort :: "'w netdb \<Rightarrow> 16 word \<Rightarrow> ('w, addrinfo list) exec" where
  "ParsePort nd port =
     (let serv = decimal (unat port)
      in andthen (call (nd_getaddrinfo nd ''localhost'' serv
             \<lparr>hint_family = AF_INET, hint_passive = True, hint_numericserv = True\<rparr>))
           (\<lambda>(result, info).
             if result \<noteq> 0
             then throw (SystemError (AddressError result) (''failed to parse port \"'' @ serv @ ''\"''))
             else ret info))"

definition SockAddrInfo_uri :: "'w netdb \<Rightarrow> string \<Rightarrow> ('w, address_impl) exec" where
  "SockAddrInfo_uri nd uri = andthen (ParseUri nd uri) (\<lambda>info. ret (SockAddrInfo info))"

definition SockAddrInfo_host_serv :: "'w netdb \<Rightarrow> string \<Rightarrow> string \<Rightarrow> ('w, address_impl) exec" where
  "SockAddrInfo_host_serv nd host serv = andthen (ParseHostServ nd host serv) (\<lambda>info. ret (SockAddrInfo info))"

definition SockAddrInfo_port :: "'w netdb \<Rightarrow> 16 word \<Rightarrow> ('w, address_impl) exec" where
  "SockAddrInfo_port nd port = andthen (ParsePort nd port) (\<lambda>info. ret (SockAddrInfo info))"

section \<open>Views\<close>

text \<open>The sign of \<^verbatim>\<open>memcmp\<close>: bytes are compared as unsigned numbers, the first difference decides.\<close>

fun memcmp :: "byte list \<Rightarrow> byte list \<Rightarrow> nat \<Rightarrow> int" where
  "memcmp (a # as) (b # bs) (Suc n) = (if a < b then -1 else if b < a then 1 else memcmp as bs n)"
| "memcmp _ _ _ = 0"

definition SockAddrView_less :: "sock_addr_view \<Rightarrow> sock_addr_view \<Rightarrow> bool" where
  "SockAddrView_less v other \<longleftrightarrow>
     (if view_len v < view_len other then True
      else if view_len v > view_len other then False
      else 0 > memcmp (view_addr v) (view_addr other) (view_len v))"

definition SockAddrView_equal :: "sock_addr_view \<Rightarrow> sock_addr_view \<Rightarrow> bool" where
  "SockAddrView_equal v other \<longleftrightarrow>
     view_len v = view_len other \<and> 0 = memcmp (view_addr v) (view_addr other) (view_len v)"

definition SockAddrView_not_equal :: "sock_addr_view \<Rightarrow> sock_addr_view \<Rightarrow> bool" where
  "SockAddrView_not_equal v other \<longleftrightarrow> \<not> SockAddrView_equal v other"

fun SockAddrInfo_Find :: "socktype \<Rightarrow> protocol \<Rightarrow> addrinfo list \<Rightarrow> addrinfo option" where
  "SockAddrInfo_Find type proto [] = None"
| "SockAddrInfo_Find type proto (it # rest) =
     (if (ai_socktype it = SOCK_OTHER 0 \<or> ai_socktype it = type) \<and>
         (ai_protocol it = IPPROTO_OTHER 0 \<or> ai_protocol it = proto)
      then Some it else SockAddrInfo_Find type proto rest)"

definition info_view :: "addrinfo \<Rightarrow> sock_addr_view" where
  "info_view it = \<lparr>view_addr = ai_addr it, view_len = ai_addrlen it\<rparr>"

text \<open>
  \<^verbatim>\<open>info\<close> is never null when the resolver succeeded; dereferencing a null pointer is modelled like
  a failed assertion.
\<close>

fun ForAny :: "address_impl \<Rightarrow> exn + sock_addr_view" where
  "ForAny (SockAddrInfo (it # _)) = Inr (info_view it)"
| "ForAny (SockAddrInfo []) = Inl AssertFailed"
| "ForAny (SockAddrStorage storage sz) = Inr \<lparr>view_addr = storage, view_len = sz\<rparr>"

fun ForTcp :: "address_impl \<Rightarrow> exn + sock_addr_view" where
  "ForTcp (SockAddrInfo info) =
     (case SockAddrInfo_Find SOCK_STREAM IPPROTO_TCP info of
        Some it \<Rightarrow> Inr (info_view it)
      | None \<Rightarrow> Inl (LogicError ''address is not valid for TCP''))"
| "ForTcp (SockAddrStorage storage sz) = ForAny (SockAddrStorage storage sz)"

fun ForUdp :: "address_impl \<Rightarrow> exn + sock_addr_view" where
  "ForUdp (SockAddrInfo info) =
     (case SockAddrInfo_Find SOCK_DGRAM IPPROTO_UDP info of
        Some it \<Rightarrow> Inr (info_view it)
      | None \<Rightarrow> Inl (LogicError ''address is not valid for UDP''))"
| "ForUdp (SockAddrStorage storage sz) = ForAny (SockAddrStorage storage sz)"

fun AddressImpl_Family :: "'w netdb \<Rightarrow> address_impl \<Rightarrow> exn + family" where
  "AddressImpl_Family nd (SockAddrInfo (it # _)) = Inr (ai_family it)"
| "AddressImpl_Family nd (SockAddrInfo []) = Inl AssertFailed"
| "AddressImpl_Family nd (SockAddrStorage storage sz) = Inr (nd_family nd storage)"

definition SockAddrStorage_empty :: "'w netdb \<Rightarrow> address_impl" where
  "SockAddrStorage_empty nd = SockAddrStorage (replicate (nd_sizeof_storage nd) 0) (nd_sizeof_storage nd)"

text \<open>Writing over the bytes (or characters) from a position on.\<close>

definition overwrite :: "'a list \<Rightarrow> nat \<Rightarrow> 'a list \<Rightarrow> 'a list" where
  "overwrite xs pos ys = take pos xs @ ys @ drop (pos + length ys) xs"

definition SockAddrStorage_copy :: "'w netdb \<Rightarrow> byte list \<Rightarrow> nat \<Rightarrow> address_impl" where
  "SockAddrStorage_copy nd addr addrLen =
     SockAddrStorage (overwrite (replicate (nd_sizeof_storage nd) 0) 0 (take addrLen addr)) addrLen"

text \<open>What a call that fills \<^verbatim>\<open>Addr()\<close> and \<^verbatim>\<open>AddrLen()\<close> leaves in an empty storage.\<close>

definition SockAddrStorage_filled :: "'w netdb \<Rightarrow> byte list \<Rightarrow> address_impl" where
  "SockAddrStorage_filled nd addr =
     SockAddrStorage (overwrite (replicate (nd_sizeof_storage nd) 0) 0 addr) (length addr)"

section \<open>Printing\<close>

text \<open>
  \<^verbatim>\<open>std::string::find\<close> of the NUL character from a position (\<^verbatim>\<open>npos\<close> is \<^const>\<open>None\<close>) and
  \<^verbatim>\<open>std::string::erase\<close>, which throws when the position is behind the end.
\<close>

definition find_nul :: "string \<Rightarrow> nat \<Rightarrow> nat option" where
  "find_nul s pos =
     (let at = pos + length (takeWhile (\<lambda>c. c \<noteq> NUL) (drop pos s))
      in if at < length s then Some at else None)"

definition erase_from :: "string \<Rightarrow> nat option \<Rightarrow> exn + string" where
  "erase_from s pos =
     (case pos of
        Some p \<Rightarrow> if p \<le> length s then Inr (take p s) else Inl (OutOfRange ''basic_string::erase'')
      | None \<Rightarrow> Inl (OutOfRange ''basic_string::erase''))"

definition erase_range :: "string \<Rightarrow> nat option \<Rightarrow> (nat \<Rightarrow> nat) \<Rightarrow> exn + string" where
  "erase_range s pos count =
     (case pos of
        Some p \<Rightarrow> if p \<le> length s then Inr (take p s @ drop (p + count p) s)
                  else Inl (OutOfRange ''basic_string::erase'')
      | None \<Rightarrow> Inl (OutOfRange ''basic_string::erase''))"

definition lift_sum :: "exn + 'a \<Rightarrow> ('w, 'a) exec" where
  "lift_sum r = (case r of Inl e \<Rightarrow> throw e | Inr a \<Rightarrow> ret a)"

lemma lift_sum_simps [simp]: "lift_sum (Inl e) = throw e" "lift_sum (Inr a) = ret a"
  by (simp_all add: lift_sum_def)

lemma leaves_lift_sum [leaves_intros, simp]: "leaves f (lift_sum r)"
  by (cases r) simp_all

definition Host :: "'w netdb \<Rightarrow> address_impl \<Rightarrow> ('w, string) exec" where
  "Host nd a =
     andthen (lift_sum (ForAny a)) (\<lambda>sockAddr.
     andthen (call (nd_getnameinfo nd (take (view_len sockAddr) (view_addr sockAddr)) True False))
       (\<lambda>(result, hostw, _).
         if result \<noteq> 0 then throw (SystemError (AddressError result) ''failed to print host'')
         else let host = overwrite (replicate (nd_MAXHOST nd) NUL) 0 hostw
              in lift_sum (erase_from host (find_nul host 0))))"

definition Service :: "'w netdb \<Rightarrow> address_impl \<Rightarrow> ('w, string) exec" where
  "Service nd a =
     andthen (lift_sum (ForAny a)) (\<lambda>sockAddr.
     andthen (call (nd_getnameinfo nd (take (view_len sockAddr) (view_addr sockAddr)) False True))
       (\<lambda>(result, _, servw).
         if result \<noteq> 0 then throw (SystemError (AddressError result) ''failed to print service'')
         else let service = overwrite (replicate (nd_MAXSERV nd) NUL) 0 servw
              in lift_sum (erase_from service (find_nul service 0))))"

definition IsV6 :: "'w netdb \<Rightarrow> address_impl \<Rightarrow> exn + bool" where
  "IsV6 nd a = (case AddressImpl_Family nd a of Inl e \<Rightarrow> Inl e | Inr f \<Rightarrow> Inr (f = AF_INET6))"

text \<open>The port lies in network byte order; \<^verbatim>\<open>ntohs\<close> yields its value on any machine.\<close>

definition ntohs_at :: "byte list \<Rightarrow> nat \<Rightarrow> 16 word" where
  "ntohs_at bytes off = word_rcat [bytes ! off, bytes ! Suc off]"

definition Port :: "'w netdb \<Rightarrow> address_impl \<Rightarrow> exn + 16 word" where
  "Port nd a =
     (case ForAny a of
        Inl e \<Rightarrow> Inl e
      | Inr sockAddr \<Rightarrow>
          (case IsV6 nd a of
             Inl e \<Rightarrow> Inl e
           | Inr v6 \<Rightarrow> Inr (ntohs_at (view_addr sockAddr) (if v6 then nd_sin6_port nd else nd_sin_port nd))))"

definition to_string_view :: "'w netdb \<Rightarrow> sock_addr_view \<Rightarrow> ('w, string) exec" where
  "to_string_view nd sockAddr =
     (let str = replicate (nd_MAXHOST nd + nd_MAXSERV nd + 3) NUL;
          isV6 = nd_family nd (view_addr sockAddr) \<noteq> AF_INET;
          (str, host, serv) =
            (if isV6 then (str[0 := CHR ''[''], 1, nd_MAXHOST nd + 1 + 2) else (str, 0, nd_MAXHOST nd + 1))
      in andthen (call (nd_getnameinfo nd (take (view_len sockAddr) (view_addr sockAddr)) True True))
           (\<lambda>(result, hostw, servw).
             if result \<noteq> 0 then throw (SystemError (AddressError result) ''failed to print address'')
             else let str = overwrite (overwrite str host hostw) serv servw
                  in andthen (lift_sum (erase_from str (find_nul str serv))) (\<lambda>str.
                     let serv = serv - 1; str = str[serv := CHR '':''];
                         (serv, str) = (if isV6 then (serv - 1, str[serv - 1 := CHR '']'']) else (serv, str))
                     in lift_sum (erase_range str (find_nul str host) (\<lambda>host. nat ((int serv - int host) mod 2 ^ 64))))))"

definition to_string_impl :: "'w netdb \<Rightarrow> address_impl \<Rightarrow> ('w, string) exec" where
  "to_string_impl nd a = andthen (lift_sum (ForAny a)) (to_string_view nd)"

section \<open>Comparing and hashing\<close>

definition lift2 :: "('a \<Rightarrow> 'a \<Rightarrow> 'b) \<Rightarrow> exn + 'a \<Rightarrow> exn + 'a \<Rightarrow> exn + 'b" where
  "lift2 f x y = (case x of Inl e \<Rightarrow> Inl e | Inr a \<Rightarrow> (case y of Inl e \<Rightarrow> Inl e | Inr b \<Rightarrow> Inr (f a b)))"

definition AddressImpl_less :: "address_impl \<Rightarrow> address_impl \<Rightarrow> exn + bool" where
  "AddressImpl_less a other = lift2 SockAddrView_less (ForAny a) (ForAny other)"

definition AddressImpl_equal :: "address_impl \<Rightarrow> address_impl \<Rightarrow> exn + bool" where
  "AddressImpl_equal a other = lift2 SockAddrView_equal (ForAny a) (ForAny other)"

definition AddressImpl_not_equal :: "address_impl \<Rightarrow> address_impl \<Rightarrow> exn + bool" where
  "AddressImpl_not_equal a other = lift2 SockAddrView_not_equal (ForAny a) (ForAny other)"

text \<open>The hash of a byte string and of a null pointer come from the standard library.\<close>

definition hash_impl :: "(byte list \<Rightarrow> 64 word) \<Rightarrow> address_impl \<Rightarrow> exn + 64 word" where
  "hash_impl hash_bytes a =
     (case ForAny a of
        Inl e \<Rightarrow> Inl e
      | Inr sockAddr \<Rightarrow> Inr (hash_bytes (take (view_len sockAddr) (view_addr sockAddr))))"

section \<open>The class Address\<close>

text \<open>
  An \<^verbatim>\<open>Address\<close> is a shared pointer to one of the two classes, null after it was moved from.
\<close>

type_synonym address = "address_impl option"

definition deref :: "address \<Rightarrow> (address_impl \<Rightarrow> exn + 'b) \<Rightarrow> exn + 'b" where
  "deref p f = (case p of Some a \<Rightarrow> f a | None \<Rightarrow> Inl AssertFailed)"

definition Address_uri :: "'w netdb \<Rightarrow> string \<Rightarrow> ('w, address) exec" where
  "Address_uri nd uri = andthen (SockAddrInfo_uri nd uri) (\<lambda>a. ret (Some a))"

definition Address_host_serv :: "'w netdb \<Rightarrow> string \<Rightarrow> string \<Rightarrow> ('w, address) exec" where
  "Address_host_serv nd host service = andthen (SockAddrInfo_host_serv nd host service) (\<lambda>a. ret (Some a))"

definition Address_port :: "'w netdb \<Rightarrow> 16 word \<Rightarrow> ('w, address) exec" where
  "Address_port nd port = andthen (SockAddrInfo_port nd port) (\<lambda>a. ret (Some a))"

definition Address_less :: "address \<Rightarrow> address \<Rightarrow> exn + bool" where
  "Address_less x y = deref x (\<lambda>a. deref y (AddressImpl_less a))"

definition Address_equal :: "address \<Rightarrow> address \<Rightarrow> exn + bool" where
  "Address_equal x y = deref x (\<lambda>a. deref y (AddressImpl_equal a))"

definition Address_not_equal :: "address \<Rightarrow> address \<Rightarrow> exn + bool" where
  "Address_not_equal x y = deref x (\<lambda>a. deref y (AddressImpl_not_equal a))"

definition Address_Port :: "'w netdb \<Rightarrow> address \<Rightarrow> exn + 16 word" where
  "Address_Port nd x = deref x (Port nd)"

definition Address_IsV6 :: "'w netdb \<Rightarrow> address \<Rightarrow> exn + bool" where
  "Address_IsV6 nd x = deref x (IsV6 nd)"

definition Address_Host :: "'w netdb \<Rightarrow> address \<Rightarrow> ('w, string) exec" where
  "Address_Host nd x = (case x of Some a \<Rightarrow> Host nd a | None \<Rightarrow> throw AssertFailed)"

definition Address_Service :: "'w netdb \<Rightarrow> address \<Rightarrow> ('w, string) exec" where
  "Address_Service nd x = (case x of Some a \<Rightarrow> Service nd a | None \<Rightarrow> throw AssertFailed)"

definition Address_to_string :: "'w netdb \<Rightarrow> address \<Rightarrow> ('w, string) exec" where
  "Address_to_string nd x = (case x of Some a \<Rightarrow> to_string_impl nd a | None \<Rightarrow> throw AssertFailed)"

definition Address_hash :: "(byte list \<Rightarrow> 64 word) \<Rightarrow> 64 word \<Rightarrow> address \<Rightarrow> exn + 64 word" where
  "Address_hash hash_bytes hash_null x = (case x of None \<Rightarrow> Inr hash_null | Some a \<Rightarrow> hash_impl hash_bytes a)"

section \<open>Local addresses\<close>

definition GetIfAddrs :: "'w os \<Rightarrow> 'w netdb \<Rightarrow> ('w, ifaddr list) exec" where
  "GetIfAddrs os nd =
     andthen (call (nd_getifaddrs nd)) (\<lambda>(result, addrs).
       if result \<noteq> 0 then throw_system os ''failed to get local interface addresses'' else ret addrs)"

fun local_addresses :: "'w netdb \<Rightarrow> ifaddr list \<Rightarrow> address list" where
  "local_addresses nd [] = []"
| "local_addresses nd (it # rest) =
     (case ifa_addr it of
        None \<Rightarrow> []
      | Some addr \<Rightarrow>
          if ifa_flags it AND nd_IFF_LOOPBACK nd = 0
          then if nd_family nd addr = AF_INET then [Some (SockAddrStorage_copy nd addr (nd_sizeof_in nd))]
               else if nd_family nd addr = AF_INET6 then [Some (SockAddrStorage_copy nd addr (nd_sizeof_in6 nd))]
               else []
          else [])
     @ local_addresses nd rest"

definition LocalAddresses :: "'w os \<Rightarrow> 'w netdb \<Rightarrow> ('w, address list) exec" where
  "LocalAddresses os nd = andthen (GetIfAddrs os nd) (\<lambda>ifAddrs. ret (local_addresses nd ifAddrs))"

text \<open>The Windows version asks the resolver for a special host name.\<close>

definition LocalAddresses_win :: "'w netdb \<Rightarrow> ('w, address list) exec" where
  "LocalAddresses_win nd =
     andthen (ParseUri nd ''..localmachine'') (\<lambda>info.
       ret (map (\<lambda>it. Some (SockAddrStorage_copy nd (ai_addr it) (ai_addrlen it))) info))"

end
