(* ===== verification/AddressSpec.thy ===== *)
theory AddressSpec
  imports Address Script
begin

text \<open>
  What the address model satisfies: the printed form and its way back through the parser, the
  order on addresses, hashing, and the choice among resolved addresses.
\<close>

section \<open>Buffers\<close>

lemma overwrite_nul:
  assumes "length t < n"
  shows "overwrite (pre @ replicate n NUL) (length pre) (t @ [NUL]) = pre @ t @ replicate (n - length t) NUL"
proof -
  have "n - length t = Suc (n - Suc (length t))" using assms by simp
  then show ?thesis by (simp add: overwrite_def del: replicate_Suc) (simp add: replicate_Suc)
qed

lemma find_nul_at:
  "NUL \<notin> set t \<Longrightarrow> find_nul (pre @ t @ NUL # post) (length pre) = Some (length pre + length t)"
proof -
  assume "NUL \<notin> set t"
  then have "takeWhile (\<lambda>c. c \<noteq> NUL) (t @ NUL # post) = t"
    by (induction t) auto
  then show ?thesis by (simp add: find_nul_def)
qed

text \<open>A buffer with a text in front of zeros, cut behind the text.\<close>

lemma erase_nul_tail:
  assumes "NUL \<notin> set t" and "0 < n"
  shows "erase_from (pre @ t @ replicate n NUL) (find_nul (pre @ t @ replicate n NUL) (length pre)) = Inr (pre @ t)"
proof -
  obtain m where n: "n = Suc m" using assms(2) by (cases n) auto
  have "find_nul (pre @ t @ NUL # replicate m NUL) (length pre) = Some (length pre + length t)"
    using assms(1) by (rule find_nul_at)
  then show ?thesis by (simp add: erase_from_def n)
qed

text \<open>A gap of zeros between a text and the rest, closed.\<close>

lemma erase_gap:
  assumes "NUL \<notin> set t" and "0 < n" and "count (length pre + length t) = n"
  shows "erase_range (pre @ t @ replicate n NUL @ rest) (find_nul (pre @ t @ replicate n NUL @ rest) (length pre)) count
    = Inr (pre @ t @ rest)"
proof -
  obtain m where n: "n = Suc m" using assms(2) by (cases n) auto
  have "find_nul (pre @ t @ NUL # (replicate m NUL @ rest)) (length pre) = Some (length pre + length t)"
    using assms(1) by (rule find_nul_at)
  then show ?thesis using assms(3) by (simp add: erase_range_def n)
qed


lemma write_host_serv:
  assumes "length s < n" and "length h \<le> k"
  shows "overwrite (overwrite (pre @ replicate (k + n) NUL) (length pre) (h @ [NUL])) (length pre + k) (s @ [NUL])
    = pre @ h @ replicate (k - length h) NUL @ s @ replicate (n - length s) NUL"
proof -
  have gap: "replicate (k + n - length h) NUL = replicate (k - length h) NUL @ replicate n NUL"
    using assms(2) by (simp flip: replicate_add)
  have "overwrite (pre @ replicate (k + n) NUL) (length pre) (h @ [NUL])
      = (pre @ h @ replicate (k - length h) NUL) @ replicate n NUL"
    using overwrite_nul [of h "k + n" pre] assms by (simp add: gap)
  moreover have "length pre + k = length (pre @ h @ replicate (k - length h) NUL)" using assms(2) by simp
  ultimately show ?thesis
    using overwrite_nul [OF assms(1), of "pre @ h @ replicate (k - length h) NUL"] by (simp only: append_assoc)
qed

section \<open>Printing\<close>

lemma to_string_view_buffer_v4:
  assumes "nd_getnameinfo nd (take (view_len v) (view_addr v)) True True w = ((0, hostw, servw), w')"
    and "nd_family nd (view_addr v) = AF_INET"
  defines "buf \<equiv> overwrite (overwrite (replicate (nd_MAXHOST nd + nd_MAXSERV nd + 3) NUL) 0 hostw)
      (Suc (nd_MAXHOST nd)) servw"
  shows "to_string_view nd v w =
    andthen (lift_sum (erase_from buf (find_nul buf (Suc (nd_MAXHOST nd))))) (\<lambda>str.
      lift_sum (erase_range (str[nd_MAXHOST nd := CHR '':'']) (find_nul (str[nd_MAXHOST nd := CHR '':'']) 0)
        (\<lambda>host. nat ((int (nd_MAXHOST nd) - int host) mod 2 ^ 64)))) w'"
  using assms(1,2) by (simp add: to_string_view_def buf_def Let_def)

lemma to_string_view_buffer_v6:
  assumes "nd_getnameinfo nd (take (view_len v) (view_addr v)) True True w = ((0, hostw, servw), w')"
    and "nd_family nd (view_addr v) \<noteq> AF_INET"
  defines "buf \<equiv> overwrite (overwrite ((replicate (nd_MAXHOST nd + nd_MAXSERV nd + 3) NUL)[0 := CHR ''['']) 1 hostw)
      (nd_MAXHOST nd + 3) servw"
  shows "to_string_view nd v w =
    andthen (lift_sum (erase_from buf (find_nul buf (nd_MAXHOST nd + 3)))) (\<lambda>str.
      lift_sum (erase_range (str[nd_MAXHOST nd + 2 := CHR '':'', nd_MAXHOST nd + 1 := CHR '']''])
        (find_nul (str[nd_MAXHOST nd + 2 := CHR '':'', nd_MAXHOST nd + 1 := CHR '']'']) 1)
        (\<lambda>host. nat ((int (nd_MAXHOST nd + 1) - int host) mod 2 ^ 64)))) w'"
  using assms(1,2) by (simp add: to_string_view_def buf_def Let_def numeral_3_eq_3)

lemma to_string_view_v4:
  assumes gni: "nd_getnameinfo nd (take (view_len v) (view_addr v)) True True w = ((0, h @ [NUL], s @ [NUL]), w')"
    and fam: "nd_family nd (view_addr v) = AF_INET"
    and h: "NUL \<notin> set h" "length h < nd_MAXHOST nd" and s: "NUL \<notin> set s" "length s < nd_MAXSERV nd"
    and H: "nd_MAXHOST nd < 2 ^ 63"
  shows "to_string_view nd v w = (Inr (h @ '':'' @ s), w')"
proof -
  define H S where "H = nd_MAXHOST nd" and "S = nd_MAXSERV nd"
  have lim: "length h < H" "length s < S" "H < 2 ^ 63" using h s H by (simp_all add: H_def S_def)
  have sz: "H + S + 3 = Suc H + (S + 2)" by simp
  have buf: "overwrite (overwrite (replicate (H + S + 3) NUL) 0 (h @ [NUL])) (Suc H) (s @ [NUL])
      = (h @ replicate (Suc H - length h) NUL) @ s @ replicate (S + 2 - length s) NUL"
    unfolding sz using write_host_serv [where pre = "[]" and k = "Suc H" and n = "S + 2" and h = h and s = s] lim(1,2)
    by simp
  have cut: "erase_from ((h @ replicate (Suc H - length h) NUL) @ s @ replicate (S + 2 - length s) NUL)
      (find_nul ((h @ replicate (Suc H - length h) NUL) @ s @ replicate (S + 2 - length s) NUL) (Suc H))
      = Inr ((h @ replicate (Suc H - length h) NUL) @ s)"
    using erase_nul_tail [OF s(1), of "S + 2 - length s" "h @ replicate (Suc H - length h) NUL"] lim by simp
  have "replicate (Suc H - length h) NUL = replicate (H - length h) NUL @ [NUL]"
    using lim by (simp add: Suc_diff_le replicate_append_same)
  then have colon: "((h @ replicate (Suc H - length h) NUL) @ s)[H := CHR '':'']
      = h @ replicate (H - length h) NUL @ '':'' @ s"
    using lim by (simp add: list_update_append)
  have "(int H - int (length h)) mod 2 ^ 64 = int (H - length h)" using lim by (simp add: of_nat_diff)
  then have gap: "erase_range (h @ replicate (H - length h) NUL @ '':'' @ s)
      (find_nul (h @ replicate (H - length h) NUL @ '':'' @ s) 0) (\<lambda>host. nat ((int H - int host) mod 2 ^ 64))
      = Inr (h @ '':'' @ s)"
    using erase_gap [OF h(1), of "H - length h" "\<lambda>host. nat ((int H - int host) mod 2 ^ 64)" "[]" "'':'' @ s"] lim
    by simp
  show ?thesis
    unfolding to_string_view_buffer_v4 [OF gni fam, folded H_def S_def]
      buf cut lift_sum_simps andthen_ret colon gap by simp
qed

lemma to_string_view_v6:
  assumes gni: "nd_getnameinfo nd (take (view_len v) (view_addr v)) True True w = ((0, h @ [NUL], s @ [NUL]), w')"
    and fam: "nd_family nd (view_addr v) \<noteq> AF_INET"
    and h: "NUL \<notin> set h" "length h < nd_MAXHOST nd" and s: "NUL \<notin> set s" "length s < nd_MAXSERV nd"
    and H: "nd_MAXHOST nd < 2 ^ 63"
  shows "to_string_view nd v w = (Inr (CHR ''['' # h @ '']:'' @ s), w')"
proof -
  define H S where "H = nd_MAXHOST nd" and "S = nd_MAXSERV nd"
  have lim: "length h < H" "length s < S" "H < 2 ^ 63" using h s H by (simp_all add: H_def S_def)
  have sz: "H + S + 3 = Suc ((H + 2) + S)" by simp
  have buf: "overwrite (overwrite ((replicate (H + S + 3) NUL)[0 := CHR ''['']) 1 (h @ [NUL])) (H + 3) (s @ [NUL])
      = (CHR ''['' # h @ replicate (H + 2 - length h) NUL) @ s @ replicate (S - length s) NUL"
    unfolding sz using write_host_serv [where pre = "''[''" and k = "H + 2" and n = S and h = h and s = s] lim(1,2)
    by (simp add: numeral_3_eq_3)
  have cut: "erase_from ((CHR ''['' # h @ replicate (H + 2 - length h) NUL) @ s @ replicate (S - length s) NUL)
      (find_nul ((CHR ''['' # h @ replicate (H + 2 - length h) NUL) @ s @ replicate (S - length s) NUL) (H + 3))
      = Inr ((CHR ''['' # h @ replicate (H + 2 - length h) NUL) @ s)"
    using erase_nul_tail [OF s(1), of "S - length s" "CHR ''['' # h @ replicate (H + 2 - length h) NUL"] lim
    by (simp add: numeral_3_eq_3)
  have "H + 2 - length h = (H - length h) + 2" using lim by simp
  then have two: "replicate (H + 2 - length h) NUL = replicate (H - length h) NUL @ [NUL, NUL]"
    by (simp add: replicate_app_Cons_same)
  have colon: "((CHR ''['' # h @ replicate (H + 2 - length h) NUL) @ s)[H + 2 := CHR '':'', H + 1 := CHR '']'']
      = ''['' @ h @ replicate (H - length h) NUL @ '']:'' @ s"
    unfolding two using lim(1,2) by (simp add: list_update_append)
  have "(int (H + 1) - int (1 + length h)) mod 2 ^ 64 = int (H - length h)" using lim by (simp add: of_nat_diff)
  then have gap: "erase_range (''['' @ h @ replicate (H - length h) NUL @ '']:'' @ s)
      (find_nul (''['' @ h @ replicate (H - length h) NUL @ '']:'' @ s) 1) (\<lambda>host. nat ((int (H + 1) - int host) mod 2 ^ 64))
      = Inr (''['' @ h @ '']:'' @ s)"
    using erase_gap [OF h(1), of "H - length h" "\<lambda>host. nat ((int (H + 1) - int host) mod 2 ^ 64)" "''[''" "'']:'' @ s"] lim
    by simp
  show ?thesis
    unfolding to_string_view_buffer_v6 [OF gni fam, folded H_def S_def]
      buf cut lift_sum_simps andthen_ret colon gap by simp
qed

definition printed :: "family \<Rightarrow> string \<Rightarrow> string \<Rightarrow> string" where
  "printed fam h s = (if fam = AF_INET then h @ '':'' @ s else CHR ''['' # h @ '']:'' @ s)"

lemma to_string_view_printed:
  assumes "nd_getnameinfo nd (take (view_len v) (view_addr v)) True True w = ((0, h @ [NUL], s @ [NUL]), w')"
    and "NUL \<notin> set h" "length h < nd_MAXHOST nd" "NUL \<notin> set s" "length s < nd_MAXSERV nd"
    and "nd_MAXHOST nd < 2 ^ 63"
  shows "to_string_view nd v w = (Inr (printed (nd_family nd (view_addr v)) h s), w')"
  using to_string_view_v4 [OF assms(1) _ assms(2-6)] to_string_view_v6 [OF assms(1) _ assms(2-6)]
  by (simp add: printed_def)

subsection \<open>Numbers\<close>

lemma digit_chars:
  "list_all (\<lambda>n. is_digit (char_of (48 + n)) \<and> digit_val (char_of (48 + n)) = int n) [0..<10]"
  by code_simp

lemma digit_char:
  "n < 10 \<Longrightarrow> is_digit (char_of (48 + n))" "n < 10 \<Longrightarrow> digit_val (char_of (48 + n)) = int n"
  using digit_chars by (simp_all add: list_all_iff)

lemma decimal_digits: "decimal n \<noteq> [] \<and> list_all is_digit (decimal n)"
proof (induction n rule: decimal.induct)
  case (1 n)
  then show ?case by (subst (1 2) decimal.simps) (simp add: digit_char)
qed

lemma is_digit_NUL [simp]: "\<not> is_digit NUL"
  by (simp add: is_digit_def)

lemma digits_no_NUL: "list_all is_digit ds \<Longrightarrow> NUL \<notin> set ds"
  by (auto simp: list_all_iff)

lemma digits_val_snoc: "digits_val (ds @ [c]) = 10 * digits_val ds + digit_val c"
  by (simp add: digits_val_def)

lemma digits_val_decimal: "digits_val (decimal n) = int n"
proof (induction n rule: decimal.induct)
  case (1 n)
  show ?case
  proof (cases "n < 10")
    case True
    then show ?thesis by (subst decimal.simps) (simp add: digits_val_def digit_char)
  next
    case False
    then have "decimal n = decimal (n div 10) @ [char_of (48 + n mod 10)]" by (subst decimal.simps) simp
    with 1 False show ?thesis by (simp add: digits_val_snoc digit_char zdiv_int zmod_int)
  qed
qed

subsection \<open>Properties of printing\<close>

text \<open>
  An address is printed as \<^verbatim>\<open>host:service\<close>, an address that is not IPv4 with brackets around the host:
  moving the pieces around in the fixed buffer, whatever their lengths, leaves exactly this text.
\<close>

theorem to_string_format:
  assumes "nd_getnameinfo nd (take (view_len v) (view_addr v)) True True w = ((0, h @ [NUL], s @ [NUL]), w')"
    and "NUL \<notin> set h" and "length h < nd_MAXHOST nd" and "NUL \<notin> set s" and "length s < nd_MAXSERV nd"
    and "nd_MAXHOST nd < 2 ^ 63"
  shows "to_string_view nd v w =
    (Inr (if nd_family nd (view_addr v) = AF_INET then h @ '':'' @ s else CHR ''['' # h @ '']:'' @ s), w')"
  using to_string_view_printed [OF assms] by (simp add: printed_def)

text \<open>A resolver for evaluation: it prints every address as a fixed host and port and knows one name.\<close>

definition test_netdb :: "unit netdb" where
  "test_netdb = \<lparr>
     nd_getaddrinfo = (\<lambda>h s hints w.
       (if h = ''localhost'' \<or> h = ''::1''
        then (0, [\<lparr>ai_family = AF_INET6, ai_socktype = SOCK_STREAM, ai_protocol = IPPROTO_TCP,
                   ai_addr = [10, 0, 0x1F, 0x90], ai_addrlen = 4\<rparr>])
        else (-2, []), w)),
     nd_getnameinfo = (\<lambda>a bh bs w. ((0, ''::1'' @ [NUL], ''8080'' @ [NUL]), w)),
     nd_getifaddrs = (\<lambda>w. ((0, [\<lparr>ifa_addr = None, ifa_flags = 0\<rparr>, \<lparr>ifa_addr = Some [2, 0, 0, 0], ifa_flags = 8\<rparr>,
         \<lparr>ifa_addr = Some [2, 0, 0, 7], ifa_flags = 1\<rparr>, \<lparr>ifa_addr = Some [10, 0, 0, 9], ifa_flags = 1\<rparr>]), w)),
     nd_family = (\<lambda>a. case a of [] \<Rightarrow> AF_UNSPEC | b # _ \<Rightarrow> if b = 2 then AF_INET else if b = 10 then AF_INET6 else AF_UNSPEC),
     nd_sin_port = 2, nd_sin6_port = 2, nd_sizeof_in = 4, nd_sizeof_in6 = 4, nd_sizeof_storage = 8,
     nd_IFF_LOOPBACK = 8, nd_MAXHOST = 16, nd_MAXSERV = 8\<rparr>"

theorem to_string_format_witness:
  "to_string_view test_netdb \<lparr>view_addr = [10, 0, 0x1F, 0x90], view_len = 4\<rparr> () = (Inr ''[::1]:8080'', ())"
  using to_string_format [of test_netdb "\<lparr>view_addr = [10, 0, 0x1F, 0x90], view_len = 4\<rparr>" "()" "''::1''" "''8080''" "()"]
  by (simp add: test_netdb_def)

text \<open>
  C25. Round trip: whatever address is printed, with a numeric port, the parser splits the text into the
  same host and port again, and marks the service numeric.
\<close>

theorem to_string_UriDissect:
  assumes "nd_getnameinfo nd (take (view_len v) (view_addr v)) True True w = ((0, h @ [NUL], decimal (unat port) @ [NUL]), w')"
    and "NUL \<notin> set h" and "length h < nd_MAXHOST nd" and "length (decimal (unat port)) < nd_MAXSERV nd"
    and "nd_MAXHOST nd < 2 ^ 63"
    and "h \<noteq> []" and "CHR ''/'' \<notin> set h" and "list_all is_dot h"
    and "nd_family nd (view_addr v) = AF_INET \<Longrightarrow> CHR '':'' \<notin> set h \<and> hd h \<noteq> CHR ''[''"
  shows "\<exists>str. to_string_view nd v w = (Inr str, w') \<and>
    UriDissect str = Inr \<lparr>dis_host = h, dis_serv = decimal (unat (port :: 16 word)), dis_numeric = True\<rparr>"
proof -
  let ?s = "decimal (unat port)"
  have s: "?s \<noteq> []" "list_all is_digit ?s" using decimal_digits by auto
  have "NUL \<notin> set ?s" using s(2) by (rule digits_no_NUL)
  then have "to_string_view nd v w = (Inr (printed (nd_family nd (view_addr v)) h ?s), w')"
    by (intro to_string_view_printed assms(1-5))
  moreover have small: "digits_val ?s < 2 ^ 16"
    using uint_lt2p [of port] by (simp add: digits_val_decimal)
  have "UriDissect (printed (nd_family nd (view_addr v)) h ?s) = Inr \<lparr>dis_host = h, dis_serv = ?s, dis_numeric = True\<rparr>"
  proof (cases "nd_family nd (view_addr v) = AF_INET")
    case True
    then show ?thesis
      using dissect_colon [of h ?s "[]", OF assms(6) _ _ assms(7) s small] assms(9) by (simp add: printed_def)
  next
    case False
    then show ?thesis
      using dissect_bracket [of h ?s "[]", OF assms(8,7) s small] by (simp add: printed_def)
  qed
  ultimately show ?thesis by blast
qed

theorem to_string_UriDissect_witness:
  "\<exists>str. to_string_view test_netdb \<lparr>view_addr = [10, 0, 0x1F, 0x90], view_len = 4\<rparr> () = (Inr str, ()) \<and>
    UriDissect str = Inr \<lparr>dis_host = ''::1'', dis_serv = decimal (unat (8080 :: 16 word)), dis_numeric = True\<rparr>"
proof -
  have port: "unat (8080 :: 16 word) = 8080" by simp
  have d: "decimal 8080 = ''8080''" by (simp add: decimal.simps) code_simp
  show ?thesis
    by (rule to_string_UriDissect) (simp_all add: port d test_netdb_def is_dot_def)
qed

section \<open>The order on addresses\<close>

text \<open>
  What an address is compared by: the bytes that count, ordered by their number first and then
  lexicographically.
\<close>

datatype saddr = SAddr (saddr_bytes: "byte list")

instantiation saddr :: linorder
begin

definition less_saddr :: "saddr \<Rightarrow> saddr \<Rightarrow> bool" where
  "less_saddr a b \<longleftrightarrow>
     length (saddr_bytes a) < length (saddr_bytes b) \<or>
     length (saddr_bytes a) = length (saddr_bytes b) \<and> ord_class.lexordp (saddr_bytes a) (saddr_bytes b)"

definition less_eq_saddr :: "saddr \<Rightarrow> saddr \<Rightarrow> bool" where
  "less_eq_saddr a b \<longleftrightarrow> a = b \<or> a < b"

instance
proof
  fix a b c :: saddr
  show less: "(a < b) = (a \<le> b \<and> \<not> b \<le> a)"
    by (cases a; cases b) (auto simp: less_saddr_def less_eq_saddr_def lexordp_irreflexive' dest: lexordp_antisym)
  show "a \<le> a" by (simp add: less_eq_saddr_def)
  show "a \<le> b \<Longrightarrow> b \<le> c \<Longrightarrow> a \<le> c"
    by (auto simp: less_saddr_def less_eq_saddr_def dest: lexordp_trans)
  show "a \<le> b \<Longrightarrow> b \<le> a \<Longrightarrow> a = b"
    by (auto simp: less_saddr_def less_eq_saddr_def dest: lexordp_antisym)
  show "a \<le> b \<or> b \<le> a"
    using lexordp_linear [of "saddr_bytes a" "saddr_bytes b"]
    by (cases a; cases b) (auto simp: less_saddr_def less_eq_saddr_def)
qed

end

definition view_valid :: "sock_addr_view \<Rightarrow> bool" where
  "view_valid v \<longleftrightarrow> view_len v \<le> length (view_addr v)"

definition view_key :: "sock_addr_view \<Rightarrow> saddr" where
  "view_key v = SAddr (take (view_len v) (view_addr v))"

lemma memcmp_sign:
  "n \<le> length as \<Longrightarrow> n \<le> length bs \<Longrightarrow>
     (memcmp as bs n < 0 \<longleftrightarrow> ord_class.lexordp (take n as) (take n bs)) \<and>
     (0 = memcmp as bs n \<longleftrightarrow> take n as = take n bs)"
  by (induction as bs n rule: memcmp.induct) (auto simp: not_less_iff_gr_or_eq)

lemma view_order:
  assumes "view_valid v" and "view_valid u"
  shows "SockAddrView_less v u \<longleftrightarrow> view_key v < view_key u"
    and "SockAddrView_equal v u \<longleftrightarrow> view_key v = view_key u"
proof -
  have len: "length (saddr_bytes (view_key v)) = view_len v" "length (saddr_bytes (view_key u)) = view_len u"
    using assms by (simp_all add: view_key_def view_valid_def)
  show "SockAddrView_less v u \<longleftrightarrow> view_key v < view_key u"
    using memcmp_sign [of "view_len v" "view_addr v" "view_addr u"] assms
    by (auto simp: SockAddrView_less_def less_saddr_def len view_key_def view_valid_def)
  show "SockAddrView_equal v u \<longleftrightarrow> view_key v = view_key u"
  proof (cases "view_len v = view_len u")
    case True
    then show ?thesis
      using memcmp_sign [of "view_len v" "view_addr v" "view_addr u"] assms
      by (simp add: SockAddrView_equal_def view_key_def view_valid_def)
  next
    case False
    then show ?thesis using len by (auto simp: SockAddrView_equal_def)
  qed
qed

text \<open>The addresses that the constructors make are valid: no comparison reads behind their bytes.\<close>

fun impl_valid :: "address_impl \<Rightarrow> bool" where
  "impl_valid (SockAddrInfo info) \<longleftrightarrow> info \<noteq> [] \<and> (\<forall>it \<in> set info. ai_addrlen it \<le> length (ai_addr it))"
| "impl_valid (SockAddrStorage storage sz) \<longleftrightarrow> sz \<le> length storage"

definition impl_key :: "address_impl \<Rightarrow> saddr" where
  "impl_key a = (case ForAny a of Inr v \<Rightarrow> view_key v | Inl _ \<Rightarrow> SAddr [])"

lemma ForAny_valid: "impl_valid a \<Longrightarrow> \<exists>v. ForAny a = Inr v \<and> view_valid v \<and> impl_key a = view_key v"
  by (cases a rule: ForAny.cases) (auto simp: view_valid_def info_view_def impl_key_def)

lemma impl_compare:
  assumes "impl_valid a" and "impl_valid b"
  shows "AddressImpl_less a b = Inr (impl_key a < impl_key b)"
    and "AddressImpl_equal a b = Inr (impl_key a = impl_key b)"
    and "AddressImpl_not_equal a b = Inr (impl_key a \<noteq> impl_key b)"
    and "hash_impl hash_bytes a = Inr (hash_bytes (saddr_bytes (impl_key a)))"
proof -
  obtain v u where v: "ForAny a = Inr v" "view_valid v" "impl_key a = view_key v"
    and u: "ForAny b = Inr u" "view_valid u" "impl_key b = view_key u"
    using ForAny_valid [OF assms(1)] ForAny_valid [OF assms(2)] by blast
  then show "AddressImpl_less a b = Inr (impl_key a < impl_key b)"
    and "AddressImpl_equal a b = Inr (impl_key a = impl_key b)"
    and "AddressImpl_not_equal a b = Inr (impl_key a \<noteq> impl_key b)"
    and "hash_impl hash_bytes a = Inr (hash_bytes (saddr_bytes (impl_key a)))"
    using view_order [of v u]
    by (simp_all add: AddressImpl_less_def AddressImpl_equal_def AddressImpl_not_equal_def lift2_def
        SockAddrView_not_equal_def hash_impl_def view_key_def)
qed

text \<open>
  C26. The comparison operators of addresses implement a total order on the bytes that count: \<^verbatim>\<open><\<close>, \<^verbatim>\<open>==\<close>
  and \<^verbatim>\<open>!=\<close> agree with the linear order \<^typ>\<open>saddr\<close>, so addresses can be keys of ordered containers.
\<close>

theorem Address_order:
  assumes "impl_valid a" and "impl_valid b"
  shows "Address_less (Some a) (Some b) = Inr (impl_key a < impl_key b)
    \<and> Address_equal (Some a) (Some b) = Inr (impl_key a = impl_key b)
    \<and> Address_not_equal (Some a) (Some b) = Inr (impl_key a \<noteq> impl_key b)"
  using impl_compare [OF assms] by (simp add: Address_less_def Address_equal_def Address_not_equal_def deref_def)

theorem Address_order_witness:
  "Address_less (Some (SockAddrStorage [2, 0, 1, 0] 3)) (Some (SockAddrStorage [2, 0, 2, 0] 3))
     = Inr (impl_key (SockAddrStorage [2, 0, 1, 0] 3) < impl_key (SockAddrStorage [2, 0, 2, 0] 3))
   \<and> impl_key (SockAddrStorage [2, 0, 1, 0] 3) < impl_key (SockAddrStorage [2, 0, 2, 0] 3)"
  using Address_order [of "SockAddrStorage [2, 0, 1, 0] 3" "SockAddrStorage [2, 0, 2, 0] 3"]
  by (simp add: impl_key_def view_key_def less_saddr_def numeral_3_eq_3)

text \<open>
  Equal addresses have equal hashes, as unordered containers need, also when one is a look-up result
  and the other was copied from a socket.
\<close>

theorem Address_hash_equal:
  assumes "impl_valid a" and "impl_valid b" and "Address_equal (Some a) (Some b) = Inr True"
  shows "\<exists>h. Address_hash hash_bytes hash_null (Some a) = Inr h \<and> Address_hash hash_bytes hash_null (Some b) = Inr h"
  using assms impl_compare [OF assms(1,2)] impl_compare [OF assms(2,1)]
  by (simp add: Address_hash_def Address_equal_def deref_def)

theorem Address_hash_equal_witness:
  "\<exists>h. Address_hash (\<lambda>bs. word_of_nat (length bs)) 0 (Some (SockAddrStorage [2, 0, 1, 0] 3)) = Inr h
     \<and> Address_hash (\<lambda>bs. word_of_nat (length bs)) 0 (Some (SockAddrInfo [\<lparr>ai_family = AF_INET,
          ai_socktype = SOCK_STREAM, ai_protocol = IPPROTO_TCP, ai_addr = [2, 0, 1], ai_addrlen = 3\<rparr>])) = Inr h"
  by (rule Address_hash_equal)
    (simp_all add: Address_equal_def deref_def AddressImpl_equal_def lift2_def SockAddrView_equal_def info_view_def
      numeral_3_eq_3)

section \<open>Choosing a resolved address\<close>

definition usable :: "socktype \<Rightarrow> protocol \<Rightarrow> addrinfo \<Rightarrow> bool" where
  "usable type proto it \<longleftrightarrow>
     (ai_socktype it = SOCK_OTHER 0 \<or> ai_socktype it = type) \<and> (ai_protocol it = IPPROTO_OTHER 0 \<or> ai_protocol it = proto)"

lemma Find_find: "SockAddrInfo_Find type proto info = find (usable type proto) info"
  by (induction info) (simp_all add: usable_def)

lemma Find_Some_iff:
  "SockAddrInfo_Find type proto info = Some it \<longleftrightarrow>
     (\<exists>pre post. info = pre @ it # post \<and> usable type proto it \<and> (\<forall>x \<in> set pre. \<not> usable type proto x))"
proof
  assume "SockAddrInfo_Find type proto info = Some it"
  then obtain i where i: "i < length info" "usable type proto it" "it = info ! i"
    "\<forall>j < i. \<not> usable type proto (info ! j)"
    unfolding Find_find find_Some_iff by blast
  then have "info = take i info @ it # drop (Suc i) info" by (simp add: id_take_nth_drop)
  moreover have "\<forall>x \<in> set (take i info). \<not> usable type proto x" using i by (auto simp: in_set_conv_nth)
  ultimately show "\<exists>pre post. info = pre @ it # post \<and> usable type proto it \<and> (\<forall>x \<in> set pre. \<not> usable type proto x)"
    using i(2) by blast
next
  assume "\<exists>pre post. info = pre @ it # post \<and> usable type proto it \<and> (\<forall>x \<in> set pre. \<not> usable type proto x)"
  then obtain pre post where *: "info = pre @ it # post" "usable type proto it" "\<forall>x \<in> set pre. \<not> usable type proto x"
    by blast
  then have "find (usable type proto) pre = None" by (simp add: find_None_set)
  with * show "SockAddrInfo_Find type proto info = Some it" by (simp add: Find_find find_append)
qed

lemma Find_None_iff: "SockAddrInfo_Find type proto info = None \<longleftrightarrow> (\<forall>x \<in> set info. \<not> usable type proto x)"
  by (simp add: Find_find find_None_set)

text \<open>
  A look-up result yields for TCP (and in the same way for UDP) the first entry whose type and protocol
  fit, where 0 fits everything, and the error that names the protocol exactly when no entry fits.
\<close>

theorem ForTcp_ForUdp_first:
  "(ForTcp (SockAddrInfo info) = Inr v \<longleftrightarrow>
      (\<exists>pre it post. info = pre @ it # post \<and> v = info_view it \<and> usable SOCK_STREAM IPPROTO_TCP it
         \<and> (\<forall>x \<in> set pre. \<not> usable SOCK_STREAM IPPROTO_TCP x)))
   \<and> (ForUdp (SockAddrInfo info) = Inr v \<longleftrightarrow>
      (\<exists>pre it post. info = pre @ it # post \<and> v = info_view it \<and> usable SOCK_DGRAM IPPROTO_UDP it
         \<and> (\<forall>x \<in> set pre. \<not> usable SOCK_DGRAM IPPROTO_UDP x)))
   \<and> (ForTcp (SockAddrInfo info) = Inl (LogicError ''address is not valid for TCP'') \<longleftrightarrow>
      (\<forall>x \<in> set info. \<not> usable SOCK_STREAM IPPROTO_TCP x))
   \<and> (ForUdp (SockAddrInfo info) = Inl (LogicError ''address is not valid for UDP'') \<longleftrightarrow>
      (\<forall>x \<in> set info. \<not> usable SOCK_DGRAM IPPROTO_UDP x))"
proof -
  have choice: "(case SockAddrInfo_Find type proto info of Some it \<Rightarrow> Inr (info_view it) | None \<Rightarrow> Inl e) = Inr v
      \<longleftrightarrow> (\<exists>it. SockAddrInfo_Find type proto info = Some it \<and> v = info_view it)" for type proto and e :: exn
    by (auto split: option.splits)
  have none: "(case SockAddrInfo_Find type proto info of Some it \<Rightarrow> Inr (info_view it) | None \<Rightarrow> Inl e) = Inl e
      \<longleftrightarrow> (\<forall>x \<in> set info. \<not> usable type proto x)" for type proto and e :: exn
    using Find_None_iff [of type proto info] by (cases "SockAddrInfo_Find type proto info") auto
  show ?thesis unfolding ForTcp.simps ForUdp.simps choice none Find_Some_iff by blast
qed

definition test_info :: "addrinfo list" where
  "test_info =
     [\<lparr>ai_family = AF_INET, ai_socktype = SOCK_DGRAM, ai_protocol = IPPROTO_UDP, ai_addr = [2, 1], ai_addrlen = 2\<rparr>,
      \<lparr>ai_family = AF_INET, ai_socktype = SOCK_STREAM, ai_protocol = IPPROTO_OTHER 0, ai_addr = [2, 2], ai_addrlen = 2\<rparr>]"

theorem ForTcp_ForUdp_first_witness:
  "ForTcp (SockAddrInfo test_info) = Inr \<lparr>view_addr = [2, 2], view_len = 2\<rparr>
   \<and> ForTcp (SockAddrInfo []) = Inl (LogicError ''address is not valid for TCP'')"
proof -
  have "\<exists>pre it post. test_info = pre @ it # post \<and> \<lparr>view_addr = [2, 2], view_len = 2\<rparr> = info_view it
      \<and> usable SOCK_STREAM IPPROTO_TCP it \<and> (\<forall>x \<in> set pre. \<not> usable SOCK_STREAM IPPROTO_TCP x)"
    by (rule exI [of _ "[hd test_info]"], rule exI [of _ "last test_info"], rule exI [of _ "[]"])
      (simp add: test_info_def info_view_def usable_def)
  then show ?thesis
    using ForTcp_ForUdp_first [of test_info "\<lparr>view_addr = [2, 2], view_len = 2\<rparr>"] ForTcp_ForUdp_first [of "[]"] by simp
qed

section \<open>Numeric services\<close>

lemma IsServiceNumeric_iff:
  "IsServiceNumeric s \<longleftrightarrow>
     (let ds = (if s \<noteq> [] \<and> hd s = CHR ''-'' then tl s else s) in ds \<noteq> [] \<and> list_all is_digit ds)"
proof -
  let ?D = "Sq (Plus (Cls is_digit)) Eol"
  have out: "outcomes (Opt (lit ''-'')) (0, s, Map.empty) =
      (case s of c # r \<Rightarrow> if c = CHR ''-'' then [(1, r, Map.empty)] else [] | [] \<Rightarrow> []) @ [(0, s, Map.empty)]"
    by (cases s) auto
  have "set (outcomes reNumeric (0, s, Map.empty)) =
      (\<Union>u \<in> set (outcomes (Opt (lit ''-'')) (0, s, Map.empty)). set (outcomes ?D u))"
    unfolding reNumeric_def set_outcomes_Sq [of Bol] set_outcomes_Sq [of "Opt (lit ''-'')"] by simp
  also have "\<dots> \<noteq> {} \<longleftrightarrow> (s \<noteq> [] \<and> list_all is_digit s) \<or>
      (\<exists>r. s = CHR ''-'' # r \<and> r \<noteq> [] \<and> list_all is_digit r)"
    unfolding out by (cases s) (auto simp: set_outcomes_digits simp del: outcomes.simps)
  finally have ne: "set (outcomes reNumeric (0, s, Map.empty)) \<noteq> {} \<longleftrightarrow> \<dots>" .
  have whole: "whole t" if "t \<in> set (outcomes reNumeric (0, s, Map.empty))" for t
  proof -
    from that obtain u where "t \<in> set (outcomes ?D u)"
      unfolding reNumeric_def set_outcomes_Sq [of Bol] set_outcomes_Sq [of "Opt (lit ''-'')"] by auto
    then show ?thesis by (cases u) (auto simp: set_outcomes_digits whole_def simp del: outcomes.simps split: if_splits)
  qed
  have "IsServiceNumeric s \<longleftrightarrow> set (outcomes reNumeric (0, s, Map.empty)) \<noteq> {}"
    using whole unfolding IsServiceNumeric_def regex_match_None_iff ex_in_conv [symmetric] by metis
  also note ne
  finally show ?thesis by (cases s) (auto simp: Let_def)
qed

lemma stoll_minus_digits:
  assumes "list_all is_digit ds" and "ds \<noteq> []"
  shows "stoll (CHR ''-'' # ds) = (if 2 ^ 63 < digits_val ds then Inl (OutOfRange ''stoll'') else Inr (- digits_val ds))"
proof -
  have "takeWhile is_digit ds = ds" using assms(1) by (simp add: list_all_iff)
  then show ?thesis
    using assms(2) digits_val_nonneg [OF assms(1)] by (simp add: stoll_def Let_def del: takeWhile_eq_all_conv)
qed

text \<open>The look-up that \<^verbatim>\<open>ParseHostServ\<close> makes when its arguments are accepted.\<close>

definition host_serv_lookup :: "'w netdb \<Rightarrow> string \<Rightarrow> string \<Rightarrow> 'w \<Rightarrow> (exn + addrinfo list) \<times> 'w" where
  "host_serv_lookup nd h s w =
     (let ((result, info), w') = nd_getaddrinfo nd (c_str h) (c_str s)
            \<lparr>hint_family = AF_UNSPEC, hint_passive = True, hint_numericserv = False\<rparr> w
      in (if result \<noteq> 0
          then Inl (SystemError (AddressError result) (''failed to parse host/port \"'' @ h @ ''\", \"'' @ s @ ''\"''))
          else Inr info, w'))"

text \<open>
  C27. Host and service: an empty argument and a numeric service outside of 0 to 65535 (also a negative one)
  are rejected before anything is looked up; a negative zero, every port in range and every service that
  is not a number are passed to the resolver exactly once.
\<close>

theorem ParseHostServ_cases:
  assumes "h \<noteq> []" and "ds \<noteq> []" and "list_all is_digit ds"
  shows "ParseHostServ nd h ds w =
      (case check_port ds of Some e \<Rightarrow> (Inl e, w) | None \<Rightarrow> host_serv_lookup nd h ds w)
    \<and> ParseHostServ nd h (CHR ''-'' # ds) w =
      (if digits_val ds = 0 then host_serv_lookup nd h (CHR ''-'' # ds) w
       else if 2 ^ 63 < digits_val ds then (Inl (OutOfRange ''stoll''), w)
       else (Inl (RuntimeError (''numeric service -'' @ ds @ '' out of range'')), w))
    \<and> ParseHostServ nd [] s w = (Inl (InvalidArgument ''empty host''), w)
    \<and> ParseHostServ nd h [] w = (Inl (InvalidArgument ''empty service''), w)
    \<and> (\<not> IsServiceNumeric s \<and> s \<noteq> [] \<longrightarrow> ParseHostServ nd h s w = host_serv_lookup nd h s w)"
proof -
  have minus: "hd ds \<noteq> CHR ''-''" using assms(2,3) by (cases ds) auto
  have num: "IsServiceNumeric ds" "IsServiceNumeric (CHR ''-'' # ds)"
    using assms(2,3) minus by (simp_all add: IsServiceNumeric_iff Let_def)
  have look: "andthen (call (nd_getaddrinfo nd (c_str h) (c_str s) (no_hints\<lparr>hint_passive := True\<rparr>)))
      (\<lambda>(result, info).
        if result \<noteq> 0
        then throw (SystemError (AddressError result) (''failed to parse host/port \"'' @ h @ ''\", \"'' @ s @ ''\"''))
        else ret info) w = host_serv_lookup nd h s w" for s
    by (simp add: host_serv_lookup_def no_hints_def Let_def split: prod.split)
  have c1: "ParseHostServ nd h ds w = (case check_port ds of Some e \<Rightarrow> (Inl e, w) | None \<Rightarrow> host_serv_lookup nd h ds w)"
    unfolding ParseHostServ_def Let_def using assms num look
    by (simp add: CheckServiceNumericOutOfRange_digits split: option.split)
  have c2: "ParseHostServ nd h (CHR ''-'' # ds) w =
      (if digits_val ds = 0 then host_serv_lookup nd h (CHR ''-'' # ds) w
       else if 2 ^ 63 < digits_val ds then (Inl (OutOfRange ''stoll''), w)
       else (Inl (RuntimeError (''numeric service -'' @ ds @ '' out of range'')), w))"
    unfolding ParseHostServ_def Let_def using assms num look digits_val_nonneg [OF assms(3)]
    by (simp add: CheckServiceNumericOutOfRange_def stoll_minus_digits uint16_max_def)
  have c3: "ParseHostServ nd h s w = host_serv_lookup nd h s w" if "\<not> IsServiceNumeric s" "s \<noteq> []" for s
    unfolding ParseHostServ_def Let_def using assms that look by simp
  have c4: "ParseHostServ nd [] s w = (Inl (InvalidArgument ''empty host''), w)" by (simp add: ParseHostServ_def)
  have c5: "ParseHostServ nd h [] w = (Inl (InvalidArgument ''empty service''), w)"
    using assms(1) by (simp add: ParseHostServ_def)
  show ?thesis using c1 c2 c3 [of s] c4 c5 by blast
qed

theorem ParseHostServ_cases_witness:
  "ParseHostServ test_netdb ''localhost'' ''65536'' () =
     (Inl (RuntimeError ''numeric service 65536 out of range''), ())
   \<and> ParseHostServ test_netdb ''unknown'' ''80'' () =
     (Inl (SystemError (AddressError (-2)) (''failed to parse host/port \"unknown\", \"80\"'')), ())"
proof -
  have "check_port ''65536'' = Some (RuntimeError ''numeric service 65536 out of range'')"
    and "check_port ''80'' = None"
    by (simp_all add: check_port_def digits_val_def digit_val_def)
  then show ?thesis
    using ParseHostServ_cases [of "''localhost''" "''65536''" test_netdb "()"]
      ParseHostServ_cases [of "''unknown''" "''80''" test_netdb "()"]
    by (simp add: is_digit_def host_serv_lookup_def) (simp add: test_netdb_def c_str_def)
qed

section \<open>Local addresses\<close>

definition eligible :: "'w netdb \<Rightarrow> ifaddr \<Rightarrow> bool" where
  "eligible nd it \<longleftrightarrow> ifa_addr it \<noteq> None \<and> ifa_flags it AND nd_IFF_LOOPBACK nd = 0
     \<and> nd_family nd (the (ifa_addr it)) \<in> {AF_INET, AF_INET6}"

definition eligible_len :: "'w netdb \<Rightarrow> byte list \<Rightarrow> nat" where
  "eligible_len nd addr = (if nd_family nd addr = AF_INET then nd_sizeof_in nd else nd_sizeof_in6 nd)"

lemma local_addresses_filter:
  "local_addresses nd ifs =
     map (\<lambda>it. Some (SockAddrStorage_copy nd (the (ifa_addr it)) (eligible_len nd (the (ifa_addr it)))))
       (filter (eligible nd) ifs)"
  by (induction ifs) (auto simp: eligible_def eligible_len_def split: option.splits)

lemma SockAddrStorage_copy_key:
  assumes "n \<le> length addr" and "n \<le> nd_sizeof_storage nd"
  shows "impl_valid (SockAddrStorage_copy nd addr n)"
    and "impl_key (SockAddrStorage_copy nd addr n) = SAddr (take n addr)"
  using assms by (simp_all add: SockAddrStorage_copy_def overwrite_def impl_key_def view_key_def)

text \<open>
  The local addresses are the IPv4 and IPv6 addresses of the interfaces that have an address and are not
  loopback interfaces, in the order of the system's list, each with exactly the bytes of its structure.
\<close>

theorem LocalAddresses_interfaces:
  assumes "nd_getifaddrs nd w = ((0, ifs), w')"
    and "\<And>it addr. it \<in> set ifs \<Longrightarrow> ifa_addr it = Some addr \<Longrightarrow>
      eligible_len nd addr \<le> length addr \<and> eligible_len nd addr \<le> nd_sizeof_storage nd"
  shows "\<exists>addrs. LocalAddresses os nd w = (Inr addrs, w') \<and>
    map (map_option impl_key) addrs =
      map (\<lambda>it. Some (SAddr (take (eligible_len nd (the (ifa_addr it))) (the (ifa_addr it))))) (filter (eligible nd) ifs)"
proof -
  have "impl_key (SockAddrStorage_copy nd (the (ifa_addr it)) (eligible_len nd (the (ifa_addr it)))) =
      SAddr (take (eligible_len nd (the (ifa_addr it))) (the (ifa_addr it)))" if "it \<in> set (filter (eligible nd) ifs)" for it
    using that assms(2) [of it "the (ifa_addr it)"] by (intro SockAddrStorage_copy_key(2)) (auto simp: eligible_def)
  then show ?thesis
    using assms(1) by (simp add: LocalAddresses_def GetIfAddrs_def local_addresses_filter)
qed

definition test_ifaddrs :: "ifaddr list" where
  "test_ifaddrs = [\<lparr>ifa_addr = None, ifa_flags = 0\<rparr>, \<lparr>ifa_addr = Some [2, 0, 0, 0], ifa_flags = 8\<rparr>,
     \<lparr>ifa_addr = Some [10, 0, 0, 9], ifa_flags = 1\<rparr>]"

definition test_netdb_script :: "script netdb" where
  "test_netdb_script = \<lparr>
     nd_getaddrinfo = (\<lambda>h s hints w. ((-2, []), w)), nd_getnameinfo = (\<lambda>a bh bs w. ((-2, [], []), w)),
     nd_getifaddrs = (\<lambda>w. ((0, test_ifaddrs), w)),
     nd_family = nd_family test_netdb, nd_sin_port = 2, nd_sin6_port = 2, nd_sizeof_in = 4, nd_sizeof_in6 = 4,
     nd_sizeof_storage = 8, nd_IFF_LOOPBACK = 8, nd_MAXHOST = 16, nd_MAXSERV = 8\<rparr>"

theorem LocalAddresses_interfaces_witness:
  "\<exists>addrs. LocalAddresses script_os test_netdb_script script0 = (Inr addrs, script0) \<and>
    map (map_option impl_key) addrs = [Some (SAddr [10, 0, 0, 9])]"
proof -
  have "\<exists>addrs. LocalAddresses script_os test_netdb_script script0 = (Inr addrs, script0) \<and>
      map (map_option impl_key) addrs =
        map (\<lambda>it. Some (SAddr (take (eligible_len test_netdb_script (the (ifa_addr it))) (the (ifa_addr it)))))
          (filter (eligible test_netdb_script) test_ifaddrs)"
    by (rule LocalAddresses_interfaces) (auto simp: test_netdb_script_def test_ifaddrs_def eligible_len_def)
  then show ?thesis
    by (simp add: test_netdb_script_def test_ifaddrs_def test_netdb_def eligible_def eligible_len_def)
qed

end
