(* ===== verification/Socket.thy ===== *)
theory Socket
  imports Wait Address
begin

unbundle bit_operations_syntax

text \<open>
  \<^verbatim>\<open>src/socket_impl.cpp\<close>: the operations on a socket descriptor, and \<^verbatim>\<open>src/socket.cpp\<close>: the classes
  \<^verbatim>\<open>SocketUdp\<close>, \<^verbatim>\<open>SocketTcp\<close> and \<^verbatim>\<open>Acceptor\<close> on top of them.  A receiving call returns the count the
  code returns together with the bytes that were written to the caller's memory.
\<close>

section \<open>Descriptors and options\<close>

definition fdInvalid :: fd where
  "fdInvalid = -1"

definition DoSetBlocking :: "'w os \<Rightarrow> fd \<Rightarrow> bool \<Rightarrow> ('w, int) exec" where
  "DoSetBlocking os s blocking =
     andthen (call (sys_fcntl_getfl os s)) (\<lambda>flags.
       if flags = -1 then ret flags
       else call (sys_fcntl_setfl os s
         (if blocking then flags AND NOT (sys_O_NONBLOCK os) else flags OR sys_O_NONBLOCK os)))"

definition SetBlocking :: "'w os \<Rightarrow> fd \<Rightarrow> bool \<Rightarrow> string \<Rightarrow> ('w, unit) exec" where
  "SetBlocking os s blocking errorMessage =
     andthen (DoSetBlocking os s blocking) (\<lambda>r. if r \<noteq> 0 then throw_system os errorMessage else ret ())"

definition SetSockOpt :: "'w os \<Rightarrow> fd \<Rightarrow> sockopt \<Rightarrow> int \<Rightarrow> string \<Rightarrow> ('w, unit) exec" where
  "SetSockOpt os s opt value errorMessage =
     andthen (call (sys_setsockopt os s opt value)) (\<lambda>r. if r \<noteq> 0 then throw_system os errorMessage else ret ())"

text \<open>\<^verbatim>\<open>GetSockOpt<int>\<close>: the call also reports how many bytes the value has.\<close>

definition sizeof_int :: nat where
  "sizeof_int = 4"

definition GetSockOpt :: "'w os \<Rightarrow> fd \<Rightarrow> sockopt \<Rightarrow> string \<Rightarrow> ('w, int) exec" where
  "GetSockOpt os s opt errorMessage =
     andthen (call (sys_getsockopt os s opt)) (\<lambda>(r, value, sz).
       if r \<noteq> 0 \<or> sz \<noteq> sizeof_int then throw_system os errorMessage else ret value)"

definition SocketImpl :: "'w os \<Rightarrow> family \<Rightarrow> socktype \<Rightarrow> protocol \<Rightarrow> ('w, fd) exec" where
  "SocketImpl os family type protocol =
     andthen (call (sys_socket os family type protocol)) (\<lambda>s.
       if s = fdInvalid then throw_system os ''failed to create socket'' else ret s)"

definition SocketImpl_fd :: "'w os \<Rightarrow> fd \<Rightarrow> ('w, fd) exec" where
  "SocketImpl_fd os s = (if s = fdInvalid then throw_system os ''failed to accept socket'' else ret s)"

text \<open>Moving hands the descriptor over: the new object and what is left in the old one.\<close>

definition SocketImpl_move :: "fd \<Rightarrow> fd \<times> fd" where
  "SocketImpl_move other = (other, fdInvalid)"

definition SocketImpl_destroy :: "'w os \<Rightarrow> fd \<Rightarrow> 'w \<Rightarrow> 'w" where
  "SocketImpl_destroy os s w = (if s \<noteq> fdInvalid then sys_close os s w else w)"

section \<open>Receiving\<close>

definition ReceiveNow :: "'w os \<Rightarrow> fd \<Rightarrow> nat \<Rightarrow> ('w, nat \<times> string) exec" where
  "ReceiveNow os s sz =
     andthen (call (sys_recv os s sz)) (\<lambda>(received, data).
       if received < 0 then throw_system os ''failed to receive''
       else if received = 0 then throw (RuntimeError ''connection closed'')
       else ret (nat received, data))"

definition Receive :: "'w os \<Rightarrow> fd \<Rightarrow> nat \<Rightarrow> duration \<Rightarrow> ('w, (nat \<times> string) option) exec" where
  "Receive os s sz timeout =
     andthen (WaitReadable os s timeout) (\<lambda>ready.
       if \<not> ready then ret None
       else andthen (ReceiveNow os s sz) (\<lambda>received. ret (Some received)))"

definition ReceiveFrom :: "'w os \<Rightarrow> 'w netdb \<Rightarrow> fd \<Rightarrow> nat \<Rightarrow> ('w, (nat \<times> string) \<times> address) exec" where
  "ReceiveFrom os nd s sz =
     andthen (call (sys_recvfrom os s sz)) (\<lambda>(received, data, addr).
       if received < 0 then throw_system os ''failed to receive''
       else ret ((nat received, data), Some (SockAddrStorage_filled nd addr)))"

definition ReceiveFrom_wait ::
  "'w os \<Rightarrow> 'w netdb \<Rightarrow> fd \<Rightarrow> nat \<Rightarrow> duration \<Rightarrow> ('w, ((nat \<times> string) \<times> address) option) exec" where
  "ReceiveFrom_wait os nd s sz timeout =
     andthen (WaitReadable os s timeout) (\<lambda>ready.
       if \<not> ready then ret None
       else andthen (ReceiveFrom os nd s sz) (\<lambda>received. ret (Some received)))"

section \<open>Sending on a stream\<close>

definition SendNow :: "'w os \<Rightarrow> fd \<Rightarrow> string \<Rightarrow> ('w, nat) exec" where
  "SendNow os s data =
     andthen (call (sys_send os s data)) (\<lambda>sent.
       if sent < 0 then throw_system os ''failed to send''
       else if sent = 0 \<and> length data > 0 then throw (LogicError ''unexpected send result'')
       else if \<not> nat sent \<le> length data then throw AssertFailed
       else ret (nat sent))"

lemma SendNow_Inr:
  assumes "SendNow os s data w = (Inr n, w')"
  shows "n \<le> length data" and "data \<noteq> [] \<Longrightarrow> 0 < n" and "sys_send os s data w = (int n, w')"
  using assms by (auto simp: SendNow_def andthen_def call_def split: prod.splits if_splits)

text \<open>The loop of \<^verbatim>\<open>SendAll\<close>, on what remains; it ends because every round sends something.\<close>

function SendAll_loop :: "'w os \<Rightarrow> fd \<Rightarrow> string \<Rightarrow> 'w \<Rightarrow> (exn + string) \<times> 'w" where
  "SendAll_loop os s remaining w =
     andthen (WaitWritable os s (-1)) (\<lambda>_ w.
     andthen (SendNow os s remaining) (\<lambda>sent w.
       let remaining = drop sent remaining
       in if remaining \<noteq> [] then SendAll_loop os s remaining w else (Inr remaining, w)) w) w"
  by pat_completeness auto
termination
  by (relation "measure (\<lambda>(os, s, remaining, w). length remaining)") (auto dest: SendNow_Inr(2))

declare SendAll_loop.simps [simp del]

definition SendAll :: "'w os \<Rightarrow> fd \<Rightarrow> string \<Rightarrow> ('w, nat) exec" where
  "SendAll os s data =
     andthen (SendAll_loop os s data) (\<lambda>remaining.
       if remaining \<noteq> [] then throw AssertFailed else ret (length data - length remaining))"

definition SendTry :: "'w os \<Rightarrow> fd \<Rightarrow> string \<Rightarrow> ('w, nat) exec" where
  "SendTry os s data =
     andthen (WaitWritable os s 0) (\<lambda>ready. if \<not> ready then ret 0 else SendNow os s data)"

function SendSome_loop :: "'w os \<Rightarrow> fd \<Rightarrow> deadline_limited \<Rightarrow> string \<Rightarrow> 'w \<Rightarrow> (exn + string \<times> deadline_limited) \<times> 'w" where
  "SendSome_loop os s limit remaining w =
     andthen (WaitWritable os s (DeadlineLimited_Remaining limit)) (\<lambda>ready w.
       if \<not> ready then (Inr (remaining, limit), w)
       else andthen (call (Clocked_Tick os limit)) (\<lambda>limit w.
         andthen (SendNow os s remaining) (\<lambda>sent w.
           let remaining = drop sent remaining
           in if remaining \<noteq> [] \<and> DeadlineLimited_TimeLeft limit
              then SendSome_loop os s limit remaining w
              else (Inr (remaining, limit), w)) w) w) w"
  by pat_completeness auto
termination
  by (relation "measure (\<lambda>(os, s, limit, remaining, w). length remaining)") (auto dest: SendNow_Inr(2))

declare SendSome_loop.simps [simp del]

definition SendSome :: "'w os \<Rightarrow> fd \<Rightarrow> string \<Rightarrow> deadline_limited \<Rightarrow> ('w, nat \<times> deadline_limited) exec" where
  "SendSome os s data limit =
     andthen (SendSome_loop os s limit data) (\<lambda>(remaining, limit).
       if \<not> length data \<ge> length remaining then throw AssertFailed
       else ret (length data - length remaining, limit))"

definition SocketImpl_Send :: "'w os \<Rightarrow> fd \<Rightarrow> string \<Rightarrow> duration \<Rightarrow> ('w, nat) exec" where
  "SocketImpl_Send os s data timeout =
     (if timeout < 0 then SendAll os s data
      else if timeout = 0 then SendTry os s data
      else andthen (call (DeadlineLimited os timeout)) (\<lambda>limit.
             andthen (SendSome os s data limit) (\<lambda>(sent, _). ret sent)))"

section \<open>Datagrams\<close>

definition view_bytes :: "sock_addr_view \<Rightarrow> byte list" where
  "view_bytes v = take (view_len v) (view_addr v)"

text \<open>
  An error with the printed address: the error is read first, as printing may fail and overwrite it;
  when printing fails, its own error is thrown.
\<close>

definition throw_with_address :: "'w os \<Rightarrow> 'w netdb \<Rightarrow> string \<Rightarrow> sock_addr_view \<Rightarrow> ('w, 'a) exec" where
  "throw_with_address os nd msg a =
     andthen (get (SocketError os)) (\<lambda>error.
     andthen (to_string_view nd a) (\<lambda>str. throw (SystemError error (msg @ str))))"

definition SendTo :: "'w os \<Rightarrow> 'w netdb \<Rightarrow> fd \<Rightarrow> string \<Rightarrow> sock_addr_view \<Rightarrow> ('w, nat) exec" where
  "SendTo os nd s data dstAddr =
     andthen (call (sys_sendto os s data (view_bytes dstAddr))) (\<lambda>sent.
       if sent < 0 then throw_with_address os nd ''failed to send to '' dstAddr
       else if nat sent \<noteq> length data then throw (LogicError ''unexpected UDP send result'')
       else ret (nat sent))"

definition SendTo_wait :: "'w os \<Rightarrow> 'w netdb \<Rightarrow> fd \<Rightarrow> string \<Rightarrow> sock_addr_view \<Rightarrow> duration \<Rightarrow> ('w, nat) exec" where
  "SendTo_wait os nd s data dstAddr timeout =
     andthen (WaitWritable os s timeout) (\<lambda>ready. if \<not> ready then ret 0 else SendTo os nd s data dstAddr)"

section \<open>Connections and names\<close>

definition Connect :: "'w os \<Rightarrow> 'w netdb \<Rightarrow> fd \<Rightarrow> sock_addr_view \<Rightarrow> ('w, unit) exec" where
  "Connect os nd s connectAddr =
     andthen (call (sys_connect os s (view_bytes connectAddr))) (\<lambda>r.
       if r \<noteq> 0 then throw_with_address os nd ''failed to connect to '' connectAddr else ret ())"

definition Bind :: "'w os \<Rightarrow> 'w netdb \<Rightarrow> fd \<Rightarrow> sock_addr_view \<Rightarrow> ('w, unit) exec" where
  "Bind os nd s bindAddr =
     andthen (call (sys_bind os s (view_bytes bindAddr))) (\<lambda>r.
       if r \<noteq> 0 then throw_with_address os nd ''failed to bind socket to address '' bindAddr else ret ())"

definition Listen :: "'w os \<Rightarrow> fd \<Rightarrow> ('w, unit) exec" where
  "Listen os s =
     andthen (call (sys_listen os s 128)) (\<lambda>r. if r \<noteq> 0 then throw_system os ''failed to listen'' else ret ())"

definition SetSockOptNonBlocking :: "'w os \<Rightarrow> fd \<Rightarrow> ('w, unit) exec" where
  "SetSockOptNonBlocking os s = SetBlocking os s False ''failed to set socket option non-blocking''"

definition SetSockOptReuseAddr :: "'w os \<Rightarrow> fd \<Rightarrow> ('w, unit) exec" where
  "SetSockOptReuseAddr os s = SetSockOpt os s SO_REUSEADDR 1 ''failed to set socket option address reuse''"

definition SetSockOptBroadcast :: "'w os \<Rightarrow> fd \<Rightarrow> ('w, unit) exec" where
  "SetSockOptBroadcast os s = SetSockOpt os s SO_BROADCAST 1 ''failed to set socket option broadcast''"

definition SetSockOptNoSigPipe :: "'w os \<Rightarrow> fd \<Rightarrow> ('w, unit) exec" where
  "SetSockOptNoSigPipe os s =
     (if sys_has_nosigpipe os then SetSockOpt os s SO_NOSIGPIPE 1 ''failed to set socket option non-SIGPIPE''
      else ret ())"

definition GetSockOptRcvBuf :: "'w os \<Rightarrow> fd \<Rightarrow> ('w, nat) exec" where
  "GetSockOptRcvBuf os s =
     andthen (GetSockOpt os s SO_RCVBUF ''failed to get socket receive buffer sz'') (\<lambda>sz.
       if sz < 0 then throw (LogicError ''unexpected receive buffer sz'') else ret (nat sz))"

definition GetSockName :: "'w os \<Rightarrow> 'w netdb \<Rightarrow> fd \<Rightarrow> ('w, address_impl) exec" where
  "GetSockName os nd s =
     andthen (call (sys_getsockname os s)) (\<lambda>(r, addr).
       if r \<noteq> 0 then throw_system os ''failed to get socket address'' else ret (SockAddrStorage_filled nd addr))"

definition GetPeerName :: "'w os \<Rightarrow> 'w netdb \<Rightarrow> fd \<Rightarrow> ('w, address_impl) exec" where
  "GetPeerName os nd s =
     andthen (call (sys_getpeername os s)) (\<lambda>(r, addr).
       if r \<noteq> 0 then throw_system os ''failed to get peer address'' else ret (SockAddrStorage_filled nd addr))"

text \<open>The two hooks of the driver, which only the TLS socket uses.\<close>

definition SocketImpl_DriverQuery :: "pollflag set \<Rightarrow> ('w, pollflag set) exec" where
  "SocketImpl_DriverQuery events = ret events"

definition SocketImpl_DriverPending :: "('w, unit) exec" where
  "SocketImpl_DriverPending = throw AssertFailed"

section \<open>The user's classes\<close>

text \<open>
  A constructor that throws after its member was made destroys the member, which closes the
  descriptor.
\<close>

definition owning :: "'w os \<Rightarrow> fd \<Rightarrow> ('w, 'a) exec \<Rightarrow> ('w, 'a) exec" where
  "owning os s m = on_throw m (SocketImpl_destroy os s)"

definition SocketUdp :: "'w os \<Rightarrow> 'w netdb \<Rightarrow> address \<Rightarrow> ('w, fd) exec" where
  "SocketUdp os nd bindAddress =
     andthen (lift_sum (deref bindAddress (AddressImpl_Family nd))) (\<lambda>family.
     andthen (SocketImpl os family SOCK_DGRAM IPPROTO_UDP) (\<lambda>impl.
     owning os impl
       (andthen (lift_sum (deref bindAddress ForUdp)) (\<lambda>view.
        andthen (Bind os nd impl view) (\<lambda>_.
        andthen (SetSockOptBroadcast os impl) (\<lambda>_.
        andthen (SetSockOptNonBlocking os impl) (\<lambda>_. ret impl)))))))"

definition SocketTcp :: "'w os \<Rightarrow> 'w netdb \<Rightarrow> address \<Rightarrow> ('w, fd) exec" where
  "SocketTcp os nd connectAddress =
     andthen (lift_sum (deref connectAddress (AddressImpl_Family nd))) (\<lambda>family.
     andthen (SocketImpl os family SOCK_STREAM IPPROTO_TCP) (\<lambda>impl.
     owning os impl
       (andthen (SetSockOptNoSigPipe os impl) (\<lambda>_.
        andthen (lift_sum (deref connectAddress ForTcp)) (\<lambda>view.
        andthen (Connect os nd impl view) (\<lambda>_.
        andthen (SetSockOptNonBlocking os impl) (\<lambda>_. ret impl)))))))"

text \<open>The constructor that adopts an accepted socket.\<close>

definition SocketTcp_adopt :: "'w os \<Rightarrow> fd \<Rightarrow> ('w, fd) exec" where
  "SocketTcp_adopt os impl =
     owning os impl
       (andthen (SetSockOptNoSigPipe os impl) (\<lambda>_.
        andthen (SetSockOptNonBlocking os impl) (\<lambda>_. ret impl)))"

definition Acceptor :: "'w os \<Rightarrow> 'w netdb \<Rightarrow> address \<Rightarrow> ('w, fd) exec" where
  "Acceptor os nd bindAddress =
     andthen (lift_sum (deref bindAddress (AddressImpl_Family nd))) (\<lambda>family.
     andthen (SocketImpl os family SOCK_STREAM IPPROTO_TCP) (\<lambda>impl.
     owning os impl
       (andthen (SetSockOptReuseAddr os impl) (\<lambda>_.
        andthen (lift_sum (deref bindAddress ForTcp)) (\<lambda>view.
        andthen (Bind os nd impl view) (\<lambda>_.
        andthen (SetSockOptNonBlocking os impl) (\<lambda>_. ret impl)))))))"

definition accept_fd :: "'w os \<Rightarrow> 'w netdb \<Rightarrow> fd \<Rightarrow> ('w, fd \<times> address) exec" where
  "accept_fd os nd s =
     andthen (call (sys_accept os s)) (\<lambda>(clientFd, addr). ret (clientFd, Some (SockAddrStorage_filled nd addr)))"

definition SocketImpl_Accept :: "'w os \<Rightarrow> 'w netdb \<Rightarrow> fd \<Rightarrow> ('w, fd \<times> address) exec" where
  "SocketImpl_Accept os nd s =
     andthen (accept_fd os nd s) (\<lambda>(clientFd, clientAddr).
     andthen (SocketImpl_fd os clientFd) (\<lambda>impl.
     andthen (SocketTcp_adopt os impl) (\<lambda>sock. ret (sock, clientAddr))))"

definition SocketImpl_Accept_wait :: "'w os \<Rightarrow> 'w netdb \<Rightarrow> fd \<Rightarrow> duration \<Rightarrow> ('w, (fd \<times> address) option) exec" where
  "SocketImpl_Accept_wait os nd s timeout =
     andthen (WaitReadable os s timeout) (\<lambda>ready.
       if \<not> ready then ret None
       else andthen (SocketImpl_Accept os nd s) (\<lambda>client. ret (Some client)))"

definition Acceptor_Listen :: "'w os \<Rightarrow> 'w netdb \<Rightarrow> fd \<Rightarrow> duration \<Rightarrow> ('w, (fd \<times> address) option) exec" where
  "Acceptor_Listen os nd impl timeout =
     andthen (Listen os impl) (\<lambda>_. SocketImpl_Accept_wait os nd impl timeout)"

definition SocketUdp_SendTo :: "'w os \<Rightarrow> 'w netdb \<Rightarrow> fd \<Rightarrow> string \<Rightarrow> address \<Rightarrow> duration \<Rightarrow> ('w, nat) exec" where
  "SocketUdp_SendTo os nd impl data dstAddress timeout =
     andthen (lift_sum (deref dstAddress ForUdp)) (\<lambda>view. SendTo_wait os nd impl data view timeout)"

definition LocalAddress :: "'w os \<Rightarrow> 'w netdb \<Rightarrow> fd \<Rightarrow> ('w, address) exec" where
  "LocalAddress os nd impl = andthen (GetSockName os nd impl) (\<lambda>a. ret (Some a))"

definition PeerAddress :: "'w os \<Rightarrow> 'w netdb \<Rightarrow> fd \<Rightarrow> ('w, address) exec" where
  "PeerAddress os nd impl = andthen (GetPeerName os nd impl) (\<lambda>a. ret (Some a))"

section \<open>Virtual functions\<close>

text \<open>
  The operations that the TLS socket overrides, as a table of functions; the classes above call
  them through their pointer to the implementation.
\<close>

record 'w vtable =
  v_Receive_wait :: "fd \<Rightarrow> nat \<Rightarrow> duration \<Rightarrow> ('w, (nat \<times> string) option) exec"
  v_Receive :: "fd \<Rightarrow> nat \<Rightarrow> ('w, nat \<times> string) exec"
  v_Send :: "fd \<Rightarrow> string \<Rightarrow> duration \<Rightarrow> ('w, nat) exec"
  v_SendSome :: "fd \<Rightarrow> string \<Rightarrow> ('w, nat) exec"
  v_Connect :: "fd \<Rightarrow> sock_addr_view \<Rightarrow> ('w, unit) exec"
  v_Accept :: "fd \<Rightarrow> ('w, fd \<times> address) exec"
  v_DriverQuery :: "fd \<Rightarrow> pollflag set \<Rightarrow> ('w, pollflag set) exec"
  v_DriverPending :: "fd \<Rightarrow> ('w, unit) exec"
  v_destroy :: "fd \<Rightarrow> 'w \<Rightarrow> 'w"

definition SocketImpl_vtable :: "'w os \<Rightarrow> 'w netdb \<Rightarrow> 'w vtable" where
  "SocketImpl_vtable os nd = \<lparr>
     v_Receive_wait = Receive os,
     v_Receive = ReceiveNow os,
     v_Send = SocketImpl_Send os,
     v_SendSome = SendNow os,
     v_Connect = Connect os nd,
     v_Accept = SocketImpl_Accept os nd,
     v_DriverQuery = (\<lambda>s. SocketImpl_DriverQuery),
     v_DriverPending = (\<lambda>s. SocketImpl_DriverPending),
     v_destroy = SocketImpl_destroy os\<rparr>"

end
