(* ===== verification/SocketSpec.thy ===== *)
theory SocketSpec
  imports Socket AddressSpec
begin

text \<open>
  What the socket operations promise: a stream carries exactly the prefix of the data that a send
  reports, a limited send does not give up early, and no descriptor is lost when a constructor or
  an accept fails.
\<close>

section \<open>Streams\<close>

lemma stream_poll [simp]: "stream_send os stream \<Longrightarrow> stream (snd (sys_poll os p t w)) s = stream w s"
  unfolding stream_send_def by blast

lemma stream_now [simp]: "stream_send os stream \<Longrightarrow> stream (snd (sys_now os w)) s = stream w s"
  unfolding stream_send_def by blast

lemma Wait_fd_stream:
  assumes "stream_send os stream" and "Wait_fd os f ev t w = (r, w')"
  shows "stream w' s = stream w s"
  using Wait_fd_snd [of os f ev t w] assms by simp

lemma Clocked_Tick_stream:
  assumes "stream_send os stream" and "Clocked_Tick os d w = (d', w')"
  shows "stream w' s = stream w s"
  using stream_now [OF assms(1), of w s] assms(2) by (auto simp: Clocked_Tick_def split: prod.splits)

text \<open>What \<^verbatim>\<open>send\<close> can do to the stream.\<close>

lemma SendNow_outcomes:
  assumes "stream_send os stream" and "SendNow os s data w = (r, w')"
  obtains (sent) n where "r = Inr n" "n \<le> length data" "data \<noteq> [] \<Longrightarrow> 0 < n" "stream w' s = stream w s @ take n data"
    | (failed) c m where "r = Inl (SystemError c m)" "stream w' s = stream w s"
    | (zero) "r = Inl (LogicError ''unexpected send result'')" "stream w' s = stream w s"
proof -
  obtain x where x: "sys_send os s data w = (x, w')"
    using assms(2) by (auto simp: SendNow_def andthen_def call_def split: prod.splits if_splits)
  have st: "if x < 0 then stream w' s = stream w s else nat x \<le> length data \<and> stream w' s = stream w s @ take (nat x) data"
    using assms(1) x unfolding stream_send_def by blast
  have r: "r = (if x < 0 then Inl (SystemError (SocketError os w') ''failed to send'')
      else if x = 0 \<and> length data > 0 then Inl (LogicError ''unexpected send result'')
      else if \<not> nat x \<le> length data then Inl AssertFailed else Inr (nat x))"
    using assms(2) x by (auto simp: SendNow_def andthen_def call_def split: if_splits)
  show thesis
  proof (cases "x < 0")
    case True
    with r st show thesis by (intro failed) simp_all
  next
    case False
    with r st show thesis by (cases "x = 0 \<and> data \<noteq> []") (auto intro: zero sent)
  qed
qed

lemma SendNow_stream:
  assumes "stream_send os stream" and "SendNow os s data w = (r, w')"
  shows "\<exists>k \<le> length data. stream w' s = stream w s @ take k data \<and> (r = Inr n \<longrightarrow> n = k)
    \<and> (\<forall>e. r = Inl e \<longrightarrow> k = 0)"
  using assms
proof (cases rule: SendNow_outcomes)
  case (sent m)
  then show ?thesis by (intro exI [of _ m]) auto
qed (auto intro: exI [of _ 0])

lemma SendAll_loop_steps:
  "WaitWritable os s (-1) w = (Inl e, w1) \<Longrightarrow> SendAll_loop os s d w = (Inl e, w1)"
  "WaitWritable os s (-1) w = (Inr b, w1) \<Longrightarrow> SendNow os s d w1 = (Inl e, w2) \<Longrightarrow>
     SendAll_loop os s d w = (Inl e, w2)"
  "WaitWritable os s (-1) w = (Inr b, w1) \<Longrightarrow> SendNow os s d w1 = (Inr n, w2) \<Longrightarrow>
     SendAll_loop os s d w = (if drop n d \<noteq> [] then SendAll_loop os s (drop n d) w2 else (Inr [], w2))"
  by (subst SendAll_loop.simps, simp)+

lemma SendAll_loop_stream:
  assumes "stream_send os stream"
  shows "SendAll_loop os s d w = (r, w') \<Longrightarrow>
    \<exists>k \<le> length d. stream w' s = stream w s @ take k d \<and> (\<forall>rest. r = Inr rest \<longrightarrow> rest = [] \<and> k = length d)"
  using assms
proof (induction os s d w arbitrary: r w' rule: SendAll_loop.induct)
  case (1 os s d w)
  obtain r1 w1 where wait: "WaitWritable os s (-1) w = (r1, w1)" by fastforce
  have s1: "stream w1 s = stream w s"
    using Wait_fd_stream [OF 1(3)] wait by (simp add: WaitWritable_def)
  show ?case
  proof (cases r1)
    case (Inl e)
    then have "r = Inl e" "w' = w1" using 1(2) wait by (simp_all add: SendAll_loop_steps(1))
    with s1 show ?thesis by (intro exI [of _ 0]) simp
  next
    case (Inr b)
    obtain r2 w2 where send: "SendNow os s d w1 = (r2, w2)" by fastforce
    show ?thesis
    proof (cases r2)
      case inl: (Inl e)
      then have "r = Inl e" "w' = w2" using 1(2) SendAll_loop_steps(2) [of os s w b w1 d e w2] wait Inr send by simp_all
      with SendNow_stream [OF 1(3) send] s1 show ?thesis by auto
    next
      case inr: (Inr n)
      then have n: "n \<le> length d" "stream w2 s = stream w s @ take n d"
        using SendNow_stream [OF 1(3) send, of n] s1 by auto
      show ?thesis
      proof (cases "drop n d = []")
        case True
        then have "r = Inr []" "w' = w2" using 1(2) SendAll_loop_steps(3) [of os s w b w1 d n w2] wait Inr send inr by simp_all
        with n True show ?thesis by (intro exI [of _ n]) auto
      next
        case False
        then have "SendAll_loop os s (drop n d) w2 = (r, w')"
          using 1(2) SendAll_loop_steps(3) [of os s w b w1 d n w2] wait Inr send inr by simp
        from 1(1) [OF wait [unfolded Inr] send [unfolded inr] refl False this 1(3)]
        obtain k where k: "k \<le> length (drop n d)" "stream w' s = stream w2 s @ take k (drop n d)"
          "\<forall>rest. r = Inr rest \<longrightarrow> rest = [] \<and> k = length (drop n d)" by blast
        with n show ?thesis by (intro exI [of _ "n + k"]) (auto simp: take_add)
      qed
    qed
  qed
qed

lemma SendSome_loop_steps:
  "WaitWritable os s (DeadlineLimited_Remaining dl) w = (Inl e, w1) \<Longrightarrow> SendSome_loop os s dl d w = (Inl e, w1)"
  "WaitWritable os s (DeadlineLimited_Remaining dl) w = (Inr False, w1) \<Longrightarrow>
     SendSome_loop os s dl d w = (Inr (d, dl), w1)"
  "WaitWritable os s (DeadlineLimited_Remaining dl) w = (Inr True, w1) \<Longrightarrow> Clocked_Tick os dl w1 = (dl', w2) \<Longrightarrow>
     SendNow os s d w2 = (Inl e, w3) \<Longrightarrow> SendSome_loop os s dl d w = (Inl e, w3)"
  "WaitWritable os s (DeadlineLimited_Remaining dl) w = (Inr True, w1) \<Longrightarrow> Clocked_Tick os dl w1 = (dl', w2) \<Longrightarrow>
     SendNow os s d w2 = (Inr n, w3) \<Longrightarrow>
     SendSome_loop os s dl d w = (if drop n d \<noteq> [] \<and> DeadlineLimited_TimeLeft dl'
       then SendSome_loop os s dl' (drop n d) w3 else (Inr (drop n d, dl'), w3))"
  by (subst SendSome_loop.simps; simp add: andthen_def)+

text \<open>The ways a round of the loop with a deadline can end.\<close>

lemma SendSome_loop_round:
  obtains (wait_error) e w1 where "WaitWritable os s (DeadlineLimited_Remaining dl) w = (Inl e, w1)"
      "SendSome_loop os s dl d w = (Inl e, w1)"
  | (timeout) w1 where "WaitWritable os s (DeadlineLimited_Remaining dl) w = (Inr False, w1)"
      "SendSome_loop os s dl d w = (Inr (d, dl), w1)"
  | (send_error) w1 dl' w2 e w3 where "WaitWritable os s (DeadlineLimited_Remaining dl) w = (Inr True, w1)"
      "Clocked_Tick os dl w1 = (dl', w2)" "SendNow os s d w2 = (Inl e, w3)" "SendSome_loop os s dl d w = (Inl e, w3)"
  | (finish) w1 dl' w2 n w3 where "WaitWritable os s (DeadlineLimited_Remaining dl) w = (Inr True, w1)"
      "Clocked_Tick os dl w1 = (dl', w2)" "SendNow os s d w2 = (Inr n, w3)"
      "drop n d = [] \<or> \<not> DeadlineLimited_TimeLeft dl'" "SendSome_loop os s dl d w = (Inr (drop n d, dl'), w3)"
  | (again) w1 dl' w2 n w3 where "WaitWritable os s (DeadlineLimited_Remaining dl) w = (Inr True, w1)"
      "Clocked_Tick os dl w1 = (dl', w2)" "SendNow os s d w2 = (Inr n, w3)"
      "drop n d \<noteq> []" "DeadlineLimited_TimeLeft dl'"
      "SendSome_loop os s dl d w = SendSome_loop os s dl' (drop n d) w3"
proof -
  obtain r1 w1 where wait: "WaitWritable os s (DeadlineLimited_Remaining dl) w = (r1, w1)" by fastforce
  obtain dl' w2 where tick: "Clocked_Tick os dl w1 = (dl', w2)" by fastforce
  obtain r3 w3 where send: "SendNow os s d w2 = (r3, w3)" by fastforce
  consider e where "r1 = Inl e" | "r1 = Inr False" | "r1 = Inr True" by (cases r1) auto
  then show thesis
  proof cases
    case (1 e) with wait show ?thesis by (intro wait_error) (simp_all add: SendSome_loop_steps(1))
  next
    case 2 with wait show ?thesis by (intro timeout) (simp_all add: SendSome_loop_steps(2))
  next
    case 3
    note w = wait [unfolded 3]
    show ?thesis
    proof (cases r3)
      case (Inl e) with send SendSome_loop_steps(3) [OF w tick] w tick show ?thesis by (intro send_error) auto
    next
      case (Inr n)
      note step = SendSome_loop_steps(4) [OF w tick send [unfolded Inr]]
      show ?thesis
      proof (cases "drop n d \<noteq> [] \<and> DeadlineLimited_TimeLeft dl'")
        case True with step w tick send Inr show ?thesis by (intro again) simp_all
      next
        case False with step w tick send Inr show ?thesis by (intro finish) auto
      qed
    qed
  qed
qed

lemma SendSome_loop_stream:
  assumes "stream_send os stream"
  shows "SendSome_loop os s dl d w = (r, w') \<Longrightarrow>
    \<exists>k \<le> length d. stream w' s = stream w s @ take k d \<and> (\<forall>rest dl'. r = Inr (rest, dl') \<longrightarrow> rest = drop k d)"
proof (induction "length d" arbitrary: d dl w rule: less_induct)
  case less
  have wait: "stream w1 s = stream w s" if "WaitWritable os s t w = (r1, w1)" for t r1 w1
    using Wait_fd_stream [OF assms] that by (simp add: WaitWritable_def)
  have sent: "n \<le> length d \<and> stream w3 s = stream w s @ take n d"
    if "WaitWritable os s t w = (r1, w1)" "Clocked_Tick os dl w1 = (dl', w2)" "SendNow os s d w2 = (Inr n, w3)"
    for t r1 w1 dl' w2 n w3
    using SendNow_stream [OF assms that(3), of n] wait [OF that(1)] Clocked_Tick_stream [OF assms that(2), of s] by auto
  show ?case
  proof (cases rule: SendSome_loop_round [of os s dl w d])
    case (wait_error e w1)
    with less(2) wait show ?thesis by (intro exI [of _ 0]) auto
  next
    case (timeout w1)
    with less(2) wait show ?thesis by (intro exI [of _ 0]) auto
  next
    case (send_error w1 dl' w2 e w3)
    have "stream w3 s = stream w s"
      using SendNow_stream [OF assms send_error(3)] wait [OF send_error(1)] Clocked_Tick_stream [OF assms send_error(2), of s]
      by auto
    with send_error less(2) show ?thesis by (intro exI [of _ 0]) auto
  next
    case (finish w1 dl' w2 n w3)
    with less(2) sent [OF finish(1-3)] show ?thesis by (intro exI [of _ n]) auto
  next
    case (again w1 dl' w2 n w3)
    have "0 < n" using SendNow_Inr(2) [OF again(3)] again(4) by (cases d) auto
    then have "length (drop n d) < length d" using again(4) by simp
    from less(1) [OF this, of dl' w3] less(2) again(6)
    obtain k where "k \<le> length (drop n d)" "stream w' s = stream w3 s @ take k (drop n d)"
      "\<forall>rest dl'. r = Inr (rest, dl') \<longrightarrow> rest = drop k (drop n d)" by auto
    moreover have "drop (n + k) d = drop (k + n) d" by (simp add: add.commute)
    ultimately show ?thesis using sent [OF again(1-3)] by (intro exI [of _ "n + k"]) (auto simp: take_add)
  qed
qed

lemma SocketImpl_Send_stream:
  assumes "stream_send os stream" and "SocketImpl_Send os s data timeout w = (r, w')"
  shows "\<exists>k \<le> length data. stream w' s = stream w s @ take k data
    \<and> (\<forall>n. r = Inr n \<longrightarrow> n = k \<and> (timeout < 0 \<longrightarrow> n = length data))"
proof -
  consider "timeout < 0" | "timeout = 0" | "0 < timeout" by linarith
  then show ?thesis
  proof cases
    case 1
    obtain r1 w1 where loop: "SendAll_loop os s data w = (r1, w1)" by fastforce
    obtain k where k: "k \<le> length data" "stream w1 s = stream w s @ take k data"
      "\<forall>rest. r1 = Inr rest \<longrightarrow> rest = [] \<and> k = length data"
      using SendAll_loop_stream [OF assms(1) loop] by blast
    have "w' = w1 \<and> (\<forall>n. r = Inr n \<longrightarrow> n = k \<and> n = length data)"
      using assms(2) 1 k(3) loop by (cases r1) (auto simp: SocketImpl_Send_def SendAll_def)
    with k show ?thesis by blast
  next
    case 2
    obtain r1 w1 where wait: "WaitWritable os s 0 w = (r1, w1)" by fastforce
    have w1: "stream w1 s = stream w s"
      using Wait_fd_stream [OF assms(1)] wait by (simp add: WaitWritable_def)
    show ?thesis
    proof (cases "r1 = Inr True")
      case True
      then have "SendNow os s data w1 = (r, w')"
        using assms(2) 2 wait by (simp add: SocketImpl_Send_def SendTry_def)
      from SendNow_stream [OF assms(1) this] w1 2 show ?thesis by (cases r) auto
    next
      case False
      then have "w' = w1 \<and> (\<forall>n. r = Inr n \<longrightarrow> n = 0)"
        using assms(2) 2 wait by (cases r1) (auto simp: SocketImpl_Send_def SendTry_def)
      with w1 2 show ?thesis by (intro exI [of _ 0]) auto
    qed
  next
    case 3
    obtain dl w1 where dl: "DeadlineLimited os timeout w = (dl, w1)" by fastforce
    have w1: "stream w1 s = stream w s"
      using dl stream_now [OF assms(1), of w s] by (auto simp: DeadlineLimited_def Clocked_def split: prod.splits)
    obtain r2 w2 where loop: "SendSome_loop os s dl data w1 = (r2, w2)" by fastforce
    obtain k where k: "k \<le> length data" "stream w2 s = stream w1 s @ take k data"
      "\<forall>rest dl'. r2 = Inr (rest, dl') \<longrightarrow> rest = drop k data"
      using SendSome_loop_stream [OF assms(1) loop] by blast
    have "w' = w2 \<and> (\<forall>n. r = Inr n \<longrightarrow> n = k)"
      using assms(2) 3 dl loop k(1,3)
      by (cases r2) (auto simp: SocketImpl_Send_def SendSome_def call_def andthen_def)
    with k w1 3 show ?thesis by auto
  qed
qed

text \<open>
  C21. Whatever the timeout, and however the system splits the data up: \<^verbatim>\<open>Send\<close> puts a prefix of the data
  on the stream, the number it returns is the length of this prefix, and with a negative timeout it
  returns only when everything was sent; also when it throws, only a prefix went out.
\<close>

theorem Send_prefix:
  assumes "stream_send os stream" and "SocketImpl_Send os s data timeout w = (r, w')"
  shows "\<exists>k \<le> length data. stream w' s = stream w s @ take k data
    \<and> (\<forall>n. r = Inr n \<longrightarrow> n = k \<and> (timeout < 0 \<longrightarrow> n = length data))"
  by (rule SocketImpl_Send_stream [OF assms])

definition test_world :: script where
  "test_world = script0\<lparr>s_polls := [(1, [{POLLOUT}]), (1, [{POLLOUT}])], s_sends := [2, 3]\<rparr>"

theorem Send_prefix_witness:
  "\<exists>w'. SocketImpl_Send script_os 3 ''hello'' (-1) test_world = (Inr 5, w')
    \<and> s_stream w' 3 = s_stream test_world 3 @ ''hello''"
proof -
  have "fst (SocketImpl_Send script_os 3 ''hello'' (-1) test_world) = Inr 5" by code_simp
  then obtain w' where run: "SocketImpl_Send script_os 3 ''hello'' (-1) test_world = (Inr 5, w')"
    by (metis prod.collapse)
  from Send_prefix [OF script_os_stream_send run] run show ?thesis by auto
qed

section \<open>Deadlines\<close>

lemma timely_now: "timely os clock \<Longrightarrow> sys_now os w = (t, w') \<Longrightarrow> clock w \<le> t \<and> t \<le> clock w'"
  unfolding timely_def by blast

lemma timely_poll: "timely os clock \<Longrightarrow> clock w \<le> clock (snd (sys_poll os p m w))"
  unfolding timely_def by blast

lemma timely_timeout:
  "timely os clock \<Longrightarrow> 0 \<le> m \<Longrightarrow> sys_poll os p m w = ((0, p'), w') \<Longrightarrow> clock w + m * 1000000 \<le> clock w'"
  unfolding timely_def by blast

lemma timely_SendNow:
  assumes "timely os clock" and "SendNow os s d w = (r, w')"
  shows "clock w \<le> clock w'"
proof -
  have "w' = snd (sys_send os s d w)"
    using assms(2) by (auto simp: SendNow_def andthen_def call_def split: if_splits prod.splits)
  with assms(1) show ?thesis unfolding timely_def by blast
qed

lemma WaitWritable_late:
  assumes "timely os clock" and "WaitWritable os s t w = (r, w')"
  shows "clock w \<le> clock w'" and "r = Inr False \<Longrightarrow> 0 \<le> t \<Longrightarrow> t < 2 ^ 31 \<Longrightarrow> clock w + t * 1000000 \<le> clock w'"
proof -
  show "clock w \<le> clock w'"
    using assms Wait_fd_snd [of os s "{POLLOUT}" t w] timely_poll by (metis WaitWritable_def snd_conv)
  show "clock w + t * 1000000 \<le> clock w'" if "r = Inr False" "0 \<le> t" "t < 2 ^ 31"
  proof -
    have t: "ToMsec t = t" using that by (simp add: ToMsec_eq_iff)
    show ?thesis
      using assms(2) [unfolded WaitWritable_def] that(1,2)
      by (cases rule: Wait_fd_cases) (auto simp: t intro: timely_timeout [OF assms(1)])
  qed
qed

lemma Clocked_Tick_late:
  assumes "timely os clock" and "Clocked_Tick os dl w = (dl', w')"
  shows "clock w \<le> now dl'" and "now dl' \<le> clock w'" and "deadline dl' = deadline dl"
  using timely_now [OF assms(1), of w] assms(2) by (auto simp: Clocked_Tick_def split: prod.splits)

lemma SendSome_loop_late:
  assumes "timely os clock"
  shows "SendSome_loop os s dl d w = (Inr (rest, dl2), w') \<Longrightarrow> rest \<noteq> [] \<Longrightarrow> now dl \<le> clock w \<Longrightarrow>
    deadline dl - now dl < 2 ^ 31 * ns_per_ms \<Longrightarrow> deadline dl - ns_per_ms < clock w'"
proof (induction "length d" arbitrary: d dl w rule: less_induct)
  case less
  show ?case
  proof (cases rule: SendSome_loop_round [of os s dl w d])
    case (wait_error e w1)
    with less(2) show ?thesis by simp
  next
    case (send_error w1 dl' w2 e w3)
    with less(2) show ?thesis by simp
  next
    case (timeout w1)
    have "DeadlineLimited_Remaining dl \<le> 2 ^ 31 - 1"
      using DeadlineLimited_Remaining_lt [OF less(5)] by simp
    then have "clock w + DeadlineLimited_Remaining dl * 1000000 \<le> clock w1"
      using WaitWritable_late(2) [OF assms timeout(1) refl DeadlineLimited_Remaining_nonneg] by simp
    then show ?thesis
      using timeout(2) less(2,4) DeadlineLimited_Remaining_gt [of dl] by (simp add: ns_per_ms_def)
  next
    case (finish w1 dl' w2 n w3)
    with less(2,3) have "\<not> DeadlineLimited_TimeLeft dl'" and w': "w' = w3" by auto
    then have "deadline dl' \<le> now dl'" by (simp add: DeadlineLimited_TimeLeft_def)
    then show ?thesis
      using Clocked_Tick_late [OF assms finish(2)] timely_SendNow [OF assms finish(3)] w' by (simp add: ns_per_ms_def)
  next
    case (again w1 dl' w2 n w3)
    have "0 < n" using SendNow_Inr(2) [OF again(3)] again(4) by (cases d) auto
    then have shorter: "length (drop n d) < length d" using again(4) by simp
    have "clock w \<le> clock w1" using WaitWritable_late(1) [OF assms again(1)] .
    with Clocked_Tick_late [OF assms again(2)] timely_SendNow [OF assms again(3)] less(4,5)
    have "now dl' \<le> clock w3" "deadline dl' - now dl' < 2 ^ 31 * ns_per_ms" "deadline dl' = deadline dl" by auto
    with less(1) [OF shorter, of dl' w3] less(2,3) again(6) show ?thesis by auto
  qed
qed

text \<open>
  C22. A \<^verbatim>\<open>Send\<close> with a positive timeout that returns with less than everything sent did not give up
  early: all of the timeout but less than a millisecond, the rounding of the last wait, has passed.
\<close>

theorem Send_not_early:
  assumes "timely os clock" and "0 < timeout" and "timeout < 2 ^ 31"
    and "SocketImpl_Send os s data timeout w = (Inr n, w')" and "n < length data"
  shows "clock w + (timeout - 1) * 1000000 < clock w'"
proof -
  obtain dl w1 where dl: "DeadlineLimited os timeout w = (dl, w1)" by fastforce
  obtain t where t: "sys_now os w = (t, w1)" "now dl = t" "deadline dl = t + timeout * ns_per_ms"
    using dl by (auto simp: DeadlineLimited_def Clocked_def add_ms_def split: prod.splits)
  obtain rest dl2 where loop: "SendSome_loop os s dl data w1 = (Inr (rest, dl2), w')"
      and n: "n = length data - length rest"
    using assms(2,4) dl
    by (auto simp: SocketImpl_Send_def SendSome_def call_def andthen_def split: prod.splits sum.splits if_splits)
  have "rest \<noteq> []" using n assms(5) by auto
  moreover have "deadline dl - now dl < 2 ^ 31 * ns_per_ms" using t assms(3) by (simp add: ns_per_ms_def)
  ultimately have "deadline dl - ns_per_ms < clock w'"
    using SendSome_loop_late [OF assms(1) loop] t(2) timely_now [OF assms(1) t(1)] by simp
  then show ?thesis using t(3) timely_now [OF assms(1) t(1)] by (simp add: ns_per_ms_def algebra_simps)
qed

definition slow_world :: script where
  "slow_world = script0\<lparr>s_polls := [(1, [{POLLOUT}]), (0, [])], s_sends := [2]\<rparr>"

theorem Send_not_early_witness:
  "\<exists>w'. SocketImpl_Send script_os 3 ''hello'' 20 slow_world = (Inr 2, w') \<and>
    s_clock slow_world + (20 - 1) * 1000000 < s_clock w'"
proof -
  have "fst (SocketImpl_Send script_os 3 ''hello'' 20 slow_world) = Inr 2" by code_simp
  then obtain w' where run: "SocketImpl_Send script_os 3 ''hello'' 20 slow_world = (Inr 2, w')"
    by (metis prod.collapse)
  with Send_not_early [of script_os s_clock 20 3 "''hello''" slow_world 2 w'] show ?thesis by auto
qed

section \<open>Descriptors\<close>

text \<open>
  Which descriptors are open: \<^verbatim>\<open>socket\<close> and \<^verbatim>\<open>accept\<close> open a new one when they succeed, \<^verbatim>\<open>close\<close> closes its
  argument, and the other calls on the way do neither.
\<close>

definition tracks_fds :: "'w os \<Rightarrow> 'w netdb \<Rightarrow> ('w \<Rightarrow> fd set) \<Rightarrow> bool" where
  "tracks_fds os nd opens \<longleftrightarrow>
     (\<forall>fam type proto w s w'. sys_socket os fam type proto w = (s, w') \<longrightarrow>
        (if s = fdInvalid then opens w' = opens w else s \<notin> opens w \<and> opens w' = insert s (opens w)))
   \<and> (\<forall>l w s a w'. sys_accept os l w = ((s, a), w') \<longrightarrow>
        (if s = fdInvalid then opens w' = opens w else s \<notin> opens w \<and> opens w' = insert s (opens w)))
   \<and> (\<forall>s w. opens (sys_close os s w) = opens w - {s})
   \<and> (\<forall>s. leaves opens (call (sys_fcntl_getfl os s)))
   \<and> (\<forall>s v. leaves opens (call (sys_fcntl_setfl os s v)))
   \<and> (\<forall>s opt v. leaves opens (call (sys_setsockopt os s opt v)))
   \<and> (\<forall>s a. leaves opens (call (sys_bind os s a)))
   \<and> (\<forall>s a. leaves opens (call (sys_connect os s a)))
   \<and> (\<forall>a bh bs. leaves opens (call (nd_getnameinfo nd a bh bs)))"

lemma tracks_socket:
  assumes "tracks_fds os nd opens" and "sys_socket os fam type proto w = (s, w')"
  shows "if s = fdInvalid then opens w' = opens w else s \<notin> opens w \<and> opens w' = insert s (opens w)"
  using conjunct1 [OF assms(1) [unfolded tracks_fds_def]] assms(2) by presburger

lemma tracks_accept:
  assumes "tracks_fds os nd opens" and "sys_accept os l w = ((s, a), w')"
  shows "if s = fdInvalid then opens w' = opens w else s \<notin> opens w \<and> opens w' = insert s (opens w)"
  using conjunct1 [OF conjunct2 [OF assms(1) [unfolded tracks_fds_def]]] assms(2) by presburger

lemma leaves_throw_with_address:
  assumes "tracks_fds os nd opens"
  shows "leaves opens (throw_with_address os nd msg a)"
proof -
  have "leaves opens (call (nd_getnameinfo nd x bh bs))" for x bh bs
    using assms unfolding tracks_fds_def by blast
  then show ?thesis
    unfolding throw_with_address_def to_string_view_def Let_def
    by (auto intro!: leaves_intros split: prod.splits)
qed

lemma leaves_options:
  assumes "tracks_fds os nd opens"
  shows "leaves opens (SetSockOptNonBlocking os s)" "leaves opens (SetSockOptReuseAddr os s)"
    "leaves opens (SetSockOptBroadcast os s)" "leaves opens (SetSockOptNoSigPipe os s)"
    "leaves opens (Bind os nd s a)" "leaves opens (Connect os nd s a)"
proof -
  have calls: "leaves opens (call (sys_fcntl_getfl os s))" "leaves opens (call (sys_fcntl_setfl os s v))"
    "leaves opens (call (sys_setsockopt os s opt v))" "leaves opens (call (sys_bind os s b))"
    "leaves opens (call (sys_connect os s b))" for v opt b
    using assms unfolding tracks_fds_def by blast+
  show "leaves opens (SetSockOptNonBlocking os s)" "leaves opens (SetSockOptReuseAddr os s)"
    "leaves opens (SetSockOptBroadcast os s)" "leaves opens (SetSockOptNoSigPipe os s)"
    "leaves opens (Bind os nd s a)" "leaves opens (Connect os nd s a)"
    unfolding SetSockOptNonBlocking_def SetSockOptReuseAddr_def SetSockOptBroadcast_def SetSockOptNoSigPipe_def
      SetBlocking_def DoSetBlocking_def SetSockOpt_def Bind_def Connect_def
    by (intro leaves_intros calls leaves_throw_with_address [OF assms])+
qed

lemma owning_closes:
  assumes "tracks_fds os nd opens" and "leaves opens m" and "owning os s m w = (r, w')" and "s \<noteq> fdInvalid"
  shows "case r of Inl _ \<Rightarrow> opens w' = opens w - {s} | Inr _ \<Rightarrow> opens w' = opens w"
proof -
  obtain r1 w1 where m: "m w = (r1, w1)" by fastforce
  have "opens w1 = opens w" using assms(2) m by (metis leaves_def snd_conv)
  moreover have "opens (sys_close os s w1) = opens w1 - {s}" using assms(1) unfolding tracks_fds_def by blast
  ultimately show ?thesis
    using assms(3,4) m by (cases r1) (auto simp: owning_def SocketImpl_destroy_def)
qed

text \<open>A new socket, configured under the protection of its owner.\<close>

lemma new_socket_owned:
  assumes tr: "tracks_fds os nd opens" and body: "\<And>s. leaves opens (m s)" and ret: "\<And>s w x w'. m s w = (Inr x, w') \<Longrightarrow> x = s"
    and run: "andthen (SocketImpl os fam type proto) (\<lambda>s. owning os s (m s)) w = (r, w')"
  shows "case r of Inl _ \<Rightarrow> opens w' = opens w | Inr s \<Rightarrow> s \<notin> opens w \<and> opens w' = insert s (opens w)"
proof -
  obtain s w1 where s: "sys_socket os fam type proto w = (s, w1)" by fastforce
  have op: "if s = fdInvalid then opens w1 = opens w else s \<notin> opens w \<and> opens w1 = insert s (opens w)"
    by (rule tracks_socket [OF tr s])
  show ?thesis
  proof (cases "s = fdInvalid")
    case True
    then show ?thesis using run s op by (auto simp: SocketImpl_def andthen_def call_def)
  next
    case False
    then have own: "owning os s (m s) w1 = (r, w')" using run s by (simp add: SocketImpl_def andthen_def call_def)
    have "\<And>x. r = Inr x \<Longrightarrow> x = s" using own ret [of s w1]
      by (auto simp: owning_def on_throw_def split: prod.splits sum.splits)
    with owning_closes [OF tr body own False] op False show ?thesis by (cases r) auto
  qed
qed

lemma SocketUdp_owned:
  assumes "tracks_fds os nd opens" and "SocketUdp os nd a w = (r, w')"
  shows "case r of Inl _ \<Rightarrow> opens w' = opens w | Inr s \<Rightarrow> s \<notin> opens w \<and> opens w' = insert s (opens w)"
proof (cases "deref a (AddressImpl_Family nd)")
  case (Inl e)
  then show ?thesis using assms(2) by (auto simp: SocketUdp_def)
next
  case (Inr fam)
  show ?thesis
    by (rule new_socket_owned [OF assms(1) _ _ assms(2) [unfolded SocketUdp_def Inr lift_sum_simps andthen_ret]])
      (auto intro!: leaves_intros leaves_options [OF assms(1)] simp: exec_elims)
qed

lemma SocketTcp_owned:
  assumes "tracks_fds os nd opens" and "SocketTcp os nd a w = (r, w')"
  shows "case r of Inl _ \<Rightarrow> opens w' = opens w | Inr s \<Rightarrow> s \<notin> opens w \<and> opens w' = insert s (opens w)"
proof (cases "deref a (AddressImpl_Family nd)")
  case (Inl e)
  then show ?thesis using assms(2) by (auto simp: SocketTcp_def)
next
  case (Inr fam)
  show ?thesis
    by (rule new_socket_owned [OF assms(1) _ _ assms(2) [unfolded SocketTcp_def Inr lift_sum_simps andthen_ret]])
      (auto intro!: leaves_intros leaves_options [OF assms(1)] simp: exec_elims)
qed

lemma Acceptor_owned:
  assumes "tracks_fds os nd opens" and "Acceptor os nd a w = (r, w')"
  shows "case r of Inl _ \<Rightarrow> opens w' = opens w | Inr s \<Rightarrow> s \<notin> opens w \<and> opens w' = insert s (opens w)"
proof (cases "deref a (AddressImpl_Family nd)")
  case (Inl e)
  then show ?thesis using assms(2) by (auto simp: Acceptor_def)
next
  case (Inr fam)
  show ?thesis
    by (rule new_socket_owned [OF assms(1) _ _ assms(2) [unfolded Acceptor_def Inr lift_sum_simps andthen_ret]])
      (auto intro!: leaves_intros leaves_options [OF assms(1)] simp: exec_elims)
qed

lemma Accept_owned:
  assumes tr: "tracks_fds os nd opens" and run: "SocketImpl_Accept os nd l w = (r, w')"
  shows "case r of Inl _ \<Rightarrow> opens w' = opens w | Inr (s, _) \<Rightarrow> s \<notin> opens w \<and> opens w' = insert s (opens w)"
proof -
  obtain s a w1 where s: "sys_accept os l w = ((s, a), w1)" by (metis prod.collapse)
  note op = tracks_accept [OF tr s]
  let ?m = "andthen (SetSockOptNoSigPipe os s) (\<lambda>_. andthen (SetSockOptNonBlocking os s) (\<lambda>_. ret s))"
  show ?thesis
  proof (cases "s = fdInvalid")
    case True
    then have "\<exists>e. r = Inl e \<and> w' = w1"
      using run s by (auto simp: SocketImpl_Accept_def accept_fd_def SocketImpl_fd_def andthen_def call_def)
    with op True show ?thesis by auto
  next
    case False
    obtain r1 w2 where own: "owning os s ?m w1 = (r1, w2)" by fastforce
    have "leaves opens ?m" by (intro leaves_intros leaves_options [OF tr])
    note closes = owning_closes [OF tr this own False]
    have "\<And>x. r1 = Inr x \<Longrightarrow> x = s"
      using own by (auto simp: owning_def on_throw_def exec_elims split: prod.splits sum.splits)
    moreover have "w' = w2 \<and> (case r1 of Inl e \<Rightarrow> r = Inl e | Inr x \<Rightarrow> \<exists>addr. r = Inr (x, addr))"
      using run s own False
      by (cases r1)
        (auto simp: SocketImpl_Accept_def accept_fd_def SocketImpl_fd_def SocketTcp_adopt_def andthen_def call_def)
    ultimately show ?thesis using closes op False by (cases r1) auto
  qed
qed

text \<open>
  C23. No descriptor is leaked: each of the three socket constructors and \<^verbatim>\<open>Accept\<close> either throws and leaves
  the open descriptors as they were, wherever it failed, or yields one new open descriptor.
\<close>

theorem constructors_own_descriptors:
  assumes "tracks_fds os nd opens"
    and "m \<in> {SocketUdp os nd a, SocketTcp os nd a, Acceptor os nd a,
      andthen (SocketImpl_Accept os nd l) (\<lambda>client. ret (fst client))}"
    and "m w = (r, w')"
  shows "case r of Inl _ \<Rightarrow> opens w' = opens w | Inr s \<Rightarrow> s \<notin> opens w \<and> opens w' = insert s (opens w)"
proof -
  have "case r of Inl _ \<Rightarrow> opens w' = opens w | Inr s \<Rightarrow> s \<notin> opens w \<and> opens w' = insert s (opens w)"
    if acc: "andthen (SocketImpl_Accept os nd l) (\<lambda>client. ret (fst client)) w = (r, w')"
  proof -
    obtain r1 w1 where r1: "SocketImpl_Accept os nd l w = (r1, w1)" by fastforce
    from Accept_owned [OF assms(1) this] acc r1 show ?thesis by (cases r1) auto
  qed
  then show ?thesis
    using assms(2,3) SocketUdp_owned [OF assms(1)] SocketTcp_owned [OF assms(1)] Acceptor_owned [OF assms(1)] by auto
qed

lemma script_os_tracks_fds: "tracks_fds script_os test_netdb_script (\<lambda>w. set (s_open w))"
proof -
  have fresh: "x \<in> set xs \<Longrightarrow> x \<le> foldr max xs n" for x n :: int and xs
    by (induction xs) auto
  have pos: "n \<le> foldr max xs n" for n :: int and xs
    by (induction xs) auto
  have new: "1 + foldr max xs 2 \<notin> set xs \<and> 1 + foldr max xs 2 \<noteq> -1" for xs :: "int list"
    using fresh [of "1 + foldr max xs 2" xs 2] pos [of 2 xs] by auto
  show ?thesis
    unfolding tracks_fds_def script_os_def test_netdb_script_def
    using new by (auto simp: script_socket_def script_accept_def script_close_def leaves_def fdInvalid_def Let_def
        split: list.splits if_splits)
qed

theorem constructors_own_descriptors_witness:
  "\<exists>e w'. SocketTcp script_os test_netdb_script (Some (SockAddrStorage [2, 0, 1, 0] 4))
      (script0\<lparr>s_result := (\<lambda>f. if f = ''connect'' then -1 else 0)\<rparr>) = (Inl e, w') \<and> set (s_open w') = {}"
proof -
  let ?w = "script0\<lparr>s_result := (\<lambda>f. if f = ''connect'' then -1 else 0)\<rparr>"
  let ?a = "Some (SockAddrStorage [2, 0, 1, 0] 4)"
  have "\<not> isl (fst (SocketTcp script_os test_netdb_script ?a ?w)) \<longrightarrow> False" by code_simp
  then obtain e w' where run: "SocketTcp script_os test_netdb_script ?a ?w = (Inl e, w')"
    by (metis isl_def prod.collapse)
  have "SocketTcp script_os test_netdb_script ?a \<in> {SocketUdp script_os test_netdb_script ?a,
      SocketTcp script_os test_netdb_script ?a, Acceptor script_os test_netdb_script ?a,
      andthen (SocketImpl_Accept script_os test_netdb_script 3) (\<lambda>client. ret (fst client))}" by simp
  from constructors_own_descriptors [OF script_os_tracks_fds this run] run show ?thesis
    by (auto simp: script0_def)
qed

end
