(* ===== verification/Buffered.thy ===== *)
theory Buffered
  imports Socket BufferPool AddressSpec
begin

text \<open>
  \<^verbatim>\<open>src/socket_buffered_impl.cpp\<close> and the classes of \<^verbatim>\<open>src/socket_buffered.cpp\<close>: a socket with a pool of
  receive buffers.  A buffer that is obtained for a receive belongs to the caller on success and goes
  back to the pool when nothing arrives in time or the receive throws.
\<close>

section \<open>State\<close>

text \<open>
  The socket descriptor and the buffer size never change and are arguments; the pool and the world are
  the state.
\<close>

record 'w buffered =
  bw_pool :: pool
  bw_world :: 'w

definition in_pool :: "(pool, 'a) exec \<Rightarrow> ('w buffered, 'a) exec" where
  "in_pool = zoom bw_pool (\<lambda>p s. s\<lparr>bw_pool := p\<rparr>)"

definition in_world :: "('w, 'a) exec \<Rightarrow> ('w buffered, 'a) exec" where
  "in_world = zoom bw_world (\<lambda>w s. s\<lparr>bw_world := w\<rparr>)"

lemma in_pool_run [simp]: "in_pool m s = (fst (m (bw_pool s)), s\<lparr>bw_pool := snd (m (bw_pool s))\<rparr>)"
  by (simp add: in_pool_def)

lemma in_world_run [simp]: "in_world m s = (fst (m (bw_world s)), s\<lparr>bw_world := snd (m (bw_world s))\<rparr>)"
  by (simp add: in_world_def)

section \<open>Operations\<close>

text \<open>The constructor takes the socket over; when it throws, the socket is closed.\<close>

definition SocketBufferedImpl :: "'w os \<Rightarrow> 'w vtable \<Rightarrow> fd \<Rightarrow> 64 word \<Rightarrow> nat \<Rightarrow> ('w, nat \<times> pool) exec" where
  "SocketBufferedImpl os vt sock rxBufCount rxBufSize =
     on_throw
       (andthen (if rxBufSize \<noteq> 0 then ret rxBufSize else GetSockOptRcvBuf os sock) (\<lambda>sz.
        ret (sz, BufferPool rxBufCount sz)))
       (v_destroy vt sock)"

definition GetBuffer :: "nat \<Rightarrow> ('w buffered, ptr) exec" where
  "GetBuffer rxBufSize =
     andthen (in_pool BufferPool_Get) (\<lambda>buffer.
     andthen (in_pool (modify (pool_write buffer (buf_resize rxBufSize)))) (\<lambda>_. ret buffer))"

text \<open>Leaving the scope of a \<^verbatim>\<open>BufferPtr\<close>.\<close>

definition drop_buffer :: "ptr \<Rightarrow> 'w buffered \<Rightarrow> 'w buffered" where
  "drop_buffer buffer s = snd (in_pool (Recycler (Some buffer)) s)"

definition buffer_size :: "ptr \<Rightarrow> 'w buffered \<Rightarrow> nat" where
  "buffer_size buffer s = length (content (buf_at (bw_pool s) buffer))"

text \<open>The bytes a call wrote to the data of a buffer, and the \<^verbatim>\<open>resize\<close> after it.\<close>

definition fill_buffer :: "ptr \<Rightarrow> nat \<Rightarrow> string \<Rightarrow> ('w buffered, unit) exec" where
  "fill_buffer buffer received data =
     in_pool (modify (pool_write buffer (\<lambda>b. buf_resize received (b\<lparr>content := overwrite (content b) 0 data\<rparr>))))"

definition Buffered_Receive_wait :: "'w vtable \<Rightarrow> fd \<Rightarrow> nat \<Rightarrow> duration \<Rightarrow> ('w buffered, ptr option) exec" where
  "Buffered_Receive_wait vt sock rxBufSize timeout =
     andthen (GetBuffer rxBufSize) (\<lambda>buffer.
     on_throw
       (andthen (get (buffer_size buffer)) (\<lambda>sz.
        andthen (in_world (v_Receive_wait vt sock sz timeout)) (\<lambda>received.
          case received of
            Some (n, data) \<Rightarrow> andthen (fill_buffer buffer n data) (\<lambda>_. ret (Some buffer))
          | None \<Rightarrow> andthen (modify (drop_buffer buffer)) (\<lambda>_. ret None))))
       (drop_buffer buffer))"

definition Buffered_Receive :: "'w vtable \<Rightarrow> fd \<Rightarrow> nat \<Rightarrow> ('w buffered, ptr) exec" where
  "Buffered_Receive vt sock rxBufSize =
     andthen (GetBuffer rxBufSize) (\<lambda>buffer.
     on_throw
       (andthen (get (buffer_size buffer)) (\<lambda>sz.
        andthen (in_world (v_Receive vt sock sz)) (\<lambda>(n, data).
        andthen (fill_buffer buffer n data) (\<lambda>_. ret buffer))))
       (drop_buffer buffer))"

definition Buffered_ReceiveFrom :: "'w os \<Rightarrow> 'w netdb \<Rightarrow> fd \<Rightarrow> nat \<Rightarrow> ('w buffered, ptr \<times> address) exec" where
  "Buffered_ReceiveFrom os nd sock rxBufSize =
     andthen (GetBuffer rxBufSize) (\<lambda>buffer.
     on_throw
       (andthen (get (buffer_size buffer)) (\<lambda>sz.
        andthen (in_world (ReceiveFrom os nd sock sz)) (\<lambda>((n, data), from).
        andthen (fill_buffer buffer n data) (\<lambda>_. ret (buffer, from)))))
       (drop_buffer buffer))"

definition Buffered_ReceiveFrom_wait ::
  "'w os \<Rightarrow> 'w netdb \<Rightarrow> fd \<Rightarrow> nat \<Rightarrow> duration \<Rightarrow> ('w buffered, (ptr \<times> address) option) exec" where
  "Buffered_ReceiveFrom_wait os nd sock rxBufSize timeout =
     andthen (in_world (WaitReadable os sock timeout)) (\<lambda>ready.
       if \<not> ready then ret None
       else andthen (Buffered_ReceiveFrom os nd sock rxBufSize) (\<lambda>r. ret (Some r)))"

text \<open>Sending is passed through to the socket.\<close>

definition SocketUdpBuffered_SendTo ::
  "'w os \<Rightarrow> 'w netdb \<Rightarrow> fd \<Rightarrow> string \<Rightarrow> address \<Rightarrow> duration \<Rightarrow> ('w buffered, nat) exec" where
  "SocketUdpBuffered_SendTo os nd sock data dstAddress timeout =
     andthen (lift_sum (deref dstAddress ForUdp)) (\<lambda>view. in_world (SendTo_wait os nd sock data view timeout))"

definition SocketTcpBuffered_Send :: "'w vtable \<Rightarrow> fd \<Rightarrow> string \<Rightarrow> duration \<Rightarrow> ('w buffered, nat) exec" where
  "SocketTcpBuffered_Send vt sock data timeout = in_world (v_Send vt sock data timeout)"

section \<open>Ownership of the buffers\<close>

abbreviation lent :: "'w buffered \<Rightarrow> ptr set" where
  "lent s \<equiv> set (m_busy (bw_pool s))"

lemma lent_pool_write [simp]: "lent (s\<lparr>bw_pool := pool_write b f (bw_pool s)\<rparr>) = lent s"
  by simp

lemma GetBuffer_Inr:
  assumes "GetBuffer n s = (Inr b, t)" and "pool_inv (bw_pool s)"
  shows "b \<notin> lent s" and "lent t = insert b (lent s)" and "pool_inv (bw_pool t)" and "buffer_size b t = n"
    and "bw_world t = bw_world s"
proof -
  obtain p where g: "BufferPool_Get (bw_pool s) = (Inr b, p)"
    and t: "t = s\<lparr>bw_pool := pool_write b (buf_resize n) p\<rparr>"
    using assms(1) by (auto simp: GetBuffer_def andthen_eq_Inr) (metis prod.collapse)
  from pool.acquire_ok [OF assms(2) g] t
  show "b \<notin> lent s" "lent t = insert b (lent s)" "pool_inv (bw_pool t)" "buffer_size b t = n" "bw_world t = bw_world s"
    by (simp_all add: buffer_size_def buf_resize_def)
qed

lemma GetBuffer_Inl:
  assumes "GetBuffer n s = (Inl e, t)" and "pool_inv (bw_pool s)"
  shows "t = s" and "e = RuntimeError ''out of buffers''"
proof -
  have g: "BufferPool_Get (bw_pool s) = (Inl e, bw_pool t)" and s: "t = s\<lparr>bw_pool := bw_pool t\<rparr>"
    using assms(1) by (auto simp: GetBuffer_def andthen_eq_Inl) (metis prod.collapse)
  from pool.acquire_fails [OF assms(2) g] s show "t = s" by simp
  from g show "e = RuntimeError ''out of buffers''" by (cases rule: Get_cases) auto
qed

lemma drop_buffer_lent:
  assumes "pool_inv (bw_pool s)" and "b \<in> lent s"
  shows "lent (drop_buffer b s) = lent s - {b}" and "pool_inv (bw_pool (drop_buffer b s))"
proof -
  obtain p where "BufferPool_Recycle b (bw_pool s) = (Inr (), p)" "set (m_busy p) = lent s - {b}" "pool_inv p"
    using pool.release_ok [OF assms] by blast
  moreover from this(1) have "drop_buffer b s = s\<lparr>bw_pool := p\<rparr>" by (simp add: drop_buffer_def Recycler_def)
  ultimately show "lent (drop_buffer b s) = lent s - {b}" "pool_inv (bw_pool (drop_buffer b s))" by simp_all
qed

text \<open>What a receive into a new buffer does: the buffer, what the socket delivered, and the end of the scope.\<close>

definition received_into :: "ptr \<Rightarrow> nat \<Rightarrow> string \<Rightarrow> 'w buffered \<Rightarrow> 'w buffered" where
  "received_into b k d s = s\<lparr>bw_pool := pool_write b (\<lambda>x. buf_resize k (x\<lparr>content := overwrite (content x) 0 d\<rparr>)) (bw_pool s)\<rparr>"

lemma fill_buffer_run [simp]: "fill_buffer b k d s = (Inr (), received_into b k d s)"
  by (simp add: fill_buffer_def received_into_def)

lemma received_into_simps [simp]:
  "lent (received_into b k d s) = lent s"
  "pool_inv (bw_pool (received_into b k d s)) = pool_inv (bw_pool s)"
  "bw_world (received_into b k d s) = bw_world s"
  by (simp_all add: received_into_def)

lemma received_into_content:
  assumes "length d = k" and "k \<le> buffer_size b s"
  shows "content (buf_at (bw_pool (received_into b k d s)) b) = d"
  using assms by (simp add: received_into_def buf_resize_def str_resize_le overwrite_def buffer_size_def)

lemma Buffered_Receive_run:
  assumes "GetBuffer n s = (Inr b, t)" and "pool_inv (bw_pool s)"
  shows "Buffered_Receive vt sock n s =
    (case v_Receive vt sock n (bw_world s) of
       (Inl e, w) \<Rightarrow> (Inl e, drop_buffer b (t\<lparr>bw_world := w\<rparr>))
     | (Inr (k, d), w) \<Rightarrow> (Inr b, received_into b k d (t\<lparr>bw_world := w\<rparr>)))"
  using assms(1) GetBuffer_Inr(4,5) [OF assms]
  by (auto simp: Buffered_Receive_def andthen_def on_throw_def split: prod.split sum.split)

lemma Buffered_Receive_wait_run:
  assumes "GetBuffer n s = (Inr b, t)" and "pool_inv (bw_pool s)"
  shows "Buffered_Receive_wait vt sock n timeout s =
    (case v_Receive_wait vt sock n timeout (bw_world s) of
       (Inl e, w) \<Rightarrow> (Inl e, drop_buffer b (t\<lparr>bw_world := w\<rparr>))
     | (Inr None, w) \<Rightarrow> (Inr None, drop_buffer b (t\<lparr>bw_world := w\<rparr>))
     | (Inr (Some (k, d)), w) \<Rightarrow> (Inr (Some b), received_into b k d (t\<lparr>bw_world := w\<rparr>)))"
  using assms(1) GetBuffer_Inr(4,5) [OF assms]
  by (auto simp: Buffered_Receive_wait_def andthen_def on_throw_def split: prod.split sum.split option.split)

lemma Buffered_ReceiveFrom_run:
  assumes "GetBuffer n s = (Inr b, t)" and "pool_inv (bw_pool s)"
  shows "Buffered_ReceiveFrom os nd sock n s =
    (case ReceiveFrom os nd sock n (bw_world s) of
       (Inl e, w) \<Rightarrow> (Inl e, drop_buffer b (t\<lparr>bw_world := w\<rparr>))
     | (Inr ((k, d), from), w) \<Rightarrow> (Inr (b, from), received_into b k d (t\<lparr>bw_world := w\<rparr>)))"
  using assms(1) GetBuffer_Inr(4,5) [OF assms]
  by (auto simp: Buffered_ReceiveFrom_def andthen_def on_throw_def split: prod.split sum.split)

text \<open>The buffer goes back on every path that does not hand it out.\<close>

lemma dropped_lent:
  assumes "GetBuffer n s = (Inr b, t)" and "pool_inv (bw_pool s)"
  shows "lent (drop_buffer b (t\<lparr>bw_world := w\<rparr>)) = lent s" "pool_inv (bw_pool (drop_buffer b (t\<lparr>bw_world := w\<rparr>)))"
  using drop_buffer_lent [of "t\<lparr>bw_world := w\<rparr>" b] GetBuffer_Inr [OF assms] by auto

text \<open>
  C24. A receive with a buffer hands out exactly one buffer that nobody held, filled with just the bytes
  that arrived, or none: when nothing arrives in time, when the socket throws and when the pool is
  exhausted, the set of lent buffers is what it was before.
\<close>

theorem Buffered_Receive_ownership:
  assumes "pool_inv (bw_pool s)"
    and "\<And>w k d w'. v_Receive_wait vt sock n timeout w = (Inr (Some (k, d)), w') \<Longrightarrow> length d = k \<and> k \<le> n"
    and "Buffered_Receive_wait vt sock n timeout s = (r, t)"
  shows "pool_inv (bw_pool t) \<and>
    (case r of
       Inr (Some b) \<Rightarrow> b \<notin> lent s \<and> lent t = insert b (lent s) \<and>
         (\<exists>d. v_Receive_wait vt sock n timeout (bw_world s) = (Inr (Some (length d, d)), bw_world t)
            \<and> content (buf_at (bw_pool t) b) = d)
     | _ \<Rightarrow> lent t = lent s)"
proof -
  obtain g u where g: "GetBuffer n s = (g, u)" by fastforce
  show ?thesis
  proof (cases g)
    case (Inl e)
    then have "r = Inl e" "t = u" using assms(3) g by (simp_all add: Buffered_Receive_wait_def)
    with GetBuffer_Inl(1) [OF g [unfolded Inl] assms(1)] assms(1) show ?thesis by simp
  next
    case (Inr b)
    note gb = g [unfolded Inr]
    obtain rr w where rr: "v_Receive_wait vt sock n timeout (bw_world s) = (rr, w)" by fastforce
    consider e where "rr = Inl e" | "rr = Inr None" | k d where "rr = Inr (Some (k, d))" by (metis sum.exhaust option.exhaust prod.exhaust)
    then show ?thesis
    proof cases
      case (1 e)
      with assms(3) rr dropped_lent [OF gb assms(1)] show ?thesis by (auto simp: Buffered_Receive_wait_run [OF gb assms(1)])
    next
      case 2
      with assms(3) rr dropped_lent [OF gb assms(1)] show ?thesis by (auto simp: Buffered_Receive_wait_run [OF gb assms(1)])
    next
      case (3 k d)
      have len: "length d = k" "k \<le> n" using assms(2) [of "bw_world s" k d w] rr 3 by simp_all
      have rt: "r = Inr (Some b)" "t = received_into b k d (u\<lparr>bw_world := w\<rparr>)"
        using assms(3) rr 3 by (simp_all add: Buffered_Receive_wait_run [OF gb assms(1)])
      have "k \<le> buffer_size b (u\<lparr>bw_world := w\<rparr>)"
        using len GetBuffer_Inr(4) [OF gb assms(1)] by (simp add: buffer_size_def)
      from received_into_content [OF len(1) this] GetBuffer_Inr [OF gb assms(1)] rr 3 len
      show ?thesis by (auto simp: rt)
    qed
  qed
qed

definition rx_world :: "script buffered" where
  "rx_world = \<lparr>bw_pool = BufferPool 1 8, bw_world = script0\<lparr>s_polls := [(1, [{POLLIN}])], s_recvs := [(3, ''abc'')]\<rparr>\<rparr>"

lemma Receive_length:
  assumes "recv_bounded os" and "Receive os sock n timeout w = (Inr (Some (k, d)), w')"
  shows "length d = k \<and> k \<le> n"
proof -
  obtain w1 r where "sys_recv os sock n w1 = ((r, d), w')" "0 \<le> r" "k = nat r"
    using assms(2) by (auto simp: Receive_def ReceiveNow_def exec_elims call_def split: if_splits prod.splits)
  with assms(1) show ?thesis unfolding recv_bounded_def by fastforce
qed

theorem Buffered_Receive_ownership_witness:
  "\<exists>b t. Buffered_Receive_wait (SocketImpl_vtable script_os test_netdb_script) 3 8 5 rx_world = (Inr (Some b), t)
    \<and> lent t = {b}"
proof -
  let ?vt = "SocketImpl_vtable script_os test_netdb_script"
  have "fst (Buffered_Receive_wait ?vt 3 8 5 rx_world) = Inr (Some 0)" by code_simp
  then obtain t where run: "Buffered_Receive_wait ?vt 3 8 5 rx_world = (Inr (Some 0), t)" by (metis prod.collapse)
  have "pool_inv (bw_pool rx_world)" and "lent rx_world = {}" by (simp_all add: rx_world_def BufferPool_new)
  then have "lent t = {0}"
    using Buffered_Receive_ownership [OF _ _ run] Receive_length [OF script_os_recv_bounded]
    by (simp add: SocketImpl_vtable_def)
  with run show ?thesis by blast
qed

end
