(* ===== verification/Calm.thy ===== *)
theory Calm
  imports Buffered
begin

text \<open>
  What the system calls do not touch, the operations on sockets do not touch either: an observation of the
  world that every call leaves as it is survives everything that is built from the calls.
\<close>

lemma leaves_call [leaves_intros]: "(\<And>w. f (snd (g w)) = f w) \<Longrightarrow> leaves f (call g)"
  by (simp add: leaves_def)

lemma leaves_on_throw [leaves_intros]: "leaves f m \<Longrightarrow> (\<And>s. f (d s) = f s) \<Longrightarrow> leaves f (on_throw m d)"
proof (unfold leaves_def, intro allI)
  fix s
  assume m: "\<forall>s. f (snd (m s)) = f s" and d: "\<And>s. f (d s) = f s"
  obtain r t where "m s = (r, t)" by fastforce
  with spec [OF m, of s] d show "f (snd (on_throw m d s)) = f s" by (cases r) simp_all
qed

lemma leaves_modify [leaves_intros]: "(\<And>h. f (g h) = f h) \<Longrightarrow> leaves f (modify g)"
  by (simp add: leaves_def)

locale calm_system =
  fixes f :: "'w \<Rightarrow> 'x" and os :: "'w os" and nd :: "'w netdb"
  assumes now: "f (snd (sys_now os w)) = f w"
    and poll: "f (snd (sys_poll os ps ms w)) = f w"
    and socket: "f (snd (sys_socket os fam ty pr w)) = f w"
    and close: "f (sys_close os s w) = f w"
    and fcntl: "f (snd (sys_fcntl_getfl os s w)) = f w" "f (snd (sys_fcntl_setfl os s flags w)) = f w"
    and sockopt: "f (snd (sys_setsockopt os s opt v w)) = f w" "f (snd (sys_getsockopt os s opt w)) = f w"
    and recv: "f (snd (sys_recv os s n w)) = f w" "f (snd (sys_recvfrom os s n w)) = f w"
    and send: "f (snd (sys_send os s data w)) = f w" "f (snd (sys_sendto os s data dst w)) = f w"
    and bind: "f (snd (sys_bind os s addr w)) = f w" "f (snd (sys_connect os s addr w)) = f w"
    and listen: "f (snd (sys_listen os s backlog w)) = f w" "f (snd (sys_accept os s w)) = f w"
    and names: "f (snd (sys_getsockname os s w)) = f w" "f (snd (sys_getpeername os s w)) = f w"
    and printed: "f (snd (nd_getnameinfo nd addr b1 b2 w)) = f w"
begin

lemmas calls = now poll socket close fcntl sockopt recv send bind listen names printed

lemma destroyed [simp]: "f (SocketImpl_destroy os s w) = f w"
  by (simp add: SocketImpl_destroy_def close)

lemma clocks: "f (snd (Clocked os w)) = f w" "f (snd (DeadlineLimited os d w)) = f w" "f (snd (Clocked_Tick os c w)) = f w"
  by (simp_all add: Clocked_def DeadlineLimited_def Clocked_Tick_def calls case_prod_unfold Let_def)

lemma waits: "leaves f (Wait_fd os s ev t)" "leaves f (WaitReadable os s t)" "leaves f (WaitWritable os s t)" "leaves f (Wait os ps t)"
  unfolding WaitReadable_def WaitWritable_def Wait_fd_def Wait_def DoPoll_def case_prod_beta
  by (intro leaves_intros calls)+

lemma options:
  "leaves f (SetBlocking os s b m)" "leaves f (SetSockOpt os s opt v m)" "leaves f (GetSockOpt os s opt m)"
  unfolding SetBlocking_def DoSetBlocking_def SetSockOpt_def GetSockOpt_def case_prod_beta
  by (intro leaves_intros calls)+

lemma named_options:
  "leaves f (SetSockOptNonBlocking os s)" "leaves f (SetSockOptReuseAddr os s)" "leaves f (SetSockOptBroadcast os s)"
  "leaves f (SetSockOptNoSigPipe os s)" "leaves f (GetSockOptRcvBuf os s)"
  unfolding SetSockOptNonBlocking_def SetSockOptReuseAddr_def SetSockOptBroadcast_def SetSockOptNoSigPipe_def
    GetSockOptRcvBuf_def by (intro leaves_intros options)+

lemma owned: "leaves f m \<Longrightarrow> leaves f (owning os s m)"
  unfolding owning_def by (intro leaves_intros destroyed)

lemma receives: "leaves f (ReceiveNow os s n)" "leaves f (ReceiveFrom os nd s n)"
  unfolding ReceiveNow_def ReceiveFrom_def case_prod_beta by (intro leaves_intros calls)+

lemma printed_addresses: "leaves f (to_string_view nd a)" "leaves f (Address_to_string nd addr)"
proof -
  show view: "leaves f (to_string_view nd a)" for a
    unfolding to_string_view_def Let_def case_prod_beta by (intro leaves_intros calls)
  show "leaves f (Address_to_string nd addr)"
    unfolding Address_to_string_def to_string_impl_def by (cases addr) (simp_all, intro leaves_intros view)
qed

lemma leaves_throwing: "leaves f (throw_with_address os nd m a)"
  unfolding throw_with_address_def by (intro leaves_intros printed_addresses)

lemma sends: "leaves f (SendNow os s d)" "leaves f (SendTo os nd s d a)" "leaves f (SendTo_wait os nd s d a t)"
  unfolding SendNow_def SendTo_wait_def SendTo_def
  by (intro leaves_intros calls waits leaves_throwing)+

lemma connections: "leaves f (Listen os s)" "leaves f (Bind os nd s a)" "leaves f (Connect os nd s a)"
    "leaves f (GetSockName os nd s)" "leaves f (GetPeerName os nd s)"
  unfolding Listen_def Bind_def Connect_def GetSockName_def GetPeerName_def case_prod_beta
  by (intro leaves_intros calls leaves_throwing)+

lemma accepts: "leaves f (SocketImpl_Accept os nd s)"
  unfolding SocketImpl_Accept_def accept_fd_def SocketImpl_fd_def SocketTcp_adopt_def case_prod_beta
  by (intro leaves_intros calls owned named_options)

lemma buffered: "(\<And>s w. f (v_destroy vt s w) = f w) \<Longrightarrow> leaves f (SocketBufferedImpl os vt s n m)"
  unfolding SocketBufferedImpl_def by (intro leaves_intros named_options)

text \<open>A plain socket adds nothing to the calls.\<close>

lemma plain:
  "leaves f (v_SendSome (SocketImpl_vtable os nd) s d)" "leaves f (v_Receive (SocketImpl_vtable os nd) s n)"
  "leaves f (v_Accept (SocketImpl_vtable os nd) s)" "leaves f (v_DriverPending (SocketImpl_vtable os nd) s)"
  "leaves f (v_DriverQuery (SocketImpl_vtable os nd) s ev)" "f (v_destroy (SocketImpl_vtable os nd) s w) = f w"
  by (simp_all add: SocketImpl_vtable_def sends receives accepts SocketImpl_DriverPending_def SocketImpl_DriverQuery_def)

end

end
