(* ===== verification/Async.thy ===== *)
theory Async
  imports Buffered ToDo
begin

text \<open>
  \<^verbatim>\<open>src/socket_async_impl.cpp\<close>: sockets that a driver runs, with their send queues and callbacks, and the
  part of \<^verbatim>\<open>src/driver_impl.cpp\<close> that they call: the lists of sockets and poll entries.  The objects
  live in one heap, because driver, sockets, buffers and the user's callbacks share them.
\<close>

section \<open>The heap\<close>

type_synonym sock_id = nat

type_synonym promise_id = nat

text \<open>A \<^verbatim>\<open>BufferPtr\<close> names the pool its deleter returns it to and the buffer.\<close>

record buf_ref =
  br_pool :: nat
  br_ptr :: ptr

datatype outcome = Pending | Value | Exception exn | Broken

datatype send_queue =
    SendQ "(promise_id \<times> buf_ref) list"
  | SendToQ "(promise_id \<times> buf_ref \<times> address) list"

text \<open>
  The three constructors differ in what they bind to \<^verbatim>\<open>onReadable\<close> and \<^verbatim>\<open>onError\<close>; a TCP socket also
  binds the address of its peer.
\<close>

datatype role = UdpRole | TcpRole address | AcceptorRole

record async_sock =
  as_fd :: fd
  as_rxBufSize :: nat
  as_pool :: nat
  as_role :: role
  as_sendQ :: send_queue

record 'w heap =
  h_world :: 'w
  h_pools :: "nat \<Rightarrow> pool"
  h_async :: "sock_id \<Rightarrow> async_sock"
  h_promises :: "promise_id \<Rightarrow> outcome"
  h_next_promise :: promise_id
  h_alive :: bool
  h_todos :: todos
  h_sockets :: "sock_id list"
  h_pfds :: "pollfd list"
  h_shouldStop :: bool
  h_pipeTo :: fd
  h_pipeFrom :: fd
  h_pipeToAddr :: address_impl

text \<open>The user's code: tasks and callbacks may do anything to the heap, and may throw.\<close>

record 'w user =
  u_task :: "todo_id \<Rightarrow> ('w heap, unit) exec"
  u_receive :: "sock_id \<Rightarrow> buf_ref \<Rightarrow> ('w heap, unit) exec"
  u_receive_from :: "sock_id \<Rightarrow> buf_ref \<Rightarrow> address \<Rightarrow> ('w heap, unit) exec"
  u_connect :: "sock_id \<Rightarrow> fd \<Rightarrow> address \<Rightarrow> ('w heap, unit) exec"
  u_disconnect :: "sock_id \<Rightarrow> address \<Rightarrow> string \<Rightarrow> ('w heap, unit) exec"

text \<open>What never changes: the system, the resolver, the class of each socket and the user's code.\<close>

record 'w env =
  e_os :: "'w os"
  e_nd :: "'w netdb"
  e_vt :: "sock_id \<Rightarrow> 'w vtable"
  e_user :: "'w user"
  e_with_tls :: bool

definition upd_async :: "sock_id \<Rightarrow> (async_sock \<Rightarrow> async_sock) \<Rightarrow> 'w heap \<Rightarrow> 'w heap" where
  "upd_async k f h = h\<lparr>h_async := (h_async h)(k := f (h_async h k))\<rparr>"

definition heap_world :: "('w, 'a) exec \<Rightarrow> ('w heap, 'a) exec" where
  "heap_world = zoom h_world (\<lambda>w h. h\<lparr>h_world := w\<rparr>)"

text \<open>The pool of a socket together with the world, for the operations of the buffered socket.\<close>

definition heap_buffered :: "nat \<Rightarrow> ('w buffered, 'a) exec \<Rightarrow> ('w heap, 'a) exec" where
  "heap_buffered p = zoom (\<lambda>h. \<lparr>bw_pool = h_pools h p, bw_world = h_world h\<rparr>)
     (\<lambda>b h. h\<lparr>h_pools := (h_pools h)(p := bw_pool b), h_world := bw_world b\<rparr>)"

definition buf_content :: "buf_ref \<Rightarrow> 'w heap \<Rightarrow> string" where
  "buf_content b h = content (buf_at (h_pools h (br_pool b)) (br_ptr b))"

definition buf_modify :: "buf_ref \<Rightarrow> (string \<Rightarrow> string) \<Rightarrow> 'w heap \<Rightarrow> 'w heap" where
  "buf_modify b f h = h\<lparr>h_pools := (h_pools h)(br_pool b :=
     pool_write (br_ptr b) (\<lambda>x. x\<lparr>content := f (content x)\<rparr>) (h_pools h (br_pool b)))\<rparr>"

definition buf_drop :: "buf_ref \<Rightarrow> 'w heap \<Rightarrow> 'w heap" where
  "buf_drop b h = h\<lparr>h_pools := (h_pools h)(br_pool b :=
     snd (Recycler (Some (br_ptr b)) (h_pools h (br_pool b))))\<rparr>"

definition set_promise :: "promise_id \<Rightarrow> outcome \<Rightarrow> 'w heap \<Rightarrow> 'w heap" where
  "set_promise p v h = h\<lparr>h_promises := (h_promises h)(p := v)\<rparr>"

section \<open>The driver's list of sockets\<close>

text \<open>
  The guards that surround these operations only order them against a running \<^verbatim>\<open>Step\<close>; here every
  operation is atomic.
\<close>

definition DriverGetFd :: "'w heap \<Rightarrow> sock_id \<Rightarrow> fd" where
  "DriverGetFd h k = as_fd (h_async h k)"

definition FdEqual_sock :: "'w heap \<Rightarrow> fd \<Rightarrow> sock_id \<Rightarrow> bool" where
  "FdEqual_sock h s k \<longleftrightarrow> DriverGetFd h k = s"

definition FdEqual_pfd :: "fd \<Rightarrow> pollfd \<Rightarrow> bool" where
  "FdEqual_pfd s p \<longleftrightarrow> pfd_fd p = s"

text \<open>\<^verbatim>\<open>std::find_if\<close> as an index, and \<^verbatim>\<open>erase\<close> of what it found, if anything.\<close>

definition find_index :: "('a \<Rightarrow> bool) \<Rightarrow> 'a list \<Rightarrow> nat" where
  "find_index P xs = length (takeWhile (\<lambda>x. \<not> P x) xs)"

definition erase_found :: "('a \<Rightarrow> bool) \<Rightarrow> 'a list \<Rightarrow> 'a list" where
  "erase_found P xs =
     (let it = find_index P xs in if it \<noteq> length xs then take it xs @ drop (Suc it) xs else xs)"

definition AsyncRegister :: "sock_id \<Rightarrow> ('w heap, unit) exec" where
  "AsyncRegister k = modify (\<lambda>h. h\<lparr>
     h_sockets := h_sockets h @ [k],
     h_pfds := h_pfds h @ [\<lparr>pfd_fd = DriverGetFd h k, pfd_events = {POLLIN}, pfd_revents = {}\<rparr>]\<rparr>)"

definition AsyncUnregister :: "fd \<Rightarrow> ('w heap, unit) exec" where
  "AsyncUnregister s = modify (\<lambda>h. h\<lparr>
     h_sockets := erase_found (FdEqual_sock h s) (h_sockets h),
     h_pfds := erase_found (FdEqual_pfd s) (h_pfds h)\<rparr>)"

definition add_event :: "pollflag \<Rightarrow> pollfd \<Rightarrow> pollfd" where
  "add_event f p = p\<lparr>pfd_events := insert f (pfd_events p)\<rparr>"

definition remove_event :: "pollflag \<Rightarrow> pollfd \<Rightarrow> pollfd" where
  "remove_event f p = p\<lparr>pfd_events := pfd_events p - {f}\<rparr>"

definition AsyncWantSend :: "fd \<Rightarrow> ('w heap, unit) exec" where
  "AsyncWantSend s h =
     (let it = find_index (FdEqual_pfd s) (h_pfds h)
      in if it = length (h_pfds h) then (Inl AssertFailed, h)
         else (Inr (), h\<lparr>h_pfds := (h_pfds h)[it := add_event POLLOUT (h_pfds h ! it)]\<rparr>))"

section \<open>Sending\<close>

text \<open>
  Both \<^verbatim>\<open>Send\<close> and \<^verbatim>\<open>SendTo\<close> append to the queue of their kind; \<^verbatim>\<open>std::get\<close> of the other kind would
  throw, which the classes of the interface rule out.
\<close>

definition DoSendEnqueue :: "sock_id \<Rightarrow> promise_id \<Rightarrow> buf_ref \<Rightarrow> ('w heap, bool) exec" where
  "DoSendEnqueue k promise buffer h =
     (case as_sendQ (h_async h k) of
        SendQ q \<Rightarrow> (Inr (q = []), upd_async k (\<lambda>a. a\<lparr>as_sendQ := SendQ (q @ [(promise, buffer)])\<rparr>) h)
      | SendToQ _ \<Rightarrow> (Inl AssertFailed, h))"

definition DoSendEnqueue_to :: "sock_id \<Rightarrow> promise_id \<Rightarrow> buf_ref \<Rightarrow> address \<Rightarrow> ('w heap, bool) exec" where
  "DoSendEnqueue_to k promise buffer dstAddr h =
     (case as_sendQ (h_async h k) of
        SendToQ q \<Rightarrow> (Inr (q = []), upd_async k (\<lambda>a. a\<lparr>as_sendQ := SendToQ (q @ [(promise, buffer, dstAddr)])\<rparr>) h)
      | SendQ _ \<Rightarrow> (Inl AssertFailed, h))"

definition new_promise :: "('w heap, promise_id) exec" where
  "new_promise h = (Inr (h_next_promise h), set_promise (h_next_promise h) Pending (h\<lparr>h_next_promise := Suc (h_next_promise h)\<rparr>))"

text \<open>The driver is reached through a weak pointer; when it is gone nothing is requested.\<close>

definition DoSend :: "sock_id \<Rightarrow> (promise_id \<Rightarrow> ('w heap, bool) exec) \<Rightarrow> ('w heap, promise_id) exec" where
  "DoSend k enqueue =
     andthen new_promise (\<lambda>promise.
     andthen (enqueue promise) (\<lambda>wasEmpty.
     andthen (get h_alive) (\<lambda>alive.
     andthen (get (\<lambda>h. DriverGetFd h k)) (\<lambda>s.
     andthen (if wasEmpty \<and> alive then AsyncWantSend s else ret ()) (\<lambda>_. ret promise)))))"

definition Send :: "sock_id \<Rightarrow> buf_ref \<Rightarrow> ('w heap, promise_id) exec" where
  "Send k buffer = DoSend k (\<lambda>promise. DoSendEnqueue k promise buffer)"

definition Async_SendTo :: "sock_id \<Rightarrow> buf_ref \<Rightarrow> address \<Rightarrow> ('w heap, promise_id) exec" where
  "Async_SendTo k buffer dstAddr = DoSend k (\<lambda>promise. DoSendEnqueue_to k promise buffer dstAddr)"

section \<open>Writing\<close>

text \<open>
  \<^verbatim>\<open>make_exception_ptr\<close> copies its argument as the type of the \<^verbatim>\<open>catch\<close> clause, so what the future
  reports is a plain \<^verbatim>\<open>runtime_error\<close> with the text of the original.
\<close>

definition sliced :: "'w os \<Rightarrow> exn \<Rightarrow> exn" where
  "sliced os e = RuntimeError (sys_what os e)"

definition pop_SendQ :: "sock_id \<Rightarrow> buf_ref \<Rightarrow> 'w heap \<Rightarrow> 'w heap" where
  "pop_SendQ k buffer h =
     buf_drop buffer (upd_async k (\<lambda>a. a\<lparr>as_sendQ := (case as_sendQ a of
        SendQ q \<Rightarrow> SendQ (tl q) | SendToQ q \<Rightarrow> SendToQ (tl q))\<rparr>) h)"

text \<open>The sending attempt: \<^const>\<open>True\<close> when the front element is done with, one way or the other.\<close>

definition try_send :: "'w env \<Rightarrow> sock_id \<Rightarrow> promise_id \<Rightarrow> buf_ref \<Rightarrow> ('w heap, bool) exec" where
  "try_send env k promise buffer =
     catch
       (andthen (get (buf_content buffer)) (\<lambda>data.
        andthen (get (\<lambda>h. DriverGetFd h k)) (\<lambda>s.
        andthen (heap_world (v_SendSome (e_vt env k) s data)) (\<lambda>sent.
          if sent = length data then andthen (modify (set_promise promise Value)) (\<lambda>_. ret True)
          else andthen (modify (buf_modify buffer (drop sent))) (\<lambda>_. ret False)))))
       is_runtime_error
       (\<lambda>e. andthen (modify (set_promise promise (Exception (sliced (e_os env) e)))) (\<lambda>_. ret True))"

definition DriverSend :: "'w env \<Rightarrow> sock_id \<Rightarrow> (promise_id \<times> buf_ref) list \<Rightarrow> ('w heap, bool) exec" where
  "DriverSend env k q =
     (let sendQSize = length q
      in case q of
        [] \<Rightarrow> andthen (get (\<lambda>h. DriverGetFd h k)) (\<lambda>s.
              andthen (heap_world (v_DriverPending (e_vt env k) s)) (\<lambda>_. ret True))
      | (promise, buffer) # _ \<Rightarrow>
          andthen (try_send env k promise buffer) (\<lambda>done.
            if \<not> done then ret False
            else andthen (modify (pop_SendQ k buffer)) (\<lambda>_. ret (sendQSize = 1))))"

definition try_send_to :: "'w env \<Rightarrow> sock_id \<Rightarrow> promise_id \<Rightarrow> buf_ref \<Rightarrow> address \<Rightarrow> ('w heap, unit) exec" where
  "try_send_to env k promise buffer addr =
     catch
       (andthen (get (buf_content buffer)) (\<lambda>data.
        andthen (get (\<lambda>h. DriverGetFd h k)) (\<lambda>s.
        andthen (lift_sum (deref addr ForUdp)) (\<lambda>view.
        andthen (heap_world (SendTo (e_os env) (e_nd env) s data view)) (\<lambda>sent.
          if sent \<noteq> length data then throw AssertFailed
          else modify (set_promise promise Value))))))
       is_runtime_error
       (\<lambda>e. modify (set_promise promise (Exception (sliced (e_os env) e))))"

definition DriverSendTo :: "'w env \<Rightarrow> sock_id \<Rightarrow> (promise_id \<times> buf_ref \<times> address) list \<Rightarrow> ('w heap, bool) exec" where
  "DriverSendTo env k q =
     (let sendToQSize = length q
      in case q of
        [] \<Rightarrow> throw (LogicError ''uncalled sendto'')
      | (promise, buffer, addr) # _ \<Rightarrow>
          andthen (try_send_to env k promise buffer addr) (\<lambda>_.
          andthen (modify (pop_SendQ k buffer)) (\<lambda>_. ret (sendToQSize = 1))))"

definition DriverOnWritable :: "'w env \<Rightarrow> sock_id \<Rightarrow> ('w heap, bool) exec" where
  "DriverOnWritable env k =
     andthen (get (\<lambda>h. as_sendQ (h_async h k))) (\<lambda>sendQ.
       case sendQ of SendQ q \<Rightarrow> DriverSend env k q | SendToQ q \<Rightarrow> DriverSendTo env k q)"

section \<open>Reading and errors\<close>

definition DriverDisconnect :: "'w env \<Rightarrow> sock_id \<Rightarrow> address \<Rightarrow> string \<Rightarrow> ('w heap, unit) exec" where
  "DriverDisconnect env k peerAddr reason =
     andthen (get h_alive) (\<lambda>alive.
     andthen (get (\<lambda>h. DriverGetFd h k)) (\<lambda>s.
     andthen (if alive then AsyncUnregister s else ret ()) (\<lambda>_.
       u_disconnect (e_user env) k peerAddr reason)))"

text \<open>The bound error handler: only a TCP socket has one, the other two discard errors.\<close>

definition DriverOnError :: "'w env \<Rightarrow> sock_id \<Rightarrow> string \<Rightarrow> ('w heap, unit) exec" where
  "DriverOnError env k message =
     andthen (get (\<lambda>h. as_role (h_async h k))) (\<lambda>role.
       case role of
         UdpRole \<Rightarrow> ret ()
       | AcceptorRole \<Rightarrow> ret ()
       | TcpRole peerAddr \<Rightarrow> DriverDisconnect env k peerAddr message)"

definition catch_runtime :: "'w env \<Rightarrow> sock_id \<Rightarrow> ('w heap, unit) exec \<Rightarrow> ('w heap, unit) exec" where
  "catch_runtime env k m = catch m is_runtime_error (\<lambda>e. DriverOnError env k (sys_what (e_os env) e))"

definition DriverConnect :: "'w env \<Rightarrow> sock_id \<Rightarrow> ('w heap, unit) exec" where
  "DriverConnect env k =
     catch_runtime env k
       (andthen (get (\<lambda>h. DriverGetFd h k)) (\<lambda>s.
        andthen (heap_world (v_Accept (e_vt env k) s)) (\<lambda>(sock, addr).
        andthen (heap_world (owning (e_os env) sock (Listen (e_os env) s))) (\<lambda>_.
          u_connect (e_user env) k sock addr))))"

definition DriverReceive :: "'w env \<Rightarrow> sock_id \<Rightarrow> ('w heap, unit) exec" where
  "DriverReceive env k =
     catch_runtime env k
       (andthen (get (\<lambda>h. h_async h k)) (\<lambda>a.
        andthen (heap_buffered (as_pool a) (Buffered_Receive (e_vt env k) (as_fd a) (as_rxBufSize a))) (\<lambda>b.
        let buffer = \<lparr>br_pool = as_pool a, br_ptr = b\<rparr>
        in andthen (get (buf_content buffer)) (\<lambda>data.
             if data = [] then modify (buf_drop buffer)
             else u_receive (e_user env) k buffer))))"

definition DriverReceiveFrom :: "'w env \<Rightarrow> sock_id \<Rightarrow> ('w heap, unit) exec" where
  "DriverReceiveFrom env k =
     catch_runtime env k
       (andthen (get (\<lambda>h. h_async h k)) (\<lambda>a.
        andthen (heap_buffered (as_pool a)
            (Buffered_ReceiveFrom (e_os env) (e_nd env) (as_fd a) (as_rxBufSize a))) (\<lambda>(b, addr).
          u_receive_from (e_user env) k \<lparr>br_pool = as_pool a, br_ptr = b\<rparr> addr)))"

definition DriverOnReadable :: "'w env \<Rightarrow> sock_id \<Rightarrow> ('w heap, unit) exec" where
  "DriverOnReadable env k =
     andthen (get (\<lambda>h. as_role (h_async h k))) (\<lambda>role.
       case role of
         UdpRole \<Rightarrow> DriverReceiveFrom env k
       | TcpRole _ \<Rightarrow> DriverReceive env k
       | AcceptorRole \<Rightarrow> DriverConnect env k)"

definition DriverQuery :: "'w env \<Rightarrow> sock_id \<Rightarrow> pollflag set \<Rightarrow> ('w heap, pollflag set) exec" where
  "DriverQuery env k events =
     andthen (get (\<lambda>h. DriverGetFd h k)) (\<lambda>s. heap_world (v_DriverQuery (e_vt env k) s events))"

section \<open>Construction and destruction\<close>

text \<open>
  The constructors take over the buffered socket, bind the callbacks of their role and register with
  the driver.  The UDP socket gets the queue with addresses, the TCP socket the one without; the
  acceptor makes its own buffered socket, without buffers, and leaves the queue at its default.
\<close>

definition new_async :: "sock_id \<Rightarrow> fd \<Rightarrow> nat \<Rightarrow> nat \<Rightarrow> role \<Rightarrow> send_queue \<Rightarrow> ('w heap, unit) exec" where
  "new_async k sock rxBufSize pool role sendQ =
     modify (upd_async k (\<lambda>_. \<lparr>as_fd = sock, as_rxBufSize = rxBufSize, as_pool = pool, as_role = role, as_sendQ = sendQ\<rparr>))"

definition SocketUdpAsync :: "sock_id \<Rightarrow> fd \<Rightarrow> nat \<Rightarrow> nat \<Rightarrow> ('w heap, unit) exec" where
  "SocketUdpAsync k sock rxBufSize pool =
     andthen (new_async k sock rxBufSize pool UdpRole (SendToQ [])) (\<lambda>_. AsyncRegister k)"

definition SocketTcpAsync :: "'w env \<Rightarrow> sock_id \<Rightarrow> fd \<Rightarrow> nat \<Rightarrow> nat \<Rightarrow> ('w heap, unit) exec" where
  "SocketTcpAsync env k sock rxBufSize pool =
     andthen (heap_world (on_throw (GetPeerName (e_os env) (e_nd env) sock) (v_destroy (e_vt env k) sock))) (\<lambda>peerAddr.
     andthen (new_async k sock rxBufSize pool (TcpRole (Some peerAddr)) (SendQ [])) (\<lambda>_. AsyncRegister k))"

definition SocketAcceptorAsync :: "'w env \<Rightarrow> sock_id \<Rightarrow> fd \<Rightarrow> nat \<Rightarrow> ('w heap, unit) exec" where
  "SocketAcceptorAsync env k sock pool =
     andthen (heap_world (SocketBufferedImpl (e_os env) (e_vt env k) sock 0 1)) (\<lambda>(sz, p).
     andthen (modify (\<lambda>h. h\<lparr>h_pools := (h_pools h)(pool := p)\<rparr>)) (\<lambda>_.
     andthen (new_async k sock sz pool AcceptorRole (SendQ [])) (\<lambda>_. AsyncRegister k)))"

text \<open>\<^verbatim>\<open>AcceptorAsync\<close> starts to listen after its implementation was made, and drops it when that fails.\<close>

definition break_promise :: "promise_id \<Rightarrow> 'w heap \<Rightarrow> 'w heap" where
  "break_promise p h = (if h_promises h p = Pending then set_promise p Broken h else h)"

fun drop_queue :: "send_queue \<Rightarrow> 'w heap \<Rightarrow> 'w heap" where
  "drop_queue (SendQ q) h = foldl (\<lambda>h (p, b). buf_drop b (break_promise p h)) h q"
| "drop_queue (SendToQ q) h = foldl (\<lambda>h (p, b, _). buf_drop b (break_promise p h)) h q"

text \<open>
  The destructor unregisters, then the members go in reverse order: the queue with its promises and
  buffers, the receive pool, which asserts that no buffer is lent, and the socket.
\<close>

definition SocketAsyncImpl_destroy :: "'w env \<Rightarrow> sock_id \<Rightarrow> ('w heap, unit) exec" where
  "SocketAsyncImpl_destroy env k =
     andthen (get (\<lambda>h. h_async h k)) (\<lambda>a.
     andthen (get h_alive) (\<lambda>alive.
     andthen (if alive then AsyncUnregister (as_fd a) else ret ()) (\<lambda>_.
     andthen (modify (drop_queue (as_sendQ a))) (\<lambda>_.
     andthen (get (\<lambda>h. h_pools h (as_pool a))) (\<lambda>p.
       if m_busy p \<noteq> [] then throw AssertFailed
       else heap_world (modify (v_destroy (e_vt env k) (as_fd a))))))))"

definition AcceptorAsync :: "'w env \<Rightarrow> sock_id \<Rightarrow> fd \<Rightarrow> nat \<Rightarrow> ('w heap, unit) exec" where
  "AcceptorAsync env k sock pool =
     andthen (SocketAcceptorAsync env k sock pool) (\<lambda>_.
       on_throw (heap_world (Listen (e_os env) sock)) (\<lambda>h. snd (SocketAsyncImpl_destroy env k h)))"

end
