(* ===== verification/AsyncSpec.thy ===== *)
theory AsyncSpec
  imports Async SocketSpec
begin

text \<open>
  What an asynchronous socket promises: the bytes of the queued buffers reach the stream in the order in which
  they were sent, a promise is fulfilled just when its whole buffer is on the stream, and receiving passes a
  buffer on or returns it to its pool.
\<close>

section \<open>Sending on a stream\<close>

text \<open>The bytes that are still queued on a stream socket.\<close>

definition queued_bytes :: "'w heap \<Rightarrow> sock_id \<Rightarrow> string" where
  "queued_bytes h k =
     (case as_sendQ (h_async h k) of
        SendQ q \<Rightarrow> concat (map (\<lambda>(_, b). buf_content b h) q)
      | SendToQ _ \<Rightarrow> [])"

lemma heap_world_run [simp]: "heap_world m h = (fst (m (h_world h)), h\<lparr>h_world := snd (m (h_world h))\<rparr>)"
  by (simp add: heap_world_def)

lemma buf_content_simps [simp]:
  "buf_content b (h\<lparr>h_world := w\<rparr>) = buf_content b h"
  "buf_content b (set_promise p v h) = buf_content b h"
  "buf_content b (upd_async k a h) = buf_content b h"
  "buf_content b (buf_modify b f h) = f (buf_content b h)"
  by (simp_all add: buf_content_def set_promise_def upd_async_def buf_modify_def)

lemma buf_content_modify_other [simp]: "b' \<noteq> b \<Longrightarrow> buf_content b' (buf_modify b f h) = buf_content b' h"
  by (cases b; cases b') (auto simp: buf_content_def buf_modify_def)

lemma Recycler_buf_at [simp]: "buf_at (snd (Recycler b p)) = buf_at p"
  by (cases b) (simp_all add: Recycler_def BufferPool_Recycle_def Let_def)

lemma buf_content_drop [simp]: "buf_content b' (buf_drop b h) = buf_content b' h"
  by (simp add: buf_content_def buf_drop_def)

text \<open>A peer that always takes something.\<close>

definition accepting :: "'w os \<Rightarrow> bool" where
  "accepting os \<longleftrightarrow> (\<forall>s d w. 0 \<le> fst (sys_send os s d w) \<and> (d \<noteq> [] \<longrightarrow> 0 < fst (sys_send os s d w)))"

lemma SendNow_accepting:
  assumes "accepting os" and "stream_send os stream"
  shows "\<exists>n w'. SendNow os s d w = (Inr n, w')"
proof -
  obtain x w' where x: "sys_send os s d w = (x, w')" by fastforce
  from assms(1) x have "0 \<le> x" "d \<noteq> [] \<Longrightarrow> 0 < x" unfolding accepting_def by (metis fst_conv)+
  moreover from assms(2) x \<open>0 \<le> x\<close> have "nat x \<le> length d" unfolding stream_send_def by (metis leD)
  ultimately show ?thesis using x by (cases "d = []") (auto simp: SendNow_def andthen_def call_def)
qed

text \<open>The three ways an attempt to send the front buffer ends, and the exception that leaves it in place.\<close>

definition front_sent :: "('w \<Rightarrow> fd \<Rightarrow> string) \<Rightarrow> sock_id \<Rightarrow> promise_id \<Rightarrow> buf_ref \<Rightarrow> 'w heap \<Rightarrow> 'w heap \<Rightarrow> bool" where
  "front_sent stream k p b h g \<longleftrightarrow> h_promises g = (h_promises h)(p := Value)
     \<and> stream (h_world g) (DriverGetFd h k) = stream (h_world h) (DriverGetFd h k) @ buf_content b h"

definition front_partial :: "('w \<Rightarrow> fd \<Rightarrow> string) \<Rightarrow> sock_id \<Rightarrow> buf_ref \<Rightarrow> 'w heap \<Rightarrow> 'w heap \<Rightarrow> bool" where
  "front_partial stream k b h g \<longleftrightarrow> h_promises g = h_promises h \<and> buf_content b g \<noteq> []
     \<and> length (buf_content b g) < length (buf_content b h)
     \<and> stream (h_world g) (DriverGetFd h k) @ buf_content b g = stream (h_world h) (DriverGetFd h k) @ buf_content b h"

definition front_failed :: "('w \<Rightarrow> fd \<Rightarrow> string) \<Rightarrow> sock_id \<Rightarrow> promise_id \<Rightarrow> 'w heap \<Rightarrow> 'w heap \<Rightarrow> bool" where
  "front_failed stream k p h g \<longleftrightarrow> (\<exists>m. h_promises g = (h_promises h)(p := Exception (RuntimeError m)))
     \<and> stream (h_world g) (DriverGetFd h k) = stream (h_world h) (DriverGetFd h k)"

lemma try_send_run:
  assumes "e_vt env k = SocketImpl_vtable (e_os env) (e_nd env)"
    and "SendNow (e_os env) (DriverGetFd h k) (buf_content b h) (h_world h) = (x, w)"
  shows "try_send env k p b h =
    (case x of
       Inl e \<Rightarrow> if is_runtime_error e
          then (Inr True, set_promise p (Exception (sliced (e_os env) e)) (h\<lparr>h_world := w\<rparr>))
          else (Inl e, h\<lparr>h_world := w\<rparr>)
     | Inr n \<Rightarrow> if n = length (buf_content b h) then (Inr True, set_promise p Value (h\<lparr>h_world := w\<rparr>))
          else (Inr False, buf_modify b (drop n) (h\<lparr>h_world := w\<rparr>)))"
  using assms by (simp add: try_send_def SocketImpl_vtable_def andthen_def catch_def split: sum.split)

lemma try_send_cases:
  assumes st: "stream_send (e_os env) stream" and vt: "e_vt env k = SocketImpl_vtable (e_os env) (e_nd env)"
    and run: "try_send env k p b h = (r, g)"
  obtains (all) "r = Inr True" "front_sent stream k p b h g" "\<And>b'. buf_content b' g = buf_content b' h"
      "h_async g = h_async h"
    | (some) "r = Inr False" "front_partial stream k b h g" "\<And>b'. b' \<noteq> b \<Longrightarrow> buf_content b' g = buf_content b' h"
      "h_async g = h_async h"
    | (failed) "r = Inr True" "front_failed stream k p h g" "\<And>b'. buf_content b' g = buf_content b' h"
      "h_async g = h_async h"
    | (zero) "r = Inl (LogicError ''unexpected send result'')"
      "stream (h_world g) (DriverGetFd h k) = stream (h_world h) (DriverGetFd h k)"
      "\<And>b'. buf_content b' g = buf_content b' h" "h_async g = h_async h" "h_promises g = h_promises h"
proof -
  let ?s = "DriverGetFd h k" and ?d = "buf_content b h"
  obtain x w where x: "SendNow (e_os env) ?s ?d (h_world h) = (x, w)" by fastforce
  note tr = try_send_run [OF vt x, of p]
  from st x show thesis
  proof (cases rule: SendNow_outcomes)
    case (sent n)
    show thesis
    proof (cases "n = length ?d")
      case True
      with run tr sent show thesis by (intro all) (auto simp: front_sent_def set_promise_def buf_content_def)
    next
      case False
      then have rg: "r = Inr False" "g = buf_modify b (drop n) (h\<lparr>h_world := w\<rparr>)" using run tr sent by simp_all
      have "n < length ?d" using False sent(2) by simp
      moreover from this have "?d \<noteq> []" by auto
      then have "0 < n" by (rule sent(3))
      ultimately have "front_partial stream k b h g" using sent(4)
        by (simp add: front_partial_def rg) (simp add: buf_modify_def)
      moreover have "h_async g = h_async h" by (simp add: rg buf_modify_def)
      ultimately show thesis using rg by (intro some) simp_all
    qed
  next
    case (failed c m)
    with run tr show thesis
      by (intro that(3)) (auto simp: front_failed_def set_promise_def sliced_def buf_content_def)
  next
    case zero
    with run tr show thesis by (intro that(4)) auto
  qed
qed

lemma queued_bytes_cong:
  assumes "as_sendQ (h_async g k) = SendQ q" and "\<And>p b. (p, b) \<in> set q \<Longrightarrow> buf_content b g = buf_content b h"
  shows "queued_bytes g k = concat (map (\<lambda>(_, b). buf_content b h) q)"
proof -
  have "concat (map (\<lambda>(_, b). buf_content b g) q) = concat (map (\<lambda>(_, b). buf_content b h) q)"
    using assms(2) by (intro arg_cong [of _ _ concat] map_cong) auto
  with assms(1) show ?thesis by (simp add: queued_bytes_def)
qed

lemma queued_bytes_Cons:
  "as_sendQ (h_async h k) = SendQ ((p, b) # rest) \<Longrightarrow>
   queued_bytes h k = buf_content b h @ concat (map (\<lambda>(_, b). buf_content b h) rest)"
  by (simp add: queued_bytes_def)

text \<open>The front element goes, or it stays with what remains of it.\<close>

lemma writable_popped:
  assumes q: "as_sendQ (h_async h k) = SendQ ((p, b) # rest)" and run: "DriverOnWritable env k h = (r, g)"
    and x: "try_send env k p b h = (Inr True, t)" and t: "h_async t = h_async h" "\<And>b'. buf_content b' t = buf_content b' h"
  shows "r = Inr (rest = [])" "as_sendQ (h_async g k) = SendQ rest" "h_async g = (h_async h)(k := (h_async h k)\<lparr>as_sendQ := SendQ rest\<rparr>)"
    "h_world g = h_world t" "h_promises g = h_promises t" "queued_bytes g k = concat (map (\<lambda>(_, b). buf_content b h) rest)"
proof -
  have rg: "r = Inr (rest = [])" "g = pop_SendQ k b t" using run q x by (auto simp: DriverOnWritable_def DriverSend_def)
  then show *: "r = Inr (rest = [])" "as_sendQ (h_async g k) = SendQ rest" "h_world g = h_world t" "h_promises g = h_promises t"
    "h_async g = (h_async h)(k := (h_async h k)\<lparr>as_sendQ := SendQ rest\<rparr>)"
    using q t(1) by (simp_all add: pop_SendQ_def buf_drop_def upd_async_def)
  show "queued_bytes g k = concat (map (\<lambda>(_, b). buf_content b h) rest)"
    by (rule queued_bytes_cong [OF *(2)]) (simp add: rg(2) pop_SendQ_def t(2))
qed

lemma writable_kept:
  assumes q: "as_sendQ (h_async h k) = SendQ ((p, b) # rest)" and "b \<notin> snd ` set rest" and run: "DriverOnWritable env k h = (r, g)"
    and x: "try_send env k p b h = (Inr False, t)" and t: "h_async t = h_async h" "\<And>b'. b' \<noteq> b \<Longrightarrow> buf_content b' t = buf_content b' h"
  shows "r = Inr False" "g = t" "queued_bytes g k = buf_content b g @ concat (map (\<lambda>(_, b). buf_content b h) rest)"
proof -
  show rg: "r = Inr False" "g = t" using run q x by (simp_all add: DriverOnWritable_def DriverSend_def andthen_def)
  have "concat (map (\<lambda>(_, b). buf_content b t) rest) = concat (map (\<lambda>(_, b). buf_content b h) rest)"
    using t(2) assms(2) by (intro arg_cong [of _ _ concat] map_cong) force+
  then show "queued_bytes g k = buf_content b g @ concat (map (\<lambda>(_, b). buf_content b h) rest)"
    using t(1) q rg by (simp add: queued_bytes_def)
qed

text \<open>
  C15. When a stream socket becomes writable, bytes move from the front of its queue to the stream and
  nowhere else: what is on the stream followed by what is queued stays the same, unless the send failed, in
  which case the front element alone is given up and its promise gets an exception.  The promise of the
  front element is fulfilled just when its last byte went out.  The only exception that escapes is that of a
  \<^verbatim>\<open>send\<close> which accepted nothing, and then nothing has changed.
\<close>

theorem DriverOnWritable_conserves:
  assumes "stream_send (e_os env) stream" and "e_vt env k = SocketImpl_vtable (e_os env) (e_nd env)"
    and q: "as_sendQ (h_async h k) = SendQ ((p, b) # rest)" and "b \<notin> snd ` set rest"
    and run: "DriverOnWritable env k h = (r, g)"
  defines "s \<equiv> DriverGetFd h k"
  shows "(case r of
      Inl e \<Rightarrow> e = LogicError ''unexpected send result'' \<and> h_promises g = h_promises h
        \<and> stream (h_world g) s = stream (h_world h) s \<and> queued_bytes g k = queued_bytes h k
    | Inr emptied \<Rightarrow> emptied = (as_sendQ (h_async g k) = SendQ []) \<and>
        (if as_sendQ (h_async g k) = as_sendQ (h_async h k)
         then h_promises g = h_promises h \<and> length (queued_bytes g k) < length (queued_bytes h k)
           \<and> stream (h_world g) s @ queued_bytes g k = stream (h_world h) s @ queued_bytes h k
         else as_sendQ (h_async g k) = SendQ rest \<and>
           (if h_promises g p = Value
            then stream (h_world g) s @ queued_bytes g k = stream (h_world h) s @ queued_bytes h k
            else (\<exists>m. h_promises g p = Exception (RuntimeError m)) \<and> stream (h_world g) s = stream (h_world h) s
              \<and> buf_content b h @ queued_bytes g k = queued_bytes h k)))"
proof -
  obtain x t where x: "try_send env k p b h = (x, t)" by fastforce
  note qb = queued_bytes_Cons [OF q]
  from assms(1,2) x show ?thesis
  proof (cases rule: try_send_cases)
    case all
    from writable_popped [OF q run x [unfolded all(1)] all(4,3)] all(2) qb q show ?thesis by (auto simp: front_sent_def s_def)
  next
    case failed
    from writable_popped [OF q run x [unfolded failed(1)] failed(4,3)] failed(2) qb q
    show ?thesis by (auto simp: front_failed_def s_def)
  next
    case zero
    then have "r = Inl (LogicError ''unexpected send result'')" "g = t"
      using run q x by (simp_all add: DriverOnWritable_def DriverSend_def)
    moreover have "queued_bytes t k = queued_bytes h k" using zero(3,4) q by (simp add: queued_bytes_def)
    ultimately show ?thesis using zero by (simp add: s_def)
  next
    case some
    from writable_kept [OF q assms(4) run x [unfolded some(1)] some(4,3)] some(2,4) qb q
    show ?thesis by (auto simp: front_partial_def s_def)
  qed
qed

text \<open>A number of writable events in a row.\<close>

fun writable_events :: "'w env \<Rightarrow> sock_id \<Rightarrow> nat \<Rightarrow> ('w heap, bool) exec" where
  "writable_events env k 0 = ret False"
| "writable_events env k (Suc n) =
     andthen (DriverOnWritable env k) (\<lambda>emptied. if emptied then ret True else writable_events env k n)"

lemma try_send_accepting:
  assumes "accepting (e_os env)" and "stream_send (e_os env) stream" and "e_vt env k = SocketImpl_vtable (e_os env) (e_nd env)"
    and run: "try_send env k p b h = (r, g)"
  obtains (all) "r = Inr True" "front_sent stream k p b h g" "\<And>b'. buf_content b' g = buf_content b' h"
      "h_async g = h_async h"
    | (some) "r = Inr False" "front_partial stream k b h g" "\<And>b'. b' \<noteq> b \<Longrightarrow> buf_content b' g = buf_content b' h"
      "h_async g = h_async h"
proof -
  obtain n w where n: "SendNow (e_os env) (DriverGetFd h k) (buf_content b h) (h_world h) = (Inr n, w)"
    using SendNow_accepting [OF assms(1,2)] by blast
  have r: "r = Inr (n = length (buf_content b h))" and p: "n \<noteq> length (buf_content b h) \<or> h_promises g = (h_promises h)(p := Value)"
    using run try_send_run [OF assms(3) n, of p] by (auto simp: set_promise_def split: if_splits)
  from assms(2,3) run show thesis
  proof (cases rule: try_send_cases)
    case failed
    with r p show thesis by (auto simp: front_failed_def fun_eq_iff split: if_splits)
  qed (use all some r in auto)
qed

text \<open>
  C16. A queue of buffers sent to a peer that takes something at every attempt is written out completely, in the
  order of sending, after at most as many writable events as there are bytes and buffers in it; the last event
  reports that the queue is empty, and exactly the promises of the queue are fulfilled.
\<close>

theorem queue_drains:
  assumes "accepting (e_os env)" and "stream_send (e_os env) stream" and "e_vt env k = SocketImpl_vtable (e_os env) (e_nd env)"
    and "as_sendQ (h_async h k) = SendQ q" and "q \<noteq> []" and "distinct (map fst q)" and "distinct (map snd q)"
    and "length (queued_bytes h k) + length q \<le> n"
  shows "\<exists>g. writable_events env k n h = (Inr True, g) \<and> as_sendQ (h_async g k) = SendQ []
    \<and> stream (h_world g) (DriverGetFd h k) = stream (h_world h) (DriverGetFd h k) @ queued_bytes h k
    \<and> h_promises g = (\<lambda>p. if p \<in> fst ` set q then Value else h_promises h p)"
  using assms(4-8)
proof (induction n arbitrary: h q)
  case (Suc n)
  obtain p b rest where q: "q = (p, b) # rest" using Suc.prems(2) by (metis list.exhaust prod.exhaust)
  note sq = Suc.prems(1) [unfolded q]
  have b: "b \<notin> snd ` set rest" using Suc.prems(4) q by simp
  note qb = queued_bytes_Cons [OF sq]
  obtain x t where x: "try_send env k p b h = (x, t)" by fastforce
  obtain r g where run: "DriverOnWritable env k h = (r, g)" by fastforce
  from assms(1-3) x show ?case
  proof (cases rule: try_send_accepting)
    case all
    note g = writable_popped [OF sq run x [unfolded all(1)] all(4,3)]
    have fd: "DriverGetFd g k = DriverGetFd h k" using g(3) by (simp add: DriverGetFd_def)
    have out: "stream (h_world g) (DriverGetFd h k) @ queued_bytes g k = stream (h_world h) (DriverGetFd h k) @ queued_bytes h k"
      and pr: "h_promises g = (h_promises h)(p := Value)"
      using all(2) g qb by (auto simp: front_sent_def)
    show ?thesis
    proof (cases "rest = []")
      case True
      with run g out pr q show ?thesis by (auto simp: fun_eq_iff)
    next
      case False
      have "length (queued_bytes g k) + length rest \<le> n" using Suc.prems(5) q qb g(6) by simp
      with Suc.IH [OF g(2) False] Suc.prems(3,4) q obtain f where
        f: "writable_events env k n g = (Inr True, f)" "as_sendQ (h_async f k) = SendQ []"
          "stream (h_world f) (DriverGetFd g k) = stream (h_world g) (DriverGetFd g k) @ queued_bytes g k"
          "h_promises f = (\<lambda>p. if p \<in> fst ` set rest then Value else h_promises g p)" by auto
      have "writable_events env k (Suc n) h = (Inr True, f)" using run g(1) False f(1) by (simp add: andthen_def)
      with f out pr fd q show ?thesis by (auto simp: fun_eq_iff)
    qed
  next
    case some
    note g = writable_kept [OF sq b run x [unfolded some(1)] some(4,3)]
    have aq: "as_sendQ (h_async g k) = SendQ q" and fd: "DriverGetFd g k = DriverGetFd h k"
      using some(4) g(2) Suc.prems(1) by (simp_all add: DriverGetFd_def)
    have out: "stream (h_world g) (DriverGetFd h k) @ queued_bytes g k = stream (h_world h) (DriverGetFd h k) @ queued_bytes h k"
      and pr: "h_promises g = h_promises h" and "length (buf_content b g) < length (buf_content b h)"
      using some(2) g(2,3) qb by (auto simp: front_partial_def)
    then have "length (queued_bytes g k) + length q \<le> n" using Suc.prems(5) qb g(3) by simp
    with Suc.IH [OF aq Suc.prems(2-4)] obtain f where
      f: "writable_events env k n g = (Inr True, f)" "as_sendQ (h_async f k) = SendQ []"
        "stream (h_world f) (DriverGetFd g k) = stream (h_world g) (DriverGetFd g k) @ queued_bytes g k"
        "h_promises f = (\<lambda>p. if p \<in> fst ` set q then Value else h_promises g p)" by blast
    have "writable_events env k (Suc n) h = (Inr True, f)" using run g(1) f(1) by (simp add: andthen_def)
    with f out fd show ?thesis unfolding pr by simp
  qed
qed simp

section \<open>A concrete socket\<close>

text \<open>A driver with one stream socket, whose system takes three bytes, fails, and takes the rest.\<close>

definition test_user :: "'w user" where
  "test_user = \<lparr>u_task = (\<lambda>_. ret ()), u_receive = (\<lambda>_ b. modify (buf_drop b)),
     u_receive_from = (\<lambda>_ b _. modify (buf_drop b)), u_connect = (\<lambda>_ _ _. ret ()), u_disconnect = (\<lambda>_ _ _. ret ())\<rparr>"

definition test_env :: "script env" where
  "test_env = \<lparr>e_os = script_os, e_nd = test_netdb_script, e_vt = (\<lambda>_. SocketImpl_vtable script_os test_netdb_script),
     e_user = test_user, e_with_tls = False\<rparr>"

lemma test_env_simps [simp]:
  "e_os test_env = script_os" "e_vt test_env k = SocketImpl_vtable script_os (e_nd test_env)" "e_user test_env = test_user"
  "e_nd test_env = test_netdb_script"
  by (simp_all add: test_env_def)

definition test_pool :: pool where
  "test_pool = (let (b1, p) = BufferPool_Get (BufferPool 0 0); (b2, p) = BufferPool_Get p
     in pool_write 1 (\<lambda>b. b\<lparr>content := ''de''\<rparr>) (pool_write 0 (\<lambda>b. b\<lparr>content := ''abc''\<rparr>) p))"

definition test_heap :: "int list \<Rightarrow> script heap" where
  "test_heap sends = \<lparr>h_world = script0\<lparr>s_sends := sends\<rparr>, h_pools = (\<lambda>_. test_pool),
     h_async = (\<lambda>_. \<lparr>as_fd = 5, as_rxBufSize = 0, as_pool = 1, as_role = TcpRole None,
        as_sendQ = SendQ [(0, \<lparr>br_pool = 0, br_ptr = 0\<rparr>), (1, \<lparr>br_pool = 0, br_ptr = 1\<rparr>)]\<rparr>),
     h_promises = (\<lambda>_. Pending), h_next_promise = 2, h_alive = True, h_todos = no_todos, h_sockets = [7],
     h_pfds = [\<lparr>pfd_fd = 3, pfd_events = {POLLIN}, pfd_revents = {}\<rparr>,
       \<lparr>pfd_fd = 5, pfd_events = {POLLIN, POLLOUT}, pfd_revents = {POLLOUT}\<rparr>],
     h_shouldStop = False, h_pipeTo = 3, h_pipeFrom = 4, h_pipeToAddr = SockAddrStorage_filled test_netdb_script []\<rparr>"

lemma test_heap_simps [simp]:
  "as_sendQ (h_async (test_heap sends) k) = SendQ [(0, \<lparr>br_pool = 0, br_ptr = 0\<rparr>), (1, \<lparr>br_pool = 0, br_ptr = 1\<rparr>)]"
  "DriverGetFd (test_heap sends) k = 5" "h_promises (test_heap sends) = (\<lambda>_. Pending)"
  "h_world (test_heap sends) = script0\<lparr>s_sends := sends\<rparr>"
  by (simp_all add: test_heap_def DriverGetFd_def)

lemma test_heap_queued [simp]: "queued_bytes (test_heap sends) k = ''abcde''"
proof -
  have "map (buf_content \<lparr>br_pool = 0, br_ptr = 0\<rparr>) [test_heap []] = [''abc'']"
    "map (buf_content \<lparr>br_pool = 0, br_ptr = 1\<rparr>) [test_heap []] = [''de'']" by code_simp+
  moreover have "buf_content b (test_heap sends) = buf_content b (test_heap [])" for b
    by (simp add: buf_content_def test_heap_def)
  ultimately show ?thesis by (simp add: queued_bytes_def)
qed

lemma script0_stream [simp]: "s_stream (script0\<lparr>s_sends := sends\<rparr>) = (\<lambda>_. [])"
  by (simp add: script0_def)

theorem DriverOnWritable_conserves_witness:
  "\<exists>g. DriverOnWritable test_env 7 (test_heap [2]) = (Inr False, g)
    \<and> s_stream (h_world g) 5 @ queued_bytes g 7 = ''abcde'' \<and> length (queued_bytes g 7) < 5"
proof -
  let ?h = "test_heap [2]"
  have "fst (DriverOnWritable test_env 7 ?h) = Inr False" by code_simp
  then obtain g where run: "DriverOnWritable test_env 7 ?h = (Inr False, g)" by (metis prod.collapse)
  have "(case as_sendQ (h_async (snd (DriverOnWritable test_env 7 ?h)) 7) of SendQ q \<Rightarrow> length q | _ \<Rightarrow> 0) = 2" by code_simp
  then have q: "as_sendQ (h_async g 7) \<noteq> SendQ [(1, \<lparr>br_pool = 0, br_ptr = 1\<rparr>)]" by (auto simp: run)
  have "stream_send (e_os test_env) s_stream" by simp
  from DriverOnWritable_conserves [OF this _ _ _ run] q run show ?thesis by (auto split: if_splits)
qed

text \<open>A system that takes two bytes at a time.\<close>

definition two_os :: "script os" where
  "two_os = script_os\<lparr>sys_send := (\<lambda>s d w. (int (min 2 (length d)), w\<lparr>s_stream := (s_stream w)(s := s_stream w s @ take (min 2 (length d)) d)\<rparr>))\<rparr>"

definition two_env :: "script env" where
  "two_env = test_env\<lparr>e_os := two_os, e_vt := (\<lambda>_. SocketImpl_vtable two_os test_netdb_script)\<rparr>"

lemma two_os_accepting: "accepting two_os" "stream_send two_os s_stream"
proof -
  show "accepting two_os" by (simp add: accepting_def two_os_def)
  have "sys_poll two_os = sys_poll script_os" "sys_now two_os = sys_now script_os" by (simp_all add: two_os_def)
  moreover have "\<forall>s d w r w'. sys_send two_os s d w = (r, w') \<longrightarrow>
      (if r < 0 then s_stream w' s = s_stream w s else nat r \<le> length d \<and> s_stream w' s = s_stream w s @ take (nat r) d)"
    by (auto simp: two_os_def)
  ultimately show "stream_send two_os s_stream" using script_os_stream_send unfolding stream_send_def by metis
qed

theorem queue_drains_witness:
  "\<exists>g. writable_events two_env 7 7 (test_heap []) = (Inr True, g) \<and> s_stream (h_world g) 5 = ''abcde''
    \<and> h_promises g 0 = Value \<and> h_promises g 1 = Value \<and> h_promises g 2 = Pending"
proof -
  have env: "e_os two_env = two_os" "e_vt two_env 7 = SocketImpl_vtable (e_os two_env) (e_nd two_env)"
    by (simp_all add: two_env_def)
  from queue_drains [of two_env s_stream 7 "test_heap []" "[(0, \<lparr>br_pool = 0, br_ptr = 0\<rparr>), (1, \<lparr>br_pool = 0, br_ptr = 1\<rparr>)]" 7]
    two_os_accepting env show ?thesis by auto
qed

end
