(* ===== verification/Driver.thy ===== *)
theory Driver
  imports Async
begin

text \<open>
  \<^verbatim>\<open>src/driver_impl.cpp\<close>: the event loop.  A step first runs the tasks that are due, then waits for one of
  the sockets or the signalling pipe and lets one socket act.  The locking around a step is modelled in
  theory \<open>Handshake\<close>; here a step is one computation.
\<close>

section \<open>Construction\<close>

record pipes =
  pipe_ToAddr :: address_impl
  pipe_From :: fd
  pipe_To :: fd

text \<open>
  The signalling pipe: two UDP sockets on the loopback address, the receiving one with the address
  that the system assigned.  An exception destroys the members made so far, in reverse order.
\<close>

definition DriverImpl :: "'w os \<Rightarrow> 'w netdb \<Rightarrow> ('w, pipes) exec" where
  "DriverImpl os nd =
     andthen (SockAddrInfo_port nd 0) (\<lambda>pipeToAddr.
     andthen (lift_sum (AddressImpl_Family nd pipeToAddr)) (\<lambda>family.
     andthen (SocketImpl os family SOCK_DGRAM IPPROTO_UDP) (\<lambda>pipeFrom.
     owning os pipeFrom
       (andthen (SocketImpl os family SOCK_DGRAM IPPROTO_UDP) (\<lambda>pipeTo.
        owning os pipeTo
          (andthen (lift_sum (ForUdp pipeToAddr)) (\<lambda>view.
           andthen (Bind os nd pipeTo view) (\<lambda>_.
           andthen (GetSockName os nd pipeTo) (\<lambda>pipeToAddr.
           andthen (SockAddrInfo_port nd 0) (\<lambda>pipeFromAddr.
           andthen (lift_sum (ForUdp pipeFromAddr)) (\<lambda>view.
           andthen (Bind os nd pipeFrom view) (\<lambda>_.
             ret \<lparr>pipe_ToAddr = pipeToAddr, pipe_From = pipeFrom, pipe_To = pipeTo\<rparr>))))))))))))"

text \<open>The heap of a new driver: one poll entry, for the receiving end of the pipe.\<close>

definition new_heap :: "pipes \<Rightarrow> 'w \<Rightarrow> 'w heap" where
  "new_heap p w = \<lparr>h_world = w, h_pools = (\<lambda>_. BufferPool 0 0),
     h_async = (\<lambda>_. \<lparr>as_fd = fdInvalid, as_rxBufSize = 0, as_pool = 0, as_role = AcceptorRole, as_sendQ = SendQ []\<rparr>),
     h_promises = (\<lambda>_. Pending), h_next_promise = 0, h_alive = True, h_todos = no_todos, h_sockets = [],
     h_pfds = [\<lparr>pfd_fd = pipe_To p, pfd_events = {POLLIN}, pfd_revents = {}\<rparr>], h_shouldStop = False,
     h_pipeTo = pipe_To p, h_pipeFrom = pipe_From p, h_pipeToAddr = pipe_ToAddr p\<rparr>"

section \<open>Tasks\<close>

definition MinDuration :: "int \<Rightarrow> duration \<Rightarrow> duration" where
  "MinDuration lhs rhs = (if rhs < 0 then duration_cast_ms lhs else min (duration_cast_ms lhs) rhs)"

text \<open>The deadline that is the template parameter of \<^verbatim>\<open>StepTodos\<close>, as its operations.\<close>

record ('w, 'd) policy =
  p_tick :: "'d \<Rightarrow> 'w \<Rightarrow> 'd \<times> 'w"
  p_left :: "'d \<Rightarrow> bool"
  p_rem :: "'d \<Rightarrow> duration"
  p_now :: "'d \<Rightarrow> timepoint"

definition policy_unlimited :: "'w os \<Rightarrow> ('w, clocked) policy" where
  "policy_unlimited os =
     \<lparr>p_tick = Clocked_Tick os, p_left = Unlimited_TimeLeft, p_rem = Unlimited_Remaining, p_now = now\<rparr>"

definition policy_zero :: "'w os \<Rightarrow> ('w, clocked) policy" where
  "policy_zero os =
     \<lparr>p_tick = Clocked_Tick os, p_left = ZeroLimited_TimeLeft, p_rem = ZeroLimited_Remaining, p_now = now\<rparr>"

definition policy_limited :: "'w os \<Rightarrow> ('w, deadline_limited) policy" where
  "policy_limited os =
     \<lparr>p_tick = Clocked_Tick os, p_left = DeadlineLimited_TimeLeft, p_rem = DeadlineLimited_Remaining, p_now = now\<rparr>"

text \<open>
  The loop over the due tasks.  A task may schedule further tasks that are due at once, so the loop need
  not end; the number bounds its rounds, and \<^const>\<open>None\<close> says that they did not suffice.
\<close>

fun StepTodos :: "'w env \<Rightarrow> ('w, 'd) policy \<Rightarrow> nat \<Rightarrow> 'd \<Rightarrow> 'w heap \<Rightarrow> ((exn + duration) \<times> 'w heap) option" where
  "StepTodos env p 0 d h = None"
| "StepTodos env p (Suc n) d h =
     (case pending (h_todos h) of
        [] \<Rightarrow> Some (Inl AssertFailed, h)
      | front # _ \<Rightarrow>
          let until = when_of (h_todos h) front - p_now p d
          in if until > 0 then Some (Inr (MinDuration until (p_rem p d)), h)
             else
               (case u_task (e_user env) front (h\<lparr>h_todos := ToDos_pop_front (h_todos h)\<rparr>) of
                  (Inl e, h) \<Rightarrow> Some (Inl e, h)
                | (Inr _, h) \<Rightarrow>
                    let (d, w) = p_tick p d (h_world h); h = h\<lparr>h_world := w\<rparr>
                    in if pending (h_todos h) = [] then Some (Inr (p_rem p d), h)
                       else if p_left p d then StepTodos env p n d h
                       else Some (Inr 0, h)))"

section \<open>Sockets\<close>

text \<open>The loop of \<^verbatim>\<open>QuerySockets\<close> over the sockets that are left, from index \<open>i\<close> on.\<close>

fun QuerySockets_loop :: "'w env \<Rightarrow> nat \<Rightarrow> sock_id list \<Rightarrow> ('w heap, unit) exec" where
  "QuerySockets_loop env i [] = ret ()"
| "QuerySockets_loop env i (k # ks) =
     andthen (get (\<lambda>h. h_pfds h ! (i + 1))) (\<lambda>pfd.
     andthen (get (\<lambda>h. DriverGetFd h k)) (\<lambda>s.
       if pfd_fd pfd \<noteq> s then throw AssertFailed
       else
         andthen (DriverQuery env k (pfd_events pfd)) (\<lambda>events.
         andthen (modify (\<lambda>h. h\<lparr>h_pfds := (h_pfds h)[i + 1 := pfd\<lparr>pfd_events := events\<rparr>]\<rparr>)) (\<lambda>_.
           QuerySockets_loop env (i + 1) ks))))"

definition QuerySockets :: "'w env \<Rightarrow> ('w heap, unit) exec" where
  "QuerySockets env =
     (if \<not> e_with_tls env then ret ()
      else andthen (get (\<lambda>h. length (h_sockets h) + 1 = length (h_pfds h))) (\<lambda>ok.
        if \<not> ok then throw AssertFailed
        else andthen (get h_sockets) (QuerySockets_loop env 0)))"

fun DoOneSocketTask_loop :: "'w env \<Rightarrow> nat \<Rightarrow> sock_id list \<Rightarrow> ('w heap, unit) exec" where
  "DoOneSocketTask_loop env i [] = throw (LogicError ''unhandled poll event'')"
| "DoOneSocketTask_loop env i (k # ks) =
     andthen (get (\<lambda>h. h_pfds h ! (i + 1))) (\<lambda>pfd.
     andthen (get (\<lambda>h. DriverGetFd h k)) (\<lambda>s.
       if pfd_fd pfd \<noteq> s then throw AssertFailed
       else if POLLIN \<in> pfd_revents pfd then DriverOnReadable env k
       else if POLLOUT \<in> pfd_revents pfd then
         andthen (DriverOnWritable env k) (\<lambda>emptied.
           if emptied
           then modify (\<lambda>h. h\<lparr>h_pfds := (h_pfds h)[i + 1 := remove_event POLLOUT (h_pfds h ! (i + 1))]\<rparr>)
           else ret ())
       else if pfd_revents pfd \<inter> {POLLHUP, POLLERR} \<noteq> {} then DriverOnError env k ''poll hangup/error''
       else DoOneSocketTask_loop env (i + 1) ks))"

definition DoOneSocketTask :: "'w env \<Rightarrow> ('w heap, unit) exec" where
  "DoOneSocketTask env =
     andthen (get (\<lambda>h. length (h_sockets h) + 1 = length (h_pfds h))) (\<lambda>ok.
       if \<not> ok then throw AssertFailed
       else andthen (get h_sockets) (DoOneSocketTask_loop env 0))"

definition Unbump :: "'w env \<Rightarrow> ('w heap, unit) exec" where
  "Unbump env =
     andthen (get h_pipeTo) (\<lambda>s.
     andthen (heap_world (ReceiveFrom (e_os env) (e_nd env) s 256)) (\<lambda>_. ret ()))"

definition Bump :: "'w env \<Rightarrow> ('w heap, unit) exec" where
  "Bump env =
     andthen (get h_pipeFrom) (\<lambda>s.
     andthen (get h_pipeToAddr) (\<lambda>addr.
     andthen (lift_sum (ForUdp addr)) (\<lambda>view.
     andthen (heap_world (SendTo_wait (e_os env) (e_nd env) s ''1'' view (-1))) (\<lambda>sent.
       if sent \<noteq> 1 then throw AssertFailed else ret ()))))"

text \<open>Waiting stores what \<^verbatim>\<open>poll\<close> reported in the entries.\<close>

definition wait_sockets :: "'w env \<Rightarrow> duration \<Rightarrow> ('w heap, bool) exec" where
  "wait_sockets env timeout =
     andthen (get h_pfds) (\<lambda>pfds.
     andthen (heap_world (Wait (e_os env) pfds timeout)) (\<lambda>(ready, pfds).
     andthen (modify (\<lambda>h. h\<lparr>h_pfds := pfds\<rparr>)) (\<lambda>_. ret ready)))"

definition StepSockets :: "'w env \<Rightarrow> duration \<Rightarrow> ('w heap, unit) exec" where
  "StepSockets env timeout =
     andthen (QuerySockets env) (\<lambda>_.
     andthen (wait_sockets env timeout) (\<lambda>ready.
       if \<not> ready then ret ()
       else andthen (get (\<lambda>h. pfd_revents (hd (h_pfds h)))) (\<lambda>revents.
         if POLLIN \<in> revents then Unbump env
         else if revents \<noteq> {} then throw (LogicError ''unexpected signalling pipe poll result'')
         else DoOneSocketTask env)))"

section \<open>Steps and the loop\<close>

text \<open>The deadline is made from the clock, then the tasks run.\<close>

definition step_todos :: "'w env \<Rightarrow> nat \<Rightarrow> duration \<Rightarrow> 'w heap \<Rightarrow> ((exn + duration) \<times> 'w heap) option" where
  "step_todos env fuel timeout h =
     (let os = e_os env
      in if timeout < 0 then
           (let (d, w) = Clocked os (h_world h) in StepTodos env (policy_unlimited os) fuel d (h\<lparr>h_world := w\<rparr>))
         else if timeout = 0 then
           (let (d, w) = Clocked os (h_world h) in StepTodos env (policy_zero os) fuel d (h\<lparr>h_world := w\<rparr>))
         else
           (let (d, w) = DeadlineLimited os timeout (h_world h)
            in StepTodos env (policy_limited os) fuel d (h\<lparr>h_world := w\<rparr>)))"

definition Step :: "'w env \<Rightarrow> nat \<Rightarrow> duration \<Rightarrow> 'w heap \<Rightarrow> ((exn + unit) \<times> 'w heap) option" where
  "Step env fuel timeout h =
     (if pending (h_todos h) = [] then Some (StepSockets env timeout h)
      else
        (case step_todos env fuel timeout h of
           None \<Rightarrow> None
         | Some (Inl e, h) \<Rightarrow> Some (Inl e, h)
         | Some (Inr remaining, h) \<Rightarrow> Some (StepSockets env remaining h)))"

text \<open>\<^verbatim>\<open>Run\<close> is bounded by a number of steps, each with its own bound on the tasks.\<close>

fun Run_loop :: "'w env \<Rightarrow> nat \<Rightarrow> nat \<Rightarrow> 'w heap \<Rightarrow> ((exn + unit) \<times> 'w heap) option" where
  "Run_loop env fuel 0 h = (if h_shouldStop h then Some (Inr (), h) else None)"
| "Run_loop env fuel (Suc n) h =
     (if h_shouldStop h then Some (Inr (), h)
      else
        (case Step env fuel (-1) h of
           None \<Rightarrow> None
         | Some (Inl e, h) \<Rightarrow> Some (Inl e, h)
         | Some (Inr _, h) \<Rightarrow> Run_loop env fuel n h))"

definition Run :: "'w env \<Rightarrow> nat \<Rightarrow> nat \<Rightarrow> 'w heap \<Rightarrow> ((exn + unit) \<times> 'w heap) option" where
  "Run env fuel n h = Run_loop env fuel n (h\<lparr>h_shouldStop := False\<rparr>)"

definition Stop :: "'w env \<Rightarrow> ('w heap, unit) exec" where
  "Stop env = andthen (modify (\<lambda>h. h\<lparr>h_shouldStop := True\<rparr>)) (\<lambda>_. Bump env)"

text \<open>The destructor: the flag is set, then the members are destroyed, the two sockets last.\<close>

definition DriverImpl_destroy :: "'w env \<Rightarrow> ('w heap, unit) exec" where
  "DriverImpl_destroy env =
     modify (\<lambda>h. h\<lparr>h_shouldStop := True, h_alive := False, h_todos := (h_todos h)\<lparr>pending := []\<rparr>,
       h_sockets := [], h_pfds := [],
       h_world := SocketImpl_destroy (e_os env) (h_pipeFrom h)
         (SocketImpl_destroy (e_os env) (h_pipeTo h) (h_world h))\<rparr>)"

text \<open>What tasks reach through the driver.\<close>

definition Driver_ToDoInsert :: "todo_id \<Rightarrow> ('w heap, unit) exec" where
  "Driver_ToDoInsert t = modify (\<lambda>h. h\<lparr>h_todos := ToDos_Insert t (h_todos h)\<rparr>)"

definition Driver_ToDoRemove :: "todo_id \<Rightarrow> ('w heap, unit) exec" where
  "Driver_ToDoRemove t = modify (\<lambda>h. h\<lparr>h_todos := ToDos_Remove t (h_todos h)\<rparr>)"

definition Driver_ToDoMove :: "todo_id \<Rightarrow> timepoint \<Rightarrow> ('w heap, unit) exec" where
  "Driver_ToDoMove t when = modify (\<lambda>h. h\<lparr>h_todos := ToDos_Move t when (h_todos h)\<rparr>)"

end
