(* ===== verification/DriverLists.thy ===== *)
theory DriverLists
  imports Driver Calm
begin

text \<open>
  The driver's list of sockets and its list of poll entries: they stay aligned under every operation, and a
  socket is polled for writing exactly while it has something to send.
\<close>

section \<open>The invariant of the lists\<close>

fun queue_length :: "send_queue \<Rightarrow> nat" where
  "queue_length (SendQ q) = length q"
| "queue_length (SendToQ q) = length q"

definition entry_ok :: "'w heap \<Rightarrow> sock_id \<Rightarrow> pollfd \<Rightarrow> bool" where
  "entry_ok h k p \<longleftrightarrow> pfd_fd p = DriverGetFd h k \<and> POLLIN \<in> pfd_events p \<and>
     (POLLOUT \<in> pfd_events p \<longleftrightarrow> queue_length (as_sendQ (h_async h k)) \<noteq> 0)"

text \<open>
  The entries after that of the pipe belong to the sockets in their order, no descriptor appears twice, and
  no socket has the descriptor of the pipe.
\<close>

definition driver_ok :: "'w heap \<Rightarrow> bool" where
  "driver_ok h \<longleftrightarrow>
     (case h_pfds h of
        [] \<Rightarrow> False
      | p # ps \<Rightarrow> pfd_fd p = h_pipeTo h \<and> pfd_events p = {POLLIN} \<and> list_all2 (entry_ok h) (h_sockets h) ps)
     \<and> distinct (map (DriverGetFd h) (h_sockets h))
     \<and> (\<forall>k. DriverGetFd h k \<noteq> h_pipeTo h) \<and> h_alive h"

text \<open>
  What matters of the events to poll for depends on the kind of socket: \<open>W w k queued out\<close> says whether in the world
  \<open>w\<close> the socket \<open>k\<close>, with or without something in its queue, may be polled for writing or not.  A plain
  socket is polled for writing exactly while something is queued.
\<close>

definition entry_inv :: "('w \<Rightarrow> sock_id \<Rightarrow> bool \<Rightarrow> bool \<Rightarrow> bool) \<Rightarrow> 'w heap \<Rightarrow> sock_id \<Rightarrow> pollfd \<Rightarrow> bool" where
  "entry_inv W h k p \<longleftrightarrow> pfd_fd p = DriverGetFd h k \<and> POLLIN \<in> pfd_events p \<and>
     W (h_world h) k (queue_length (as_sendQ (h_async h k)) \<noteq> 0) (POLLOUT \<in> pfd_events p)"

definition driver_inv :: "('w \<Rightarrow> sock_id \<Rightarrow> bool \<Rightarrow> bool \<Rightarrow> bool) \<Rightarrow> 'w heap \<Rightarrow> bool" where
  "driver_inv W h \<longleftrightarrow>
     (case h_pfds h of
        [] \<Rightarrow> False
      | p # ps \<Rightarrow> pfd_fd p = h_pipeTo h \<and> pfd_events p = {POLLIN} \<and> list_all2 (entry_inv W h) (h_sockets h) ps)
     \<and> distinct (map (DriverGetFd h) (h_sockets h))
     \<and> (\<forall>k. DriverGetFd h k \<noteq> h_pipeTo h) \<and> h_alive h"

definition exactly :: "'w \<Rightarrow> sock_id \<Rightarrow> bool \<Rightarrow> bool \<Rightarrow> bool" where
  "exactly w k queued out \<longleftrightarrow> out = queued"

lemma entry_inv_exactly: "entry_inv exactly = entry_ok"
  by (auto simp: fun_eq_iff entry_inv_def entry_ok_def exactly_def)

lemma driver_inv_exactly: "driver_inv exactly = driver_ok"
  unfolding fun_eq_iff driver_inv_def driver_ok_def entry_inv_exactly by simp

text \<open>The parts of the heap the invariant looks at.\<close>

definition lists_of :: "'w heap \<Rightarrow> (sock_id \<Rightarrow> async_sock) \<times> sock_id list \<times> pollfd list \<times> fd \<times> bool" where
  "lists_of h = (h_async h, h_sockets h, h_pfds h, h_pipeTo h, h_alive h)"

lemma lists_of_simps [simp]:
  "lists_of (h\<lparr>h_world := w\<rparr>) = lists_of h"
  "lists_of (h\<lparr>h_pools := P\<rparr>) = lists_of h"
  "lists_of (h\<lparr>h_promises := Q\<rparr>) = lists_of h"
  "lists_of (h\<lparr>h_next_promise := n\<rparr>) = lists_of h"
  "lists_of (h\<lparr>h_todos := t\<rparr>) = lists_of h"
  "lists_of (h\<lparr>h_shouldStop := stop\<rparr>) = lists_of h"
  "lists_of (set_promise p v h) = lists_of h"
  "lists_of (buf_modify b f h) = lists_of h"
  "lists_of (buf_drop b h) = lists_of h"
  by (simp_all add: lists_of_def set_promise_def buf_modify_def buf_drop_def)

text \<open>Together with what the kind of socket looks at in the world.\<close>

definition watched :: "('w \<Rightarrow> sock_id \<Rightarrow> bool \<Rightarrow> bool \<Rightarrow> bool) \<Rightarrow> 'w heap \<Rightarrow>
    ((sock_id \<Rightarrow> async_sock) \<times> sock_id list \<times> pollfd list \<times> fd \<times> bool) \<times> (sock_id \<Rightarrow> bool \<Rightarrow> bool \<Rightarrow> bool)" where
  "watched W h = (lists_of h, W (h_world h))"

lemma watched_simps [simp]:
  "watched W (h\<lparr>h_pools := P\<rparr>) = watched W h"
  "watched W (h\<lparr>h_promises := Q\<rparr>) = watched W h"
  "watched W (h\<lparr>h_next_promise := n\<rparr>) = watched W h"
  "watched W (h\<lparr>h_todos := t\<rparr>) = watched W h"
  "watched W (h\<lparr>h_shouldStop := stop\<rparr>) = watched W h"
  "watched W (set_promise p v h) = watched W h"
  "watched W (buf_modify b f h) = watched W h"
  "watched W (buf_drop b h) = watched W h"
  "W w = W (h_world h) \<Longrightarrow> watched W (h\<lparr>h_world := w\<rparr>) = watched W h"
  by (simp_all add: watched_def) (simp_all add: set_promise_def buf_modify_def buf_drop_def)

lemma leaves_watched_world [leaves_intros]: "leaves W m \<Longrightarrow> leaves (watched W) (heap_world m)"
  by (simp add: leaves_def heap_world_def)

lemma leaves_watched_buffered [leaves_intros]:
  "leaves (\<lambda>s. W (bw_world s)) m \<Longrightarrow> leaves (watched W) (heap_buffered p m)"
  by (fastforce simp: leaves_def heap_buffered_def watched_def lists_of_def dest: spec [of _ "\<lparr>bw_pool = _, bw_world = _\<rparr>"])

lemma leaves_lists_world [leaves_intros, simp]: "leaves lists_of (heap_world m)"
  by (simp add: leaves_def heap_world_def)

lemma leaves_lists_buffered [leaves_intros, simp]: "leaves lists_of (heap_buffered p m)"
  by (simp add: leaves_def heap_buffered_def lists_of_def)

lemma leaves_catch [leaves_intros]: "leaves f m \<Longrightarrow> (\<And>e. leaves f (g e)) \<Longrightarrow> leaves f (catch m p g)"
proof (unfold leaves_def, intro allI)
  fix s
  assume m: "\<forall>s. f (snd (m s)) = f s" and g: "\<And>e. \<forall>s. f (snd (g e s)) = f s"
  obtain r t where "m s = (r, t)" by fastforce
  with spec [OF m, of s] g show "f (snd (catch m p g s)) = f s" by (cases r) simp_all
qed

section \<open>Finding an entry\<close>

lemma find_index_eq:
  assumes "i < length xs" and "P (xs ! i)" and "\<And>j. j < i \<Longrightarrow> \<not> P (xs ! j)"
  shows "find_index P xs = i"
  using assms
proof (induction xs arbitrary: i)
  case (Cons x xs)
  show ?case
  proof (cases i)
    case 0
    with Cons.prems show ?thesis by (simp add: find_index_def)
  next
    case (Suc j)
    have "\<not> P x" using Cons.prems(3) [of 0] Suc by simp
    moreover have "find_index P xs = j"
      using Cons.prems Suc Cons.prems(3) [of "Suc l" for l] by (intro Cons.IH) auto
    ultimately show ?thesis by (simp add: find_index_def Suc)
  qed
qed simp

lemma find_index_none: "(\<And>x. x \<in> set xs \<Longrightarrow> \<not> P x) \<Longrightarrow> find_index P xs = length xs"
  by (auto simp: find_index_def)

lemma erase_found_at: "find_index P xs = i \<Longrightarrow> i < length xs \<Longrightarrow> erase_found P xs = take i xs @ drop (Suc i) xs"
  by (simp add: erase_found_def)

lemma erase_found_none: "(\<And>x. x \<in> set xs \<Longrightarrow> \<not> P x) \<Longrightarrow> erase_found P xs = xs"
  by (simp add: erase_found_def find_index_none Let_def)

text \<open>What either way of enqueueing does: it makes the queue of this socket longer by one, or fails.\<close>

definition enqueues :: "sock_id \<Rightarrow> ('w heap, bool) exec \<Rightarrow> bool" where
  "enqueues k m \<longleftrightarrow> (\<forall>h r h'. m h = (r, h') \<longrightarrow>
     (case r of
        Inl e \<Rightarrow> h' = h
      | Inr wasEmpty \<Rightarrow>
          (\<exists>q. h' = upd_async k (\<lambda>a. a\<lparr>as_sendQ := q\<rparr>) h \<and> queue_length q = Suc (queue_length (as_sendQ (h_async h k)))
             \<and> wasEmpty = (queue_length (as_sendQ (h_async h k)) = 0))))"

lemma enqueues_SendQ: "enqueues k (DoSendEnqueue k promise b)"
  by (auto simp: enqueues_def DoSendEnqueue_def upd_async_def split: send_queue.splits)

lemma enqueues_SendToQ: "enqueues k (DoSendEnqueue_to k promise b a)"
  by (auto simp: enqueues_def DoSendEnqueue_to_def upd_async_def split: send_queue.splits)

lemma new_promise_same [simp]: "lists_of (snd (new_promise h)) = lists_of h" "watched W (snd (new_promise h)) = watched W h"
  by (simp_all add: new_promise_def)

text \<open>The socket's queue has grown by one; then the wish to send is noted when the queue was empty.\<close>

definition grown :: "sock_id \<Rightarrow> send_queue \<Rightarrow> 'w heap \<Rightarrow> 'w heap" where
  "grown k q = upd_async k (\<lambda>a. a\<lparr>as_sendQ := q\<rparr>)"

lemma grown_fd [simp]: "DriverGetFd (grown k q h) = DriverGetFd h"
  by (auto simp: grown_def upd_async_def DriverGetFd_def fun_eq_iff)

lemma grown_simps [simp]: "h_sockets (grown k q h) = h_sockets h" "h_pipeTo (grown k q h) = h_pipeTo h"
  "h_world (grown k q h) = h_world h"
  by (simp_all add: grown_def upd_async_def)

lemma DoSend_run:
  assumes "h_alive h" and "lists_of g = lists_of h"
    and "new_promise h = (Inr p, g)" and "enq p g = (Inr wasEmpty, grown k q g)"
  shows "DoSend k enq h =
    (if wasEmpty then case AsyncWantSend (DriverGetFd g k) (grown k q g) of
        (Inl e, t) \<Rightarrow> (Inl e, t) | (Inr _, t) \<Rightarrow> (Inr p, t)
     else (Inr p, grown k q g))"
  using assms by (simp add: DoSend_def andthen_def lists_of_def grown_def upd_async_def DriverGetFd_def split: prod.split sum.split)

text \<open>The plain socket: every operation that the TLS socket overrides is that of \<^verbatim>\<open>SocketImpl\<close>.\<close>

definition plain_env :: "'w env \<Rightarrow> bool" where
  "plain_env env \<longleftrightarrow> (\<forall>k. e_vt env k = SocketImpl_vtable (e_os env) (e_nd env))"

fun send_queue_tl :: "send_queue \<Rightarrow> send_queue" where
  "send_queue_tl (SendQ q) = SendQ (tl q)"
| "send_queue_tl (SendToQ q) = SendToQ (tl q)"

lemma queue_length_tl [simp]: "queue_length (send_queue_tl q) = queue_length q - 1"
  by (cases q) simp_all

lemma watched_pop: "watched W (pop_SendQ k b h) = watched W (upd_async k (\<lambda>a. a\<lparr>as_sendQ := send_queue_tl (as_sendQ a)\<rparr>) h)"
proof -
  have "(case q of SendQ q \<Rightarrow> SendQ (tl q) | SendToQ q \<Rightarrow> SendToQ (tl q)) = send_queue_tl q" for q
    by (cases q) simp_all
  then show ?thesis by (simp add: pop_SendQ_def)
qed

text \<open>The branch of \<^verbatim>\<open>DoOneSocketTask\<close> for a writable socket, with its entry at the given index.\<close>

definition serve_writable :: "'w env \<Rightarrow> nat \<Rightarrow> sock_id \<Rightarrow> ('w heap, unit) exec" where
  "serve_writable env n k =
     andthen (DriverOnWritable env k) (\<lambda>emptied.
       if emptied then modify (\<lambda>h. h\<lparr>h_pfds := (h_pfds h)[n := remove_event POLLOUT (h_pfds h ! n)]\<rparr>) else ret ())"

definition reports :: "pollfd \<Rightarrow> bool" where
  "reports p \<longleftrightarrow> pfd_revents p \<inter> {POLLIN, POLLOUT, POLLHUP, POLLERR} \<noteq> {}"

definition serve :: "'w env \<Rightarrow> nat \<Rightarrow> sock_id \<Rightarrow> pollfd \<Rightarrow> ('w heap, unit) exec" where
  "serve env n k p =
     (if POLLIN \<in> pfd_revents p then DriverOnReadable env k
      else if POLLOUT \<in> pfd_revents p then serve_writable env n k
      else DriverOnError env k ''poll hangup/error'')"

lemma DoOneSocketTask_loop_find:
  assumes "\<And>j. j < length ks \<Longrightarrow> pfd_fd (h_pfds h ! (i + j + 1)) = DriverGetFd h (ks ! j)"
  shows "DoOneSocketTask_loop env i ks h =
    (case find (\<lambda>(n, k). reports (h_pfds h ! n)) (enumerate (Suc i) ks) of
       None \<Rightarrow> (Inl (LogicError ''unhandled poll event''), h)
     | Some (n, k) \<Rightarrow> serve env n k (h_pfds h ! n) h)"
  using assms
proof (induction ks arbitrary: i)
  case (Cons k ks)
  have fd: "pfd_fd (h_pfds h ! Suc i) = DriverGetFd h k" using Cons.prems [of 0] by simp
  have "DoOneSocketTask_loop env (Suc i) ks h =
    (case find (\<lambda>(n, k). reports (h_pfds h ! n)) (enumerate (Suc (Suc i)) ks) of
       None \<Rightarrow> (Inl (LogicError ''unhandled poll event''), h)
     | Some (n, k) \<Rightarrow> serve env n k (h_pfds h ! n) h)"
    using Cons.prems [of "Suc j" for j] by (intro Cons.IH) auto
  with fd show ?case
    by (auto simp: DoOneSocketTask_loop.simps(2) [unfolded Suc_eq_plus1 [symmetric], folded serve_writable_def]
        reports_def serve_def andthen_def simp del: DoOneSocketTask_loop.simps(2))
qed simp

text \<open>What user code and the environment must leave intact.\<close>

definition user_keeps :: "('w heap \<Rightarrow> bool) \<Rightarrow> 'w user \<Rightarrow> bool" where
  "user_keeps I u \<longleftrightarrow> (\<forall>t. keeps I (u_task u t)) \<and> (\<forall>k b. keeps I (u_receive u k b))
     \<and> (\<forall>k b a. keeps I (u_receive_from u k b a)) \<and> (\<forall>k s a. keeps I (u_connect u k s a))
     \<and> (\<forall>k a m. keeps I (u_disconnect u k a m))"

lemma user_keepsD:
  assumes "user_keeps I u"
  shows "keeps I (u_task u t)" "keeps I (u_receive u k b)" "keeps I (u_receive_from u k b a)"
    "keeps I (u_connect u k s a)" "keeps I (u_disconnect u k a m)"
  using assms by (auto simp: user_keeps_def)

section \<open>The invariant under the operations\<close>

text \<open>
  All that the operations on the lists need of \<open>W\<close>: a socket with nothing to send need not be polled for writing,
  and one with something may be.
\<close>

locale polling =
  fixes W :: "'w \<Rightarrow> sock_id \<Rightarrow> bool \<Rightarrow> bool \<Rightarrow> bool"
  assumes W_idle: "W w k False False" and W_want: "W w k True True"
begin

lemma invE:
  assumes "driver_inv W h"
  obtains p ps where "h_pfds h = p # ps" and "pfd_fd p = h_pipeTo h" and "pfd_events p = {POLLIN}"
    and "list_all2 (entry_inv W h) (h_sockets h) ps" and "distinct (map (DriverGetFd h) (h_sockets h))"
    and "\<And>k. DriverGetFd h k \<noteq> h_pipeTo h" and "h_alive h"
  using assms by (auto simp: driver_inv_def split: list.splits)

lemma inv_alive: "driver_inv W h \<Longrightarrow> h_alive h"
  by (erule invE)

lemma inv_cong:
  assumes "watched W g = watched W h"
  shows "driver_inv W g = driver_inv W h"
proof -
  have eq: "h_async g = h_async h" "h_sockets g = h_sockets h" "h_pfds g = h_pfds h" "h_pipeTo g = h_pipeTo h"
    "h_alive g = h_alive h" "W (h_world g) = W (h_world h)" using assms by (simp_all add: watched_def lists_of_def)
  then have "DriverGetFd g = DriverGetFd h" "entry_inv W g = entry_inv W h"
    by (auto simp: fun_eq_iff DriverGetFd_def entry_inv_def)
  with eq show ?thesis by (simp add: driver_inv_def split: list.split)
qed

lemma inv_simps [simp]:
  "driver_inv W (h\<lparr>h_todos := t\<rparr>) = driver_inv W h"
  "driver_inv W (h\<lparr>h_shouldStop := stop\<rparr>) = driver_inv W h"
  "driver_inv W (buf_drop b h) = driver_inv W h"
  by (rule inv_cong; simp)+

lemma leaves_watched_keeps: "leaves (watched W) m \<Longrightarrow> keeps (driver_inv W) m"
  by (auto simp: leaves_def keeps_def dest: inv_cong)

lemma inv_length: "driver_inv W h \<Longrightarrow> length (h_pfds h) = length (h_sockets h) + 1"
  by (auto elim!: invE dest: list_all2_lengthD)

lemma inv_entry:
  assumes "driver_inv W h" and "i < length (h_sockets h)"
  shows "entry_inv W h (h_sockets h ! i) (h_pfds h ! Suc i)"
  using assms by (auto elim!: invE dest: list_all2_nthD)

lemma inv_fd:
  assumes "driver_inv W h" and "i < length (h_sockets h)"
  shows "pfd_fd (h_pfds h ! Suc i) = DriverGetFd h (h_sockets h ! i)"
  using inv_entry [OF assms] by (simp add: entry_inv_def)

lemma inv_inj:
  assumes "driver_inv W h" and "i < length (h_sockets h)" and "j < length (h_sockets h)"
    and "DriverGetFd h (h_sockets h ! i) = DriverGetFd h (h_sockets h ! j)"
  shows "i = j"
proof -
  have "distinct (map (DriverGetFd h) (h_sockets h))" using assms(1) by (rule invE)
  from distinct_conv_nth [THEN iffD1, OF this] assms(2-4) show ?thesis by auto
qed

lemma inv_find_pfd:
  assumes "driver_inv W h" and "i < length (h_sockets h)"
  shows "find_index (FdEqual_pfd (DriverGetFd h (h_sockets h ! i))) (h_pfds h) = Suc i"
proof (rule find_index_eq)
  show "Suc i < length (h_pfds h)" using assms inv_length by fastforce
  show "FdEqual_pfd (DriverGetFd h (h_sockets h ! i)) (h_pfds h ! Suc i)"
    using inv_fd [OF assms] by (simp add: FdEqual_pfd_def)
  fix j assume j: "j < Suc i"
  show "\<not> FdEqual_pfd (DriverGetFd h (h_sockets h ! i)) (h_pfds h ! j)"
  proof (cases j)
    case 0
    have "pfd_fd (h_pfds h ! 0) = h_pipeTo h" using assms(1) by (auto elim: invE)
    moreover have "DriverGetFd h (h_sockets h ! i) \<noteq> h_pipeTo h" using assms(1) by (rule invE)
    ultimately show ?thesis using 0 by (simp add: FdEqual_pfd_def)
  next
    case (Suc l)
    with j assms(2) have "l < length (h_sockets h)" "l \<noteq> i" by simp_all
    with inv_fd [OF assms(1) this(1)] inv_inj [OF assms(1) this(1) assms(2)] Suc
    show ?thesis by (auto simp: FdEqual_pfd_def)
  qed
qed

lemma inv_find_sock:
  assumes "driver_inv W h" and "i < length (h_sockets h)"
  shows "find_index (FdEqual_sock h (DriverGetFd h (h_sockets h ! i))) (h_sockets h) = i"
proof (rule find_index_eq)
  fix j assume j: "j < i"
  show "\<not> FdEqual_sock h (DriverGetFd h (h_sockets h ! i)) (h_sockets h ! j)"
    using inv_inj [OF assms(1), of j i] j assms(2) by (auto simp: FdEqual_sock_def)
qed (use assms in \<open>auto simp: FdEqual_sock_def\<close>)

lemma inv_sockets_distinct: "driver_inv W h \<Longrightarrow> distinct (h_sockets h)"
  by (erule invE) (simp add: distinct_map)

text \<open>A change of one socket's queue together with its entry.\<close>

lemma inv_update:
  assumes ok: "driver_inv W h" and i: "i < length (h_sockets h)" and k: "k = h_sockets h ! i"
    and p: "pfd_fd p = DriverGetFd h k" "POLLIN \<in> pfd_events p" "W (h_world g) k (queue_length q \<noteq> 0) (POLLOUT \<in> pfd_events p)"
    and others: "\<And>j. j \<noteq> k \<Longrightarrow> W (h_world g) j = W (h_world h) j"
    and g: "lists_of g = ((h_async h)(k := (h_async h k)\<lparr>as_sendQ := q\<rparr>), h_sockets h, (h_pfds h)[Suc i := p],
      h_pipeTo h, h_alive h)"
  shows "driver_inv W g"
proof -
  note gs = g [unfolded lists_of_def, simplified]
  have fds: "DriverGetFd g = DriverGetFd h" using gs by (auto simp: DriverGetFd_def fun_eq_iff)
  obtain p0 ps where h: "h_pfds h = p0 # ps" "pfd_fd p0 = h_pipeTo h" "pfd_events p0 = {POLLIN}"
      "list_all2 (entry_inv W h) (h_sockets h) ps" "distinct (map (DriverGetFd h) (h_sockets h))"
      "\<forall>k. DriverGetFd h k \<noteq> h_pipeTo h" "h_alive h"
    using ok by (rule invE) blast
  have "list_all2 (entry_inv W g) (h_sockets h) (ps[i := p])"
  proof (rule list_all2_all_nthI)
    show "length (h_sockets h) = length (ps[i := p])" using list_all2_lengthD [OF h(4)] by simp
    fix j assume j: "j < length (h_sockets h)"
    show "entry_inv W g (h_sockets h ! j) (ps[i := p] ! j)"
    proof (cases "j = i")
      case True
      with p i k list_all2_lengthD [OF h(4)] show ?thesis by (simp add: entry_inv_def fds gs)
    next
      case False
      with j i k inv_sockets_distinct [OF ok] have "h_sockets h ! j \<noteq> k" by (simp add: nth_eq_iff_index_eq)
      with False list_all2_nthD [OF h(4) j] others show ?thesis by (simp add: entry_inv_def fds gs)
    qed
  qed
  with gs h fds show ?thesis by (simp add: driver_inv_def)
qed

text \<open>A socket that is not registered may change freely, as long as it stays clear of the pipe.\<close>

lemma inv_unregistered:
  assumes ok: "driver_inv W h" and k: "k \<notin> set (h_sockets h)" and "as_fd a \<noteq> h_pipeTo h"
    and g: "lists_of g = ((h_async h)(k := a), h_sockets h, h_pfds h, h_pipeTo h, h_alive h)"
    and w: "W (h_world g) = W (h_world h)"
  shows "driver_inv W g"
proof -
  note gs = g [unfolded lists_of_def, simplified]
  have eq: "DriverGetFd g j = DriverGetFd h j" "entry_inv W g j = entry_inv W h j" if "j \<in> set (h_sockets h)" for j
    using that k gs w by (auto simp: DriverGetFd_def entry_inv_def fun_eq_iff)
  have "list_all2 (entry_inv W g) (h_sockets h) ps = list_all2 (entry_inv W h) (h_sockets h) ps" for ps
    using eq by (intro list.rel_cong) auto
  moreover have "distinct (map (DriverGetFd g) (h_sockets h)) = distinct (map (DriverGetFd h) (h_sockets h))"
    using eq by (simp cong: map_cong)
  moreover have "DriverGetFd g j \<noteq> h_pipeTo h" for j
    using assms(3) gs ok by (auto simp: DriverGetFd_def elim: invE)
  ultimately show ?thesis using ok gs by (simp add: driver_inv_def split: list.splits)
qed

lemma AsyncUnregister_none:
  assumes "driver_inv W h" and "s \<noteq> h_pipeTo h" and "s \<notin> DriverGetFd h ` set (h_sockets h)"
  shows "AsyncUnregister s h = (Inr (), h)"
proof -
  obtain p ps where h: "h_pfds h = p # ps" "pfd_fd p = h_pipeTo h" "list_all2 (entry_inv W h) (h_sockets h) ps"
    using assms(1) by (auto elim: invE)
  have "erase_found (FdEqual_sock h s) (h_sockets h) = h_sockets h"
    using assms(3) by (intro erase_found_none) (auto simp: FdEqual_sock_def)
  moreover have "erase_found (FdEqual_pfd s) (h_pfds h) = h_pfds h"
  proof (rule erase_found_none)
    fix x assume "x \<in> set (h_pfds h)"
    with h assms(2,3) show "\<not> FdEqual_pfd s x"
      by (fastforce simp: FdEqual_pfd_def entry_inv_def list_all2_conv_all_nth in_set_conv_nth)
  qed
  ultimately show ?thesis by (simp add: AsyncUnregister_def)
qed

lemma AsyncUnregister_at:
  assumes "driver_inv W h" and "i < length (h_sockets h)"
  shows "AsyncUnregister (DriverGetFd h (h_sockets h ! i)) h = (Inr (),
    h\<lparr>h_sockets := take i (h_sockets h) @ drop (Suc i) (h_sockets h),
      h_pfds := take (Suc i) (h_pfds h) @ drop (Suc (Suc i)) (h_pfds h)\<rparr>)"
  using erase_found_at [OF inv_find_sock [OF assms]] erase_found_at [OF inv_find_pfd [OF assms]]
    inv_length [OF assms(1)] assms(2)
  by (simp add: AsyncUnregister_def)

lemma AsyncUnregister_keeps:
  assumes ok: "driver_inv W h" and s: "s \<noteq> h_pipeTo h"
  shows "fst (AsyncUnregister s h) = Inr ()" and "driver_inv W (snd (AsyncUnregister s h))"
    and "s \<notin> DriverGetFd h ` set (h_sockets (snd (AsyncUnregister s h)))"
    and "h_async (snd (AsyncUnregister s h)) = h_async h"
proof -
  have "fst (AsyncUnregister s h) = Inr () \<and> driver_inv W (snd (AsyncUnregister s h)) \<and>
      s \<notin> DriverGetFd h ` set (h_sockets (snd (AsyncUnregister s h))) \<and> h_async (snd (AsyncUnregister s h)) = h_async h"
    (is ?all)
  proof (cases "s \<in> DriverGetFd h ` set (h_sockets h)")
  case True
  then obtain i where i: "i < length (h_sockets h)" and s: "s = DriverGetFd h (h_sockets h ! i)"
    by (auto simp: in_set_conv_nth)
  obtain p ps where h: "h_pfds h = p # ps" "pfd_fd p = h_pipeTo h" "pfd_events p = {POLLIN}"
      "list_all2 (entry_inv W h) (h_sockets h) ps" "distinct (map (DriverGetFd h) (h_sockets h))"
      "\<forall>k. DriverGetFd h k \<noteq> h_pipeTo h" "h_alive h"
    using ok by (rule invE) blast
  let ?g = "h\<lparr>h_sockets := take i (h_sockets h) @ drop (Suc i) (h_sockets h), h_pfds := p # take i ps @ drop (Suc i) ps\<rparr>"
  have g: "AsyncUnregister s h = (Inr (), ?g)" using AsyncUnregister_at [OF ok i] h(1) s by simp
  have eq: "DriverGetFd ?g = DriverGetFd h" "entry_inv W ?g = entry_inv W h"
    by (auto simp: DriverGetFd_def entry_inv_def fun_eq_iff)
  have "list_all2 (entry_inv W h) (take i (h_sockets h) @ drop (Suc i) (h_sockets h)) (take i ps @ drop (Suc i) ps)"
    using h(4) by (intro list_all2_appendI list_all2_takeI list_all2_dropI)
  moreover have parts: "map (DriverGetFd h) (h_sockets h) = map (DriverGetFd h) (take i (h_sockets h))
      @ s # map (DriverGetFd h) (drop (Suc i) (h_sockets h))"
    using id_take_nth_drop [OF i] s by (metis list.simps(9) map_append)
  ultimately show ?all
    using h(2,3,5-7) by (auto simp: g driver_inv_def eq)
next
  case False
  from AsyncUnregister_none [OF ok s False] False ok show ?all by simp
qed
  then show "fst (AsyncUnregister s h) = Inr ()" and "driver_inv W (snd (AsyncUnregister s h))"
    and "s \<notin> DriverGetFd h ` set (h_sockets (snd (AsyncUnregister s h)))"
    and "h_async (snd (AsyncUnregister s h)) = h_async h" by simp_all
qed

lemma AsyncRegister_keeps:
  assumes ok: "driver_inv W h" and "queue_length (as_sendQ (h_async h k)) = 0" and "DriverGetFd h k \<notin> DriverGetFd h ` set (h_sockets h)"
  shows "driver_inv W (snd (AsyncRegister k h))"
proof -
  obtain p ps where h: "h_pfds h = p # ps" "pfd_fd p = h_pipeTo h" "pfd_events p = {POLLIN}"
      "list_all2 (entry_inv W h) (h_sockets h) ps" "distinct (map (DriverGetFd h) (h_sockets h))"
      "\<forall>k. DriverGetFd h k \<noteq> h_pipeTo h" "h_alive h"
    using ok by (rule invE) blast
  let ?g = "snd (AsyncRegister k h)"
  have eq: "DriverGetFd ?g = DriverGetFd h" "entry_inv W ?g = entry_inv W h"
    by (auto simp: DriverGetFd_def entry_inv_def fun_eq_iff AsyncRegister_def)
  have "entry_inv W h k \<lparr>pfd_fd = DriverGetFd h k, pfd_events = {POLLIN}, pfd_revents = {}\<rparr>"
    using assms(2) W_idle by (simp add: entry_inv_def)
  with h(4) have "list_all2 (entry_inv W h) (h_sockets h @ [k]) (ps @ [\<lparr>pfd_fd = DriverGetFd h k, pfd_events = {POLLIN}, pfd_revents = {}\<rparr>])"
    by (intro list_all2_appendI) simp_all
  with h assms(3) show ?thesis unfolding driver_inv_def eq by (simp add: AsyncRegister_def)
qed

lemma AsyncWantSend_none:
  assumes "driver_inv W h" and "s \<noteq> h_pipeTo h" and "s \<notin> DriverGetFd h ` set (h_sockets h)"
  shows "AsyncWantSend s h = (Inl AssertFailed, h)"
proof -
  obtain p ps where h: "h_pfds h = p # ps" "pfd_fd p = h_pipeTo h" "list_all2 (entry_inv W h) (h_sockets h) ps"
    using assms(1) by (auto elim: invE)
  have "find_index (FdEqual_pfd s) (h_pfds h) = length (h_pfds h)"
  proof (rule find_index_none)
    fix x assume "x \<in> set (h_pfds h)"
    with h assms(2,3) show "\<not> FdEqual_pfd s x"
      by (fastforce simp: FdEqual_pfd_def entry_inv_def list_all2_conv_all_nth in_set_conv_nth)
  qed
  then show ?thesis by (simp add: AsyncWantSend_def)
qed

lemma grown_registered:
  assumes ok: "driver_inv W h" and k: "k \<in> set (h_sockets h)"
    and q: "queue_length q = Suc (queue_length (as_sendQ (h_async h k)))"
  shows "queue_length (as_sendQ (h_async h k)) \<noteq> 0 \<Longrightarrow> driver_inv W (grown k q h)"
    and "\<exists>g. AsyncWantSend (DriverGetFd h k) (grown k q h) = (Inr (), g) \<and> driver_inv W g"
proof -
  obtain i where i: "i < length (h_sockets h)" "k = h_sockets h ! i" using k by (metis in_set_conv_nth)
  have e: "entry_inv W h k (h_pfds h ! Suc i)" using inv_entry [OF ok i(1)] i(2) by simp
  show "driver_inv W (grown k q h)" if "queue_length (as_sendQ (h_async h k)) \<noteq> 0"
    by (rule inv_update [OF ok i, where p = "h_pfds h ! Suc i" and q = q])
      (use that e q in \<open>auto simp: entry_inv_def lists_of_def grown_def upd_async_def\<close>)
  let ?p = "add_event POLLOUT (h_pfds h ! Suc i)"
  have "AsyncWantSend (DriverGetFd h k) (grown k q h) = (Inr (), (grown k q h)\<lparr>h_pfds := (h_pfds h)[Suc i := ?p]\<rparr>)"
    using inv_find_pfd [OF ok i(1)] inv_length [OF ok] i
    by (simp add: AsyncWantSend_def grown_def upd_async_def)
  moreover have "driver_inv W ((grown k q h)\<lparr>h_pfds := (h_pfds h)[Suc i := ?p]\<rparr>)"
    by (rule inv_update [OF ok i, where p = ?p and q = q])
      (use e q W_want in \<open>auto simp: entry_inv_def add_event_def lists_of_def grown_def upd_async_def\<close>)
  ultimately show "\<exists>g. AsyncWantSend (DriverGetFd h k) (grown k q h) = (Inr (), g) \<and> driver_inv W g" by blast
qed

lemma grown_unregistered:
  assumes ok: "driver_inv W h" and k: "DriverGetFd h k \<notin> DriverGetFd h ` set (h_sockets h)"
  shows "driver_inv W (grown k q h)"
    and "AsyncWantSend (DriverGetFd h k) (grown k q h) = (Inl AssertFailed, grown k q h)"
proof -
  have pipe: "DriverGetFd h k \<noteq> h_pipeTo h" using ok by (rule invE)
  show okg: "driver_inv W (grown k q h)"
    by (rule inv_unregistered [OF ok, of k "(h_async h k)\<lparr>as_sendQ := q\<rparr>"])
      (use k pipe in \<open>auto simp: lists_of_def grown_def upd_async_def DriverGetFd_def\<close>)
  show "AsyncWantSend (DriverGetFd h k) (grown k q h) = (Inl AssertFailed, grown k q h)"
    by (rule AsyncWantSend_none [OF okg]) (use k pipe in simp_all)
qed

lemma DoSend_keeps:
  assumes enq: "\<And>p. enqueues k (enq p)" and ok: "driver_inv W h"
    and k: "k \<in> set (h_sockets h) \<or> DriverGetFd h k \<notin> DriverGetFd h ` set (h_sockets h)"
  shows "driver_inv W (snd (DoSend k enq h))"
proof -
  let ?g = "snd (new_promise h)"
  have np: "new_promise h = (Inr (h_next_promise h), ?g)" by (simp add: new_promise_def)
  have lo: "lists_of ?g = lists_of h" and okg: "driver_inv W ?g"
    using inv_cong [OF new_promise_same(2), of h] ok by simp_all
  have same: "h_sockets ?g = h_sockets h" "DriverGetFd ?g = DriverGetFd h"
    using lo by (auto simp: lists_of_def DriverGetFd_def fun_eq_iff)
  obtain r g where m: "enq (h_next_promise h) ?g = (r, g)" by fastforce
  show ?thesis
  proof (cases r)
    case (Inl e)
    with m enq have "g = ?g" by (fastforce simp: enqueues_def)
    with okg have "driver_inv W g" by simp
    with Inl m np show ?thesis by (simp add: DoSend_def)
  next
    case (Inr wasEmpty)
    then obtain q where g: "g = grown k q ?g" and q: "queue_length q = Suc (queue_length (as_sendQ (h_async ?g k)))"
      and we: "wasEmpty = (queue_length (as_sendQ (h_async ?g k)) = 0)"
      using m enq by (fastforce simp: enqueues_def grown_def)
    have m: "enq (h_next_promise h) ?g = (Inr wasEmpty, grown k q ?g)" using m Inr g by simp
    note run = DoSend_run [where enq = enq, OF inv_alive [OF ok] lo np]
    show ?thesis
    proof (cases "k \<in> set (h_sockets h)")
      case True
      with grown_registered [OF okg _ q] we same run [OF m] show ?thesis by (auto split: prod.splits)
    next
      case False
      with k grown_unregistered [OF okg, of k q] same run [OF m] show ?thesis by auto
    qed
  qed
qed

text \<open>Sending on a registered socket succeeds: the queue grows at its end, and the entry of the socket may change.\<close>

lemma DoSend_registered:
  assumes ok: "driver_inv W h" and k: "k \<in> set (h_sockets h)" and q: "queue_length q = Suc (queue_length (as_sendQ (h_async h k)))"
    and enq: "enq (h_next_promise h) (snd (new_promise h)) =
      (Inr (queue_length (as_sendQ (h_async h k)) = 0), grown k q (snd (new_promise h)))"
  shows "\<exists>ps. DoSend k enq h = (Inr (h_next_promise h), (grown k q (snd (new_promise h)))\<lparr>h_pfds := ps\<rparr>)
    \<and> driver_inv W ((grown k q (snd (new_promise h)))\<lparr>h_pfds := ps\<rparr>)"
proof -
  let ?g = "snd (new_promise h)"
  have np: "new_promise h = (Inr (h_next_promise h), ?g)" by (simp add: new_promise_def)
  have lo: "lists_of ?g = lists_of h" and okg: "driver_inv W ?g"
    using inv_cong [OF new_promise_same(2), of h] ok by simp_all
  have same: "h_sockets ?g = h_sockets h" "h_async ?g = h_async h"
    using lo by (auto simp: lists_of_def)
  note run = DoSend_run [where enq = enq, OF inv_alive [OF ok] lo np enq]
  note okq = grown_registered [OF okg, of k q, unfolded same, OF k q]
  show ?thesis
  proof (cases "queue_length (as_sendQ (h_async h k)) = 0")
    case True
    obtain t where t: "AsyncWantSend (DriverGetFd ?g k) (grown k q ?g) = (Inr (), t)" "driver_inv W t" using okq(2) by blast
    have "t = (grown k q ?g)\<lparr>h_pfds := h_pfds t\<rparr>"
      using t(1) by (auto simp: AsyncWantSend_def Let_def split: if_splits)
    with t True run show ?thesis by (intro exI [of _ "h_pfds t"]) simp
  next
    case False
    with okq(1) run show ?thesis by (intro exI [of _ "h_pfds (grown k q ?g)"]) simp
  qed
qed

lemma Send_registered:
  assumes "driver_inv W h" and "k \<in> set (h_sockets h)" and "as_sendQ (h_async h k) = SendQ q"
  defines "g b \<equiv> grown k (SendQ (q @ [(h_next_promise h, b)])) (snd (new_promise h))"
  shows "\<exists>ps. Send k b h = (Inr (h_next_promise h), (g b)\<lparr>h_pfds := ps\<rparr>) \<and> driver_inv W ((g b)\<lparr>h_pfds := ps\<rparr>)"
  unfolding Send_def g_def by (rule DoSend_registered)
    (use assms in \<open>simp_all add: DoSendEnqueue_def grown_def new_promise_def set_promise_def upd_async_def\<close>)

lemma SendTo_registered:
  assumes "driver_inv W h" and "k \<in> set (h_sockets h)" and "as_sendQ (h_async h k) = SendToQ q"
  defines "g b a \<equiv> grown k (SendToQ (q @ [(h_next_promise h, b, a)])) (snd (new_promise h))"
  shows "\<exists>ps. Async_SendTo k b a h = (Inr (h_next_promise h), (g b a)\<lparr>h_pfds := ps\<rparr>) \<and> driver_inv W ((g b a)\<lparr>h_pfds := ps\<rparr>)"
  unfolding Async_SendTo_def g_def by (rule DoSend_registered)
    (use assms in \<open>simp_all add: DoSendEnqueue_to_def grown_def new_promise_def set_promise_def upd_async_def\<close>)

text \<open>Sending on a socket that is no longer registered fails the assertion in \<^verbatim>\<open>AsyncWantSend\<close>.\<close>

lemma Send_unregistered:
  assumes ok: "driver_inv W h" and k: "DriverGetFd h k \<notin> DriverGetFd h ` set (h_sockets h)"
    and q: "as_sendQ (h_async h k) = SendQ []"
  shows "fst (Send k b h) = Inl AssertFailed"
proof -
  let ?g = "snd (new_promise h)"
  have np: "new_promise h = (Inr (h_next_promise h), ?g)" by (simp add: new_promise_def)
  have lo: "lists_of ?g = lists_of h" and okg: "driver_inv W ?g"
    using inv_cong [OF new_promise_same(2), of h] ok by simp_all
  have same: "h_sockets ?g = h_sockets h" "DriverGetFd ?g = DriverGetFd h" "h_async ?g = h_async h"
    using lo by (auto simp: lists_of_def DriverGetFd_def fun_eq_iff)
  have "DoSendEnqueue k (h_next_promise h) b ?g = (Inr True, grown k (SendQ [(h_next_promise h, b)]) ?g)"
    using q same by (simp add: DoSendEnqueue_def grown_def upd_async_def)
  from DoSend_run [where enq = "\<lambda>p. DoSendEnqueue k p b", OF inv_alive [OF ok] lo np this] grown_unregistered(2) [OF okg] k same
  show ?thesis by (simp add: Send_def)
qed

lemma DoOneSocketTask_find:
  assumes "driver_inv W h"
  shows "DoOneSocketTask env h =
    (case find (\<lambda>(n, k). reports (h_pfds h ! n)) (enumerate 1 (h_sockets h)) of
       None \<Rightarrow> (Inl (LogicError ''unhandled poll event''), h)
     | Some (n, k) \<Rightarrow> serve env n k (h_pfds h ! n) h)"
proof -
  have "DoOneSocketTask env h = DoOneSocketTask_loop env 0 (h_sockets h) h"
    using inv_length [OF assms] by (simp add: DoOneSocketTask_def andthen_def)
  with DoOneSocketTask_loop_find [of "h_sockets h" h 0 env] inv_fd [OF assms] show ?thesis by simp
qed

end

text \<open>Sockets that are polled for writing exactly while something is queued.\<close>

interpretation exact: polling exactly
  rewrites "driver_inv exactly = driver_ok" and "entry_inv exactly = entry_ok"
  by unfold_locales (simp_all add: exactly_def driver_inv_exactly entry_inv_exactly)

lemma exactly_same [simp]: "exactly w = exactly w'"
  by (simp add: fun_eq_iff exactly_def)

lemma driver_ok_cong: "lists_of (g :: 'w heap) = lists_of (h :: 'w heap) \<Longrightarrow> driver_ok g = driver_ok h"
  by (rule exact.inv_cong) (simp add: watched_def)

lemmas driver_okE = exact.invE
lemmas driver_okE_alive = exact.inv_alive
lemmas driver_ok_length = exact.inv_length
lemmas driver_ok_entry = exact.inv_entry
lemmas driver_ok_fd = exact.inv_fd
lemmas driver_ok_find_pfd = exact.inv_find_pfd

lemma driver_ok_simps [simp]:
  "driver_ok (h\<lparr>h_world := w\<rparr>) = driver_ok h"
  "driver_ok (h\<lparr>h_todos := t\<rparr>) = driver_ok h"
  "driver_ok (h\<lparr>h_shouldStop := stop\<rparr>) = driver_ok h"
  "driver_ok (buf_drop b h) = driver_ok h"
  by (rule driver_ok_cong; simp)+

end
