(* ===== verification/DriverKeeps.thy ===== *)
theory DriverKeeps
  imports DriverLists
begin

text \<open>
  The driver runs sockets of different kinds through their table of functions.  What the driver needs of them
  to keep its lists aligned with its sockets, and that every operation of the driver does so under these laws.
\<close>

section \<open>The sockets a driver runs\<close>

text \<open>
  No operation of a socket but the query of the driver may change what matters of its events; a query may adapt
  the events and its own notes together.
\<close>

locale driven = polling W + calm_system W "e_os env" "e_nd env" for W and env :: "'w env" +
  assumes send_some: "leaves W (v_SendSome (e_vt env k) s data)"
    and receive: "leaves W (v_Receive (e_vt env k) s n)"
    and accept: "leaves W (v_Accept (e_vt env k) s)"
    and pending: "leaves W (v_DriverPending (e_vt env k) s)"
    and gone: "W (v_destroy (e_vt env k) s w) = W w"
    and query_others: "v_DriverQuery (e_vt env k) s ev w = (r, w') \<Longrightarrow> j \<noteq> k \<Longrightarrow> W w' j = W w j"
    and query_error: "v_DriverQuery (e_vt env k) s ev w = (Inl e, w') \<Longrightarrow> W w' k = W w k"
    and query: "v_DriverQuery (e_vt env k) s ev w = (Inr ev', w') \<Longrightarrow> POLLIN \<in> ev \<Longrightarrow> W w k queued (POLLOUT \<in> ev)
      \<Longrightarrow> POLLIN \<in> ev' \<and> W w' k queued (POLLOUT \<in> ev')"
begin

lemma leaves_try_send: "leaves (watched W) (try_send env k promise b)"
  unfolding try_send_def by (intro leaves_intros send_some) simp_all

lemma leaves_try_send_to: "leaves (watched W) (try_send_to env k promise b a)"
  unfolding try_send_to_def by (intro leaves_intros sends) simp_all

text \<open>
  One writable event: the front of the queue goes, or stays, or the queue was empty; the result says whether the
  queue is empty now.
\<close>

lemma DriverOnWritable_cases:
  assumes run: "DriverOnWritable env k h = (r, g)"
  obtains (kept) "watched W g = watched W h" and "\<And>b. r = Inr b \<Longrightarrow> \<not> b \<and> queue_length (as_sendQ (h_async h k)) \<noteq> 0"
    | (idle) "watched W g = watched W h" and "r = Inr True" and "queue_length (as_sendQ (h_async h k)) = 0"
      and "fst (v_DriverPending (e_vt env k) (DriverGetFd h k) (h_world h)) = Inr ()"
    | (popped) b where "watched W g = watched W (upd_async k (\<lambda>a. a\<lparr>as_sendQ := send_queue_tl (as_sendQ a)\<rparr>) h)"
      and "r = Inr b" and "queue_length (as_sendQ (h_async h k)) \<noteq> 0"
      and "b = (queue_length (as_sendQ (h_async h k)) = 1)"
proof -
  have pop: "watched W (pop_SendQ k b t) = watched W (upd_async k (\<lambda>a. a\<lparr>as_sendQ := send_queue_tl (as_sendQ a)\<rparr>) h)"
    if "watched W t = watched W h" for b t
    using that unfolding watched_pop by (simp add: watched_def lists_of_def upd_async_def)
  show thesis
  proof (cases "as_sendQ (h_async h k)")
    case (SendQ q)
    then have run: "DriverSend env k q h = (r, g)" using run by (simp add: DriverOnWritable_def)
    show thesis
    proof (cases q)
      case Nil
      let ?m = "heap_world (v_DriverPending (e_vt env k) (DriverGetFd h k)) :: ('w heap, unit) exec"
      obtain s t where m: "?m h = (s, t)" by fastforce
      have lo: "watched W t = watched W h" by (rule leavesD [OF leaves_watched_world [OF pending] m])
      show thesis
      proof (cases s)
        case (Inl e)
        with run m Nil have "r = Inl e" "g = t" by (simp_all add: DriverSend_def)
        with lo kept show thesis by simp
      next
        case (Inr u)
        with run m Nil have "r = Inr True" "g = t" by (simp_all add: DriverSend_def)
        moreover have "fst (v_DriverPending (e_vt env k) (DriverGetFd h k) (h_world h)) = Inr ()"
          using m Inr by (simp add: heap_world_def)
        ultimately show thesis using lo idle Nil SendQ by simp
      qed
    next
      case (Cons x rest)
      obtain promise b where x: "x = (promise, b)" by fastforce
      obtain s t where t: "try_send env k promise b h = (s, t)" by fastforce
      have lo: "watched W t = watched W h" using leavesD [OF leaves_try_send t] .
      consider e where "s = Inl e" | "s = Inr False" | "s = Inr True" by (cases s) auto
      then show thesis
      proof cases
        case 3
        with run t x Cons have "g = pop_SendQ k b t" "r = Inr (length q = 1)" by (auto simp: DriverSend_def)
        with popped pop [OF lo] Cons SendQ show thesis by simp
      next
        case 2
        with run t x Cons have "g = t" "r = Inr False" by (auto simp: DriverSend_def andthen_def)
        with kept lo Cons SendQ show thesis by simp
      next
        case 1
        with run t x Cons have "g = t" "r = Inl e" by (auto simp: DriverSend_def)
        with kept lo show thesis by simp
      qed
    qed
  next
    case (SendToQ q)
    then have run: "DriverSendTo env k q h = (r, g)" using run by (simp add: DriverOnWritable_def)
    show thesis
    proof (cases q)
      case Nil
      with run kept show thesis by (auto simp: DriverSendTo_def)
    next
      case (Cons x rest)
      obtain promise b a where x: "x = (promise, b, a)" by (metis prod_cases3)
      obtain s t where t: "try_send_to env k promise b a h = (s, t)" by fastforce
      have lo: "watched W t = watched W h" using leavesD [OF leaves_try_send_to t] .
      show thesis
      proof (cases s)
        case (Inr u)
        with run t x Cons have "g = pop_SendQ k b t" "r = Inr (length q = 1)" by (auto simp: DriverSendTo_def)
        with popped pop [OF lo] Cons SendToQ show thesis by simp
      qed (use run t x Cons lo kept in \<open>auto simp: DriverSendTo_def\<close>)
    qed
  qed
qed

end

section \<open>Serving sockets\<close>

context driven begin

lemma serve_writable_keeps:
  assumes ok: "driver_inv W h" and i: "i < length (h_sockets h)"
  shows "driver_inv W (snd (serve_writable env (Suc i) (h_sockets h ! i) h))"
proof -
  let ?k = "h_sockets h ! i" and ?clear = "\<lambda>g :: 'w heap. g\<lparr>h_pfds := (h_pfds g)[Suc i := remove_event POLLOUT (h_pfds g ! Suc i)]\<rparr>"
  have e: "entry_inv W h ?k (h_pfds h ! Suc i)" using inv_entry [OF ok i] .
  have len: "Suc i < length (h_pfds h)" using inv_length [OF ok] i by simp
  obtain r g where run: "DriverOnWritable env ?k h = (r, g)" by fastforce
  then show ?thesis
  proof (cases rule: DriverOnWritable_cases)
    case kept
    with ok have "driver_inv W g" by (metis inv_cong)
    with kept(2) run show ?thesis by (cases r) (auto simp: serve_writable_def)
  next
    case idle
    note gs = idle(1) [unfolded watched_def lists_of_def, simplified]
    have "driver_inv W (?clear g)"
      by (rule inv_update [OF ok i refl, where p = "remove_event POLLOUT (h_pfds h ! Suc i)" and q = "as_sendQ (h_async h ?k)"])
        (use e gs idle(3) W_idle in \<open>auto simp: entry_inv_def remove_event_def lists_of_def\<close>)
    with run idle(2) show ?thesis by (simp add: serve_writable_def)
  next
    case (popped b)
    let ?q = "send_queue_tl (as_sendQ (h_async h ?k))"
    note gs = popped(1) [unfolded watched_def lists_of_def upd_async_def, simplified]
    show ?thesis
    proof (cases b)
      case True
      have "driver_inv W (?clear g)"
        by (rule inv_update [OF ok i refl, where p = "remove_event POLLOUT (h_pfds h ! Suc i)" and q = ?q])
          (use e gs popped(4) True W_idle in \<open>auto simp: entry_inv_def remove_event_def lists_of_def\<close>)
      with True run popped(2) show ?thesis by (simp add: serve_writable_def)
    next
      case False
      have "driver_inv W g"
        by (rule inv_update [OF ok i refl, where p = "h_pfds h ! Suc i" and q = ?q])
          (use e gs popped(3,4) False len in \<open>auto simp: entry_inv_def lists_of_def list_update_id\<close>)
      with False run popped(2) show ?thesis by (simp add: serve_writable_def)
    qed
  qed
qed

lemma keeps_lists [keeps_intros]:
  "leaves W m \<Longrightarrow> keeps (driver_inv W) (heap_world m)" "leaves (\<lambda>s. W (bw_world s)) n \<Longrightarrow> keeps (driver_inv W) (heap_buffered p n)"
  "keeps (driver_inv W) (lift_sum r)"
  by (intro leaves_watched_keeps leaves_intros; assumption?)+

lemma DriverDisconnect_keeps:
  assumes "user_keeps (driver_inv W) (e_user env)"
  shows "keeps (driver_inv W) (DriverDisconnect env k a m)"
proof (rule keepsI)
  fix h r t assume ok: "driver_inv W h" and run: "DriverDisconnect env k a m h = (r, t)"
  have s: "DriverGetFd h k \<noteq> h_pipeTo h" using ok by (rule invE)
  obtain g where g: "AsyncUnregister (DriverGetFd h k) h = (Inr (), g)" "driver_inv W g"
    using AsyncUnregister_keeps(1,2) [OF ok s] by (metis prod.collapse)
  with run inv_alive [OF ok] have "u_disconnect (e_user env) k a m g = (r, t)"
    by (simp add: DriverDisconnect_def andthen_def)
  with g(2) user_keepsD(5) [OF assms] show "driver_inv W t" by (metis keepsD)
qed

lemma DriverOnError_keeps:
  "user_keeps (driver_inv W) (e_user env) \<Longrightarrow> keeps (driver_inv W) (DriverOnError env k m)"
  unfolding DriverOnError_def
  by (intro keeps_intros) (auto split: role.split intro: DriverDisconnect_keeps)

lemma buffered_receives:
  "leaves (\<lambda>s. W (bw_world s)) (Buffered_Receive (e_vt env k) s n)"
  "leaves (\<lambda>s. W (bw_world s)) (Buffered_ReceiveFrom (e_os env) (e_nd env) s n)"
proof -
  have in_pool: "leaves (\<lambda>s :: 'w buffered. W (bw_world s)) (in_pool m)" for m :: "(pool, 'x) exec"
    by (simp add: leaves_def)
  have in_world: "leaves (\<lambda>s :: 'w buffered. W (bw_world s)) (in_world m)" if "leaves W m" for m :: "('w, 'y) exec"
    using that by (simp add: leaves_def)
  have drop: "W (bw_world (drop_buffer b s)) = W (bw_world s)" for b and s :: "'w buffered"
    by (simp add: drop_buffer_def)
  show "leaves (\<lambda>s. W (bw_world s)) (Buffered_Receive (e_vt env k) s n)"
    unfolding Buffered_Receive_def GetBuffer_def fill_buffer_def case_prod_beta
    by (intro leaves_intros in_pool in_world receive drop)
  show "leaves (\<lambda>s. W (bw_world s)) (Buffered_ReceiveFrom (e_os env) (e_nd env) s n)"
    unfolding Buffered_ReceiveFrom_def GetBuffer_def fill_buffer_def case_prod_beta
    by (intro leaves_intros in_pool in_world receives drop)
qed

lemma DriverOnReadable_keeps:
  assumes u: "user_keeps (driver_inv W) (e_user env)"
  shows "keeps (driver_inv W) (DriverOnReadable env k)"
proof -
  have c: "keeps (driver_inv W) (catch_runtime env k m)" if "keeps (driver_inv W) m" for m
    unfolding catch_runtime_def using that by (intro keeps_intros DriverOnError_keeps u)
  note parts = user_keepsD [OF u] buffered_receives accept owned connections(1)
  have "keeps (driver_inv W) (DriverConnect env k)" "keeps (driver_inv W) (DriverReceive env k)" "keeps (driver_inv W) (DriverReceiveFrom env k)"
    unfolding DriverConnect_def DriverReceive_def DriverReceiveFrom_def Let_def
    by (intro c keeps_intros parts; auto split: prod.splits intro!: keeps_intros parts)+
  then show ?thesis unfolding DriverOnReadable_def by (intro keeps_intros) (auto split: role.split)
qed

lemma DoOneSocketTask_keeps:
  assumes u: "user_keeps (driver_inv W) (e_user env)"
  shows "keeps (driver_inv W) (DoOneSocketTask env)"
proof (rule keepsI)
  fix h r t assume ok: "driver_inv W h" and run: "DoOneSocketTask env h = (r, t)"
  show "driver_inv W t"
  proof (cases "find (\<lambda>(n, k). reports (h_pfds h ! n)) (enumerate 1 (h_sockets h))")
    case None
    with run ok show ?thesis by (simp add: DoOneSocketTask_find)
  next
    case (Some x)
    then obtain i where i: "i < length (h_sockets h)" and x: "x = (Suc i, h_sockets h ! i)"
      by (auto simp: find_Some_iff nth_enumerate_eq)
    have "serve env (Suc i) (h_sockets h ! i) (h_pfds h ! Suc i) h = (r, t)"
      using run Some x ok by (simp add: DoOneSocketTask_find)
    then show ?thesis
      using serve_writable_keeps [OF ok i] DriverOnReadable_keeps [OF u] DriverOnError_keeps [OF u] ok
      by (auto simp: serve_def keeps_def split: if_splits) (metis snd_conv)+
  qed
qed

end

section \<open>Steps\<close>

definition same_polls :: "pollfd list \<Rightarrow> pollfd list \<Rightarrow> bool" where
  "same_polls ps qs \<longleftrightarrow> map (\<lambda>p. (pfd_fd p, pfd_events p)) ps = map (\<lambda>p. (pfd_fd p, pfd_events p)) qs"

lemma same_polls_nth:
  assumes "same_polls ps qs"
  shows "length ps = length qs" and "i < length qs \<Longrightarrow> pfd_fd (ps ! i) = pfd_fd (qs ! i) \<and> pfd_events (ps ! i) = pfd_events (qs ! i)"
proof -
  show l: "length ps = length qs" using assms unfolding same_polls_def by (metis length_map)
  show "pfd_fd (ps ! i) = pfd_fd (qs ! i) \<and> pfd_events (ps ! i) = pfd_events (qs ! i)" if "i < length qs"
    using arg_cong [OF assms [unfolded same_polls_def], of "\<lambda>xs. xs ! i"] l that by simp
qed

lemma wait_sockets_polls:
  assumes "poll_only_revents (e_os env)" and "wait_sockets env timeout h = (r, g)"
  shows "\<exists>w ps. g = h\<lparr>h_world := w, h_pfds := ps\<rparr> \<and> same_polls ps (h_pfds h)"
proof -
  obtain n ps w where p: "sys_poll (e_os env) (h_pfds h) (ToMsec timeout) (h_world h) = ((n, ps), w)" by (metis prod.collapse)
  from assms(1) p have same: "same_polls ps (h_pfds h)"
    unfolding poll_only_revents_def same_polls_def by (metis fst_conv snd_conv)
  have "g = (if n < 0 then h\<lparr>h_world := w\<rparr> else h\<lparr>h_world := w, h_pfds := ps\<rparr>)"
    using assms(2) p by (auto simp: wait_sockets_def heap_world_def Wait_def DoPoll_def andthen_def split: if_splits)
  then have "g = h\<lparr>h_world := w, h_pfds := (if n < 0 then h_pfds h else ps)\<rparr>" by simp
  with same show ?thesis by (intro exI [of _ w] exI [of _ "if n < 0 then h_pfds h else ps"]) (simp add: same_polls_def)
qed

text \<open>
  What a step keeps: an invariant that neither the tasks nor the clock touch is kept by whole steps when every step of the
  sockets keeps it, and the user's code.
\<close>

locale stepping =
  fixes I :: "'w heap \<Rightarrow> bool" and env :: "'w env"
  assumes about_todos: "I (h\<lparr>h_todos := t\<rparr>) = I h"
    and about_stop: "I (h\<lparr>h_shouldStop := stop\<rparr>) = I h"
    and clock: "I h \<Longrightarrow> I (h\<lparr>h_world := snd (sys_now (e_os env) (h_world h))\<rparr>)"
    and sockets: "user_keeps I (e_user env) \<Longrightarrow> poll_only_revents (e_os env) \<Longrightarrow> keeps I (StepSockets env timeout)"
begin

lemma clocks_keep:
  assumes "I h"
  shows "I (h\<lparr>h_world := snd (Clocked (e_os env) (h_world h))\<rparr>)" "I (h\<lparr>h_world := snd (DeadlineLimited (e_os env) d (h_world h))\<rparr>)"
    "I (h\<lparr>h_world := snd (Clocked_Tick (e_os env) c (h_world h))\<rparr>)"
  using clock [OF assms] by (simp_all add: Clocked_def DeadlineLimited_def Clocked_Tick_def case_prod_unfold Let_def)

lemma StepTodos_keeps:
  assumes "user_keeps I (e_user env)" and tick: "\<And>d h. I h \<Longrightarrow> I (h\<lparr>h_world := snd (p_tick p d (h_world h))\<rparr>)"
    and "StepTodos env p n d h = Some (r, g)" and "I h"
  shows "I g"
  using assms(3,4)
proof (induction n arbitrary: d h)
  case (Suc n)
  show ?case
  proof (cases "pending (h_todos h)")
    case Nil
    with Suc.prems show ?thesis by simp
  next
    case (Cons front rest)
    obtain s t where t: "u_task (e_user env) front (h\<lparr>h_todos := ToDos_pop_front (h_todos h)\<rparr>) = (s, t)" by fastforce
    have okt: "I t" using keepsD [OF user_keepsD(1) [OF assms(1)] t] Suc.prems(2) about_todos by simp
    obtain e w where e: "p_tick p d (h_world t) = (e, w)" by fastforce
    have "I (t\<lparr>h_world := w\<rparr>)" using tick [OF okt, of d] e by simp
    then show ?thesis using Suc.prems Cons t e okt Suc.IH
      by (auto simp: Let_def split: if_splits sum.splits)
  qed
qed simp

lemma step_todos_keeps:
  assumes user: "user_keeps I (e_user env)" and ok: "I h" and run: "step_todos env fuel timeout h = Some (r, g)"
  shows "I g"
proof -
  note parts = StepTodos_keeps [OF user, where p = "policy_unlimited (e_os env)"] StepTodos_keeps [OF user, where p = "policy_zero (e_os env)"]
    StepTodos_keeps [OF user, where p = "policy_limited (e_os env)"]
  have tick: "I (h\<lparr>h_world := snd (p_tick (policy_unlimited (e_os env)) d (h_world h))\<rparr>)"
    "I (h\<lparr>h_world := snd (p_tick (policy_zero (e_os env)) d (h_world h))\<rparr>)"
    "I (h\<lparr>h_world := snd (p_tick (policy_limited (e_os env)) d' (h_world h))\<rparr>)" if "I h" for d d' h
    using clocks_keep(3) [OF that] by (simp_all add: policy_unlimited_def policy_zero_def policy_limited_def)
  show ?thesis using run clocks_keep(1,2) [OF ok] parts(1) [OF tick(1)] parts(2) [OF tick(2)] parts(3) [OF tick(3)]
    by (auto simp: step_todos_def Let_def case_prod_unfold split: if_splits)
qed

lemma Step_keeps:
  assumes "user_keeps I (e_user env)" "poll_only_revents (e_os env)" and "I h" and "Step env fuel timeout h = Some (r, g)"
  shows "I g"
proof -
  have todos: "I t" if "step_todos env fuel timeout h = Some (s, t)" for s t
    by (rule step_todos_keeps [OF assms(1,3) that])
  have socks: "I t" if "StepSockets env d u = (s, t)" "I u" for d u s t
    using keepsD [OF sockets [OF assms(1,2)]] that by blast
  show ?thesis using assms(3,4) todos socks
    by (auto simp: Step_def split: if_splits option.splits sum.splits)
qed

lemma Run_keeps:
  assumes "user_keeps I (e_user env)" "poll_only_revents (e_os env)" and "I h" and "Run env fuel n h = Some (r, g)"
  shows "I g"
proof -
  have "I h \<Longrightarrow> Run_loop env fuel n h = Some (r, g) \<Longrightarrow> I g" for h
  proof (induction n arbitrary: h)
    case (Suc n)
    show ?case
    proof (cases "h_shouldStop h")
      case False
      with Suc.prems(2) obtain s t where t: "Step env fuel (-1) h = Some (s, t)" by (auto split: option.splits)
      have "I t" by (rule Step_keeps [OF assms(1,2) Suc.prems(1) t])
      with Suc False t show ?thesis by (auto split: sum.splits)
    qed (use Suc.prems in simp)
  qed (auto split: if_splits)
  moreover have "I (h\<lparr>h_shouldStop := False\<rparr>)" using assms(3) about_stop by simp
  ultimately show ?thesis using assms(4) unfolding Run_def by blast
qed

end

section \<open>Reachable drivers\<close>

text \<open>
  The states of a driver between two calls: it is made, sockets are made, send and are destroyed, tasks are
  scheduled, and the driver runs.  A new socket has a descriptor of its own.
\<close>

definition fresh :: "'w heap \<Rightarrow> sock_id \<Rightarrow> fd \<Rightarrow> bool" where
  "fresh h k s \<longleftrightarrow> k \<notin> set (h_sockets h) \<and> s \<noteq> h_pipeTo h \<and> s \<notin> DriverGetFd h ` set (h_sockets h)"

definition sends_clearly :: "'w heap \<Rightarrow> sock_id \<Rightarrow> bool" where
  "sends_clearly h k \<longleftrightarrow> k \<in> set (h_sockets h) \<or> DriverGetFd h k \<notin> DriverGetFd h ` set (h_sockets h)"

inductive driver_reach :: "'w env \<Rightarrow> 'w heap \<Rightarrow> bool" for env where
  make: "pipe_To p \<noteq> fdInvalid \<Longrightarrow> driver_reach env (new_heap p w)"
| udp: "driver_reach env h \<Longrightarrow> fresh h k s \<Longrightarrow> driver_reach env (snd (SocketUdpAsync k s n pool h))"
| tcp: "driver_reach env h \<Longrightarrow> fresh h k s \<Longrightarrow> driver_reach env (snd (SocketTcpAsync env k s n pool h))"
| acceptor: "driver_reach env h \<Longrightarrow> fresh h k s \<Longrightarrow> driver_reach env (snd (SocketAcceptorAsync env k s pool h))"
| send: "driver_reach env h \<Longrightarrow> sends_clearly h k \<Longrightarrow> driver_reach env (snd (Send k b h))"
| send_to: "driver_reach env h \<Longrightarrow> sends_clearly h k \<Longrightarrow> driver_reach env (snd (Async_SendTo k b a h))"
| destroy: "driver_reach env h \<Longrightarrow> driver_reach env (snd (SocketAsyncImpl_destroy env k h))"
| todo: "driver_reach env h \<Longrightarrow> driver_reach env (snd (Driver_ToDoInsert t h))"
| unscheduled: "driver_reach env h \<Longrightarrow> driver_reach env (snd (Driver_ToDoRemove t h))"
| shifted: "driver_reach env h \<Longrightarrow> driver_reach env (snd (Driver_ToDoMove t w h))"
| stop: "driver_reach env h \<Longrightarrow> driver_reach env (snd (Stop env h))"
| step: "driver_reach env h \<Longrightarrow> Step env fuel timeout h = Some (r, g) \<Longrightarrow> driver_reach env g"
| run: "driver_reach env h \<Longrightarrow> Run env fuel n h = Some (r, g) \<Longrightarrow> driver_reach env g"

context driven begin

lemma inv_same_polls:
  assumes ok: "driver_inv W h" and same: "same_polls ps (h_pfds h)"
  shows "driver_inv W (h\<lparr>h_pfds := ps\<rparr>)"
proof -
  obtain p qs where h: "h_pfds h = p # qs" "pfd_fd p = h_pipeTo h" "pfd_events p = {POLLIN}"
      "list_all2 (entry_inv W h) (h_sockets h) qs" "distinct (map (DriverGetFd h) (h_sockets h))"
      "\<forall>k. DriverGetFd h k \<noteq> h_pipeTo h" "h_alive h"
    using ok by (rule invE) blast
  let ?g = "h\<lparr>h_pfds := ps\<rparr>"
  have eq: "DriverGetFd ?g = DriverGetFd h" "entry_inv W ?g = entry_inv W h"
    by (auto simp: DriverGetFd_def entry_inv_def fun_eq_iff)
  obtain p' qs' where ps: "ps = p' # qs'" using same h(1) by (cases ps) (auto simp: same_polls_def)
  have same': "same_polls qs' qs" "pfd_fd p' = pfd_fd p" "pfd_events p' = pfd_events p"
    using same ps h(1) by (auto simp: same_polls_def)
  have "list_all2 (entry_inv W h) (h_sockets h) qs'"
    using same_polls_nth [OF same'(1)] h(4) by (auto simp: list_all2_conv_all_nth entry_inv_def)
  with h ps same' show ?thesis unfolding driver_inv_def eq by simp
qed

lemma wait_sockets_keeps: "poll_only_revents (e_os env) \<Longrightarrow> keeps (driver_inv W) (wait_sockets env timeout)"
proof (rule keepsI)
  fix h r t assume os: "poll_only_revents (e_os env)" and ok: "driver_inv W h" and run: "wait_sockets env timeout h = (r, t)"
  obtain w ps where t: "t = h\<lparr>h_world := w, h_pfds := ps\<rparr>" and same: "same_polls ps (h_pfds h)"
    using wait_sockets_polls [OF os run] by blast
  have "leaves (\<lambda>h. W (h_world h)) (wait_sockets env timeout)"
    unfolding wait_sockets_def case_prod_beta by (intro leaves_intros) (use waits(4) in \<open>simp_all add: leaves_def heap_world_def\<close>)
  then have w: "W (h_world t) = W (h_world h)" using run leavesD by fast
  have "driver_inv W (h\<lparr>h_pfds := ps\<rparr>)" by (rule inv_same_polls [OF ok same])
  moreover have "watched W t = watched W (h\<lparr>h_pfds := ps\<rparr>)" using w by (simp add: t watched_def lists_of_def)
  ultimately show "driver_inv W t" using inv_cong by blast
qed

lemma DriverQuery_keeps:
  assumes ok: "driver_inv W h" and i: "i < length (h_sockets h)" and run: "DriverQuery env (h_sockets h ! i) (pfd_events (h_pfds h ! Suc i)) h = (r, g)"
  shows "r = Inl e \<Longrightarrow> driver_inv W g"
    and "r = Inr ev \<Longrightarrow> driver_inv W (g\<lparr>h_pfds := (h_pfds g)[Suc i := (h_pfds h ! Suc i)\<lparr>pfd_events := ev\<rparr>]\<rparr>) \<and> h_sockets g = h_sockets h"
proof -
  let ?k = "h_sockets h ! i" and ?p = "h_pfds h ! Suc i"
  have e: "entry_inv W h ?k ?p" using inv_entry [OF ok i] .
  obtain w where w: "v_DriverQuery (e_vt env ?k) (DriverGetFd h ?k) (pfd_events ?p) (h_world h) = (r, w)" and g: "g = h\<lparr>h_world := w\<rparr>"
    using run by (cases "v_DriverQuery (e_vt env ?k) (DriverGetFd h ?k) (pfd_events ?p) (h_world h)")
      (simp add: DriverQuery_def andthen_def heap_world_def)
  note others = query_others [OF w]
  show "driver_inv W g" if "r = Inl e"
  proof -
    have "W w = W (h_world h)" using query_error [OF w [unfolded that]] others by (metis ext)
    with ok inv_cong [of g h] show ?thesis by (simp add: g)
  qed
  show "driver_inv W (g\<lparr>h_pfds := (h_pfds g)[Suc i := ?p\<lparr>pfd_events := ev\<rparr>]\<rparr>) \<and> h_sockets g = h_sockets h" if "r = Inr ev"
  proof
    note q = query [OF w [unfolded that]]
    show "driver_inv W (g\<lparr>h_pfds := (h_pfds g)[Suc i := ?p\<lparr>pfd_events := ev\<rparr>]\<rparr>)"
      by (rule inv_update [OF ok i refl, where p = "?p\<lparr>pfd_events := ev\<rparr>" and q = "as_sendQ (h_async h ?k)"])
        (use e q others in \<open>auto simp: entry_inv_def lists_of_def g\<close>)
  qed (simp add: g)
qed

lemma QuerySockets_loop_keeps:
  "driver_inv W h \<Longrightarrow> ks = drop i (h_sockets h) \<Longrightarrow> driver_inv W (snd (QuerySockets_loop env i ks h))"
proof (induction ks arbitrary: i h)
  case (Cons k ks)
  from Cons.prems(2) have i: "i < length (h_sockets h)" by (metis drop_eq_Nil list.distinct(1) not_le)
  then have k: "k = h_sockets h ! i" and ks: "ks = drop (Suc i) (h_sockets h)"
    using Cons.prems(2) by (metis Cons_nth_drop_Suc list.inject)+
  let ?p = "h_pfds h ! Suc i"
  have fd: "pfd_fd ?p = DriverGetFd h k" using inv_fd [OF Cons.prems(1) i] k by simp
  obtain r g where run: "DriverQuery env k (pfd_events ?p) h = (r, g)" by (rule prod.exhaust)
  note queried = DriverQuery_keeps [OF Cons.prems(1) i run [unfolded k]]
  show ?case
  proof (cases r)
    case (Inl e)
    with run fd queried(1) show ?thesis by (simp add: andthen_def)
  next
    case (Inr ev)
    let ?g = "g\<lparr>h_pfds := (h_pfds g)[Suc i := ?p\<lparr>pfd_events := ev\<rparr>]\<rparr>"
    have "driver_inv W ?g" "ks = drop (Suc i) (h_sockets ?g)" using queried(2) [OF Inr] ks by simp_all
    from Cons.IH [OF this] run Inr fd show ?thesis by (simp add: andthen_def)
  qed
qed simp

lemma QuerySockets_keeps: "keeps (driver_inv W) (QuerySockets env)"
  using QuerySockets_loop_keeps [of _ _ 0] by (auto simp: keeps_def QuerySockets_def andthen_def)

lemma StepSockets_keeps:
  assumes "user_keeps (driver_inv W) (e_user env)" and "poll_only_revents (e_os env)"
  shows "keeps (driver_inv W) (StepSockets env timeout)"
  unfolding StepSockets_def Unbump_def
  by (intro keeps_intros QuerySockets_keeps DoOneSocketTask_keeps assms wait_sockets_keeps receives)

end

sublocale driven < steps: stepping "driver_inv W" env
proof
  fix h and t stop
  show "driver_inv W (h\<lparr>h_todos := t\<rparr>) = driver_inv W h" "driver_inv W (h\<lparr>h_shouldStop := stop\<rparr>) = driver_inv W h" by simp_all
  show "driver_inv W (h\<lparr>h_world := snd (sys_now (e_os env) (h_world h))\<rparr>)" if "driver_inv W h"
    using that inv_cong [of "h\<lparr>h_world := snd (sys_now (e_os env) (h_world h))\<rparr>" h] now by simp
qed (rule StepSockets_keeps)

context driven begin

lemma new_async_register_keeps:
  assumes ok: "driver_inv W h" and f: "fresh h k s" and q: "queue_length q = 0"
  shows "driver_inv W (snd (andthen (new_async k s n pool role q) (\<lambda>_. AsyncRegister k) h))"
proof -
  let ?a = "\<lparr>as_fd = s, as_rxBufSize = n, as_pool = pool, as_role = role, as_sendQ = q\<rparr>"
  let ?g = "upd_async k (\<lambda>_. ?a) h"
  have g: "driver_inv W ?g"
    by (rule inv_unregistered [OF ok, of k ?a]) (use f in \<open>auto simp: fresh_def lists_of_def upd_async_def\<close>)
  have same: "DriverGetFd ?g j = DriverGetFd h j" if "j \<in> set (h_sockets h)" for j
    using that f by (auto simp: fresh_def upd_async_def DriverGetFd_def)
  have "driver_inv W (snd (AsyncRegister k ?g))"
  proof (rule AsyncRegister_keeps [OF g])
    show "queue_length (as_sendQ (h_async ?g k)) = 0" using q by (simp add: upd_async_def)
    have "DriverGetFd ?g k = s" by (simp add: upd_async_def DriverGetFd_def)
    with f same show "DriverGetFd ?g k \<notin> DriverGetFd ?g ` set (h_sockets ?g)"
      by (auto simp: fresh_def upd_async_def image_def)
  qed
  then show ?thesis by (simp add: new_async_def)
qed

lemma fresh_cong: "lists_of g = lists_of h \<Longrightarrow> fresh g k s = fresh h k s"
  by (simp add: fresh_def lists_of_def DriverGetFd_def)

lemma after_leaves:
  assumes "leaves (watched W) m" and "driver_inv W h"
    and "\<And>a g. m h = (Inr a, g) \<Longrightarrow> driver_inv W g \<Longrightarrow> lists_of g = lists_of h \<Longrightarrow> driver_inv W (snd (f a g))"
  shows "driver_inv W (snd (andthen m f h))"
proof -
  obtain r g where m: "m h = (r, g)" by fastforce
  have "watched W g = watched W h" using leavesD [OF assms(1) m] .
  then have g: "driver_inv W g" "lists_of g = lists_of h" using assms(2) inv_cong [of g h] by (simp_all add: watched_def)
  show ?thesis using assms(3) [OF _ g] m g(1) by (cases r) simp_all
qed

lemma SocketTcpAsync_keeps:
  assumes ok: "driver_inv W h" and f: "fresh h k s"
  shows "driver_inv W (snd (SocketTcpAsync env k s n pool h))"
  unfolding SocketTcpAsync_def
proof (rule after_leaves [OF _ ok])
  fix a g assume g: "driver_inv W g" "lists_of g = lists_of h"
  from f have "fresh g k s" unfolding fresh_cong [OF g(2)] .
  with g(1) show "driver_inv W (snd (andthen (new_async k s n pool (TcpRole (Some a)) (SendQ [])) (\<lambda>_. AsyncRegister k) g))"
    by (rule new_async_register_keeps) simp
qed (intro leaves_intros connections gone)

lemma SocketAcceptorAsync_keeps:
  assumes ok: "driver_inv W h" and f: "fresh h k s"
  shows "driver_inv W (snd (SocketAcceptorAsync env k s pool h))"
  unfolding SocketAcceptorAsync_def
proof (rule after_leaves [OF _ ok])
  fix a :: "nat \<times> pool" and g assume g: "driver_inv W g" "lists_of g = lists_of h"
  obtain sz p where a: "a = (sz, p)" by fastforce
  let ?g = "g\<lparr>h_pools := (h_pools g)(pool := p)\<rparr>"
  have lo: "lists_of ?g = lists_of h" using g(2) by simp
  have "driver_inv W ?g" using g(1) inv_cong [of ?g g] by simp
  moreover from f have "fresh ?g k s" unfolding fresh_cong [OF lo] .
  ultimately have "driver_inv W (snd (andthen (new_async k s sz pool AcceptorRole (SendQ [])) (\<lambda>_. AsyncRegister k) ?g))"
    by (rule new_async_register_keeps) simp
  then show "driver_inv W (snd ((case a of (sz, p) \<Rightarrow>
      andthen (modify (\<lambda>h. h\<lparr>h_pools := (h_pools h)(pool := p)\<rparr>)) (\<lambda>_.
      andthen (new_async k s sz pool AcceptorRole (SendQ [])) (\<lambda>_. AsyncRegister k))) g))"
    by (simp add: a)
qed (intro leaves_intros buffered gone)

lemma Stop_keeps: "keeps (driver_inv W) (Stop env)"
  unfolding Stop_def Bump_def
  by (intro keeps_intros sends) simp_all

lemma destroy_keeps: "keeps (driver_inv W) (SocketAsyncImpl_destroy env k)"
proof -
  have drop: "watched W (drop_queue q h) = watched W h" for q h
  proof -
    have b: "watched W (break_promise p h) = watched W h" for p h by (simp add: break_promise_def)
    have "watched W (foldl (\<lambda>h (p, b). buf_drop b (break_promise p h)) h q) = watched W h" for q h
      by (induction q arbitrary: h) (auto simp: b)
    moreover have "watched W (foldl (\<lambda>h (p, b, _). buf_drop b (break_promise p h)) h q) = watched W h"
      for q :: "(promise_id \<times> buf_ref \<times> address) list" and h
      by (induction q arbitrary: h) (auto simp: b)
    ultimately show ?thesis by (cases q) simp_all
  qed
  show ?thesis
  proof (rule keepsI)
    fix h r t assume ok: "driver_inv W h" and run: "SocketAsyncImpl_destroy env k h = (r, t)"
    have "as_fd (h_async h k) \<noteq> h_pipeTo h" using ok by (auto simp: DriverGetFd_def elim: invE)
    then obtain g where g: "AsyncUnregister (as_fd (h_async h k)) h = (Inr (), g)" "driver_inv W g"
      using AsyncUnregister_keeps(1,2) [OF ok] by (metis prod.collapse)
    then have "watched W t = watched W g"
      using run inv_alive [OF ok] drop gone
      by (auto simp: SocketAsyncImpl_destroy_def andthen_def heap_world_def split: if_splits)
    with g(2) show "driver_inv W t" using inv_cong by blast
  qed
qed

lemma new_heap_ok: "pipe_To p \<noteq> fdInvalid \<Longrightarrow> driver_inv W (new_heap p w)"
  by (auto simp: driver_inv_def new_heap_def DriverGetFd_def)

theorem reach_inv:
  assumes "user_keeps (driver_inv W) (e_user env)" and "poll_only_revents (e_os env)" and "driver_reach env h"
  shows "driver_inv W h"
  using assms(3)
proof induction
  case (make p w)
  then show ?case by (rule new_heap_ok)
next
  case (udp h k s n pool)
  show ?case unfolding SocketUdpAsync_def by (rule new_async_register_keeps [OF udp.IH udp.hyps(2)]) simp
next
  case (tcp h k s n pool)
  then show ?case by (intro SocketTcpAsync_keeps)
next
  case (acceptor h k s pool)
  then show ?case by (intro SocketAcceptorAsync_keeps)
next
  case (send h k b)
  show ?case unfolding Send_def
    by (rule DoSend_keeps [OF enqueues_SendQ send.IH send.hyps(2) [unfolded sends_clearly_def]])
next
  case (send_to h k b a)
  show ?case unfolding Async_SendTo_def
    by (rule DoSend_keeps [OF enqueues_SendToQ send_to.IH send_to.hyps(2) [unfolded sends_clearly_def]])
next
  case (destroy h k)
  with destroy_keeps show ?case by (metis keeps_def)
next
  case (stop h)
  with Stop_keeps show ?case by (metis keeps_def)
next
  case (step h fuel timeout r g)
  show ?case by (rule steps.Step_keeps [OF assms(1,2) step.IH step.hyps(2)])
next
  case (run h fuel n r g)
  show ?case by (rule steps.Run_keeps [OF assms(1,2) run.IH run.hyps(2)])
qed (simp_all add: Driver_ToDoInsert_def Driver_ToDoRemove_def Driver_ToDoMove_def)

end

section \<open>Plain sockets\<close>

text \<open>An environment all of whose sockets are plain.\<close>

definition plain_of :: "'w os \<Rightarrow> 'w netdb \<Rightarrow> 'w user \<Rightarrow> bool \<Rightarrow> 'w env" where
  "plain_of os nd user tls =
     \<lparr>e_os = os, e_nd = nd, e_vt = (\<lambda>_. SocketImpl_vtable os nd), e_user = user, e_with_tls = tls\<rparr>"

lemma plain_of_simps [simp]:
  "e_os (plain_of os nd user tls) = os" "e_nd (plain_of os nd user tls) = nd" "e_user (plain_of os nd user tls) = user"
  "e_vt (plain_of os nd user tls) k = SocketImpl_vtable os nd"
  by (simp_all add: plain_of_def)

lemma plain_env_of: "plain_env env \<Longrightarrow> plain_of (e_os env) (e_nd env) (e_user env) (e_with_tls env) = env"
  by (cases env) (auto simp: plain_env_def plain_of_def fun_eq_iff)

lemma leaves_exactly: "leaves exactly m"
  by (simp add: leaves_def)

interpretation calm_exactly: calm_system exactly os nd
  by unfold_locales simp_all

interpretation plain: driven exactly "plain_of os nd user tls"
  rewrites "driver_inv exactly = driver_ok"
proof -
  show "driven exactly (plain_of os nd user tls)"
    by unfold_locales
      (auto simp: leaves_exactly SocketImpl_vtable_def SocketImpl_DriverQuery_def)
qed (simp add: driver_inv_exactly)

lemma DriverOnWritable_lists:
  assumes "plain_env env" and run: "DriverOnWritable env k h = (r, g)"
  obtains (kept) "lists_of g = lists_of h" and "\<And>b. r = Inr b \<Longrightarrow> \<not> b \<and> queue_length (as_sendQ (h_async h k)) \<noteq> 0"
    | (popped) b where "lists_of g = lists_of (upd_async k (\<lambda>a. a\<lparr>as_sendQ := send_queue_tl (as_sendQ a)\<rparr>) h)"
      and "r = Inr b" and "queue_length (as_sendQ (h_async h k)) \<noteq> 0"
      and "b = (queue_length (as_sendQ (h_async h k)) = 1)"
proof (rule plain.DriverOnWritable_cases [of "e_os env" "e_nd env" "e_user env" "e_with_tls env" k h r g])
  show "DriverOnWritable (plain_of (e_os env) (e_nd env) (e_user env) (e_with_tls env)) k h = (r, g)"
    using run plain_env_of [OF assms(1)] by simp
  show thesis if "watched exactly g = watched exactly h" "\<And>b. r = Inr b \<Longrightarrow> \<not> b \<and> queue_length (as_sendQ (h_async h k)) \<noteq> 0"
    by (rule kept) (use that in \<open>simp_all add: watched_def\<close>)
qed (use popped in \<open>simp_all add: watched_def SocketImpl_vtable_def SocketImpl_DriverPending_def\<close>)

lemma plain_wait_sockets_keeps:
  assumes "plain_env env" and "poll_only_revents (e_os env)"
  shows "keeps driver_ok (wait_sockets env timeout)"
  using plain.wait_sockets_keeps [of "e_os env" "e_nd env" "e_user env" "e_with_tls env" timeout] assms plain_env_of [OF assms(1)] by simp

end
