(* ===== verification/DriverSpec.thy ===== *)
theory DriverSpec
  imports DriverKeeps AsyncSpec
begin

text \<open>
  What a step of the driver does as a whole: it keeps the invariant of the lists whatever the user's tasks
  and callbacks do that keeps it, serves the first socket that is ready, and runs due tasks in order.
\<close>

section \<open>Steps\<close>

lemma QuerySockets_loop_plain:
  assumes env: "plain_env env"
    and "\<And>j. j < length ks \<Longrightarrow> pfd_fd (h_pfds h ! (i + j + 1)) = DriverGetFd h (ks ! j)"
  shows "QuerySockets_loop env i ks h = (Inr (), h)"
  using assms(2)
proof (induction ks arbitrary: i)
  case (Cons k ks)
  have fd: "pfd_fd (h_pfds h ! Suc i) = DriverGetFd h k" using Cons.prems [of 0] by simp
  have "QuerySockets_loop env (i + 1) ks h = (Inr (), h)" using Cons.prems [of "Suc j" for j] by (intro Cons.IH) auto
  moreover have "(h_pfds h)[Suc i := (h_pfds h ! Suc i)\<lparr>pfd_events := pfd_events (h_pfds h ! Suc i)\<rparr>] = h_pfds h" by simp
  moreover have "DriverQuery env k ev h = (Inr ev, h)" for ev
    using env by (simp add: DriverQuery_def plain_env_def SocketImpl_vtable_def SocketImpl_DriverQuery_def andthen_def heap_world_def)
  ultimately show ?case using fd by (simp add: andthen_def)
qed simp

lemma QuerySockets_plain:
  assumes "plain_env env" and "driver_ok h"
  shows "QuerySockets env h = (Inr (), h)"
  using QuerySockets_loop_plain [OF assms(1), of "h_sockets h" h 0] driver_ok_fd [OF assms(2)] driver_ok_length [OF assms(2)]
  by (simp add: QuerySockets_def andthen_def)


definition test_pipes :: pipes where
  "test_pipes = \<lparr>pipe_ToAddr = SockAddrStorage_filled test_netdb_script [], pipe_From = 4, pipe_To = 3\<rparr>"

lemma test_env_ok: "plain_env test_env" "user_keeps driver_ok (e_user test_env)" "poll_only_revents (e_os test_env)"
  by (auto simp: plain_env_def user_keeps_def test_user_def keeps_def)


text \<open>
  C17. One step of the sockets polls once and then lets exactly one party act: the signalling pipe before every
  socket, and among the sockets the first in the order of registration that has something to report; it is
  read if it is readable, else written if it is writable, else told of the error.  A failing poll and an
  event that belongs to nobody are reported as exceptions and change nothing else.
\<close>

theorem StepSockets_serves_one:
  assumes "plain_env env" and "driver_ok h" and "poll_only_revents (e_os env)"
    and "sys_poll (e_os env) (h_pfds h) (ToMsec timeout) (h_world h) = ((n, ps), w)"
  defines "g \<equiv> h\<lparr>h_world := w, h_pfds := ps\<rparr>"
  shows "StepSockets env timeout h =
    (if n < 0 then (Inl (SystemError (SocketError (e_os env) w) ''failed to wait for socket readable/writable''), h\<lparr>h_world := w\<rparr>)
     else if n = 0 then (Inr (), g)
     else if POLLIN \<in> pfd_revents (hd ps) then Unbump env g
     else if pfd_revents (hd ps) \<noteq> {} then (Inl (LogicError ''unexpected signalling pipe poll result''), g)
     else
       (case find (\<lambda>(n, k). reports (ps ! n)) (enumerate 1 (h_sockets h)) of
          None \<Rightarrow> (Inl (LogicError ''unhandled poll event''), g)
        | Some (n, k) \<Rightarrow> serve env n k (ps ! n) g))"
proof -
  have wait: "wait_sockets env timeout h =
    (if n < 0 then (Inl (SystemError (SocketError (e_os env) w) ''failed to wait for socket readable/writable''), h\<lparr>h_world := w\<rparr>)
     else (Inr (n \<noteq> 0), g))"
    using assms(4) by (auto simp: wait_sockets_def Wait_def DoPoll_def andthen_def g_def)
  have ok: "\<not> n < 0 \<Longrightarrow> driver_ok g" using keepsD [OF plain_wait_sockets_keeps [OF assms(1,3)], of timeout h "Inr (n \<noteq> 0)" g] wait assms(2) by simp
  have "StepSockets env timeout h = andthen (wait_sockets env timeout) (\<lambda>ready.
       if \<not> ready then ret ()
       else andthen (get (\<lambda>h. pfd_revents (hd (h_pfds h)))) (\<lambda>revents.
         if POLLIN \<in> revents then Unbump env
         else if revents \<noteq> {} then throw (LogicError ''unexpected signalling pipe poll result'')
         else DoOneSocketTask env)) h"
    using QuerySockets_plain [OF assms(1,2)] by (simp add: StepSockets_def andthen_def)
  also have "\<dots> = (if n < 0 then (Inl (SystemError (SocketError (e_os env) w) ''failed to wait for socket readable/writable''), h\<lparr>h_world := w\<rparr>)
     else if n = 0 then (Inr (), g)
     else if POLLIN \<in> pfd_revents (hd ps) then Unbump env g
     else if pfd_revents (hd ps) \<noteq> {} then (Inl (LogicError ''unexpected signalling pipe poll result''), g)
     else DoOneSocketTask env g)"
    using wait by (simp add: andthen_def g_def)
  finally have run: "StepSockets env timeout h = \<dots>" .
  have g: "h_pfds g = ps" "h_sockets g = h_sockets h" by (simp_all add: g_def)
  have "\<not> n < 0 \<Longrightarrow> DoOneSocketTask env g =
    (case find (\<lambda>(n, k). reports (ps ! n)) (enumerate 1 (h_sockets h)) of
       None \<Rightarrow> (Inl (LogicError ''unhandled poll event''), g)
     | Some (n, k) \<Rightarrow> serve env n k (ps ! n) g)"
    using exact.DoOneSocketTask_find [OF ok] unfolding g .
  with run show ?thesis by simp
qed

definition polled_heap :: "script heap" where
  "polled_heap = (test_heap [])\<lparr>h_world := script0\<lparr>s_polls := [(1, [{}, {POLLOUT}])], s_sends := [3]\<rparr>\<rparr>"

lemma polled_heap_ok: "driver_ok polled_heap"
  by (simp add: polled_heap_def driver_ok_def test_heap_def entry_ok_def DriverGetFd_def)

theorem StepSockets_serves_one_witness:
  "\<exists>w ps. StepSockets test_env 10 polled_heap = serve test_env 1 7 (ps ! 1) (polled_heap\<lparr>h_world := w, h_pfds := ps\<rparr>)
    \<and> POLLOUT \<in> pfd_revents (ps ! 1)"
proof -
  let ?p = "sys_poll script_os (h_pfds polled_heap) (ToMsec 10) (h_world polled_heap)"
  have p: "fst (fst ?p) = 1" "map pfd_revents (snd (fst ?p)) = [{}, {POLLOUT}]"
    by (simp_all add: polled_heap_def script_calls test_heap_def)
  then obtain ps w where ps: "?p = ((1, ps), w)" "map pfd_revents ps = [{}, {POLLOUT}]" by (metis prod.collapse snd_conv fst_conv)
  then have rev: "pfd_revents (hd ps) = {}" "pfd_revents (ps ! 1) = {POLLOUT}" by auto
  have "h_sockets polled_heap = [7]" by (simp add: polled_heap_def test_heap_def)
  with StepSockets_serves_one [OF test_env_ok(1) polled_heap_ok test_env_ok(3), of 10 1 ps w] ps(1) rev
  show ?thesis by (auto simp: reports_def)
qed

section \<open>Receiving on a stream\<close>

lemma ReceiveNow_outcomes:
  assumes "recv_bounded os" and "ReceiveNow os s n w = (r, w')"
  obtains (data) d where "r = Inr (length d, d)" "d \<noteq> []" "length d \<le> n"
    | (error) e where "r = Inl e" "is_runtime_error e"
proof -
  obtain x d where x: "sys_recv os s n w = ((x, d), w')"
    using assms(2) by (auto simp: ReceiveNow_def andthen_def call_def split: prod.splits if_splits)
  have "0 \<le> x \<longrightarrow> length d = nat x \<and> length d \<le> n" using assms(1) x unfolding recv_bounded_def by blast
  moreover have "if x \<le> 0 then \<exists>e. r = Inl e \<and> is_runtime_error e else r = Inr (nat x, d)"
    using assms(2) x by (auto simp: ReceiveNow_def andthen_def call_def split: if_splits)
  ultimately show thesis by (cases "x \<le> 0") (auto intro: error data [of d])
qed

text \<open>The pool of a socket and the world, as a receive sees them, and the heap after it.\<close>

definition buffered_of :: "'w heap \<Rightarrow> nat \<Rightarrow> 'w buffered" where
  "buffered_of h p = \<lparr>bw_pool = h_pools h p, bw_world = h_world h\<rparr>"

definition with_buffered :: "nat \<Rightarrow> 'w buffered \<Rightarrow> 'w heap \<Rightarrow> 'w heap" where
  "with_buffered p b h = h\<lparr>h_pools := (h_pools h)(p := bw_pool b), h_world := bw_world b\<rparr>"

lemma heap_buffered_run: "heap_buffered p m h = (fst (m (buffered_of h p)), with_buffered p (snd (m (buffered_of h p))) h)"
  by (simp add: heap_buffered_def buffered_of_def with_buffered_def)

lemma Buffered_Receive_outcomes:
  assumes "recv_bounded os" and "pool_inv (bw_pool s)" and "Buffered_Receive (SocketImpl_vtable os nd) sock n s = (r, t)"
  obtains (data) b d where "r = Inr b" "b \<notin> lent s" "lent t = insert b (lent s)" "content (buf_at (bw_pool t) b) = d" "d \<noteq> []"
    | (error) e where "r = Inl e" "is_runtime_error e" "lent t = lent s"
proof -
  obtain x u where g: "GetBuffer n s = (x, u)" by fastforce
  show thesis
  proof (cases x)
    case (Inl e)
    with assms(3) g have "r = Inl e" "t = u" by (simp_all add: Buffered_Receive_def)
    moreover have "is_runtime_error e" "t = s"
      using GetBuffer_Inl [OF g [unfolded Inl] assms(2)] \<open>t = u\<close> by simp_all
    ultimately show thesis by (intro error) simp_all
  next
    case (Inr b)
    note gb = g [unfolded Inr]
    obtain y w where y: "ReceiveNow os sock n (bw_world s) = (y, w)" by fastforce
    have run: "(r, t) = (case y of Inl e \<Rightarrow> (Inl e, drop_buffer b (u\<lparr>bw_world := w\<rparr>))
       | Inr (k, d) \<Rightarrow> (Inr b, received_into b k d (u\<lparr>bw_world := w\<rparr>)))"
      using assms(3) y by (simp add: Buffered_Receive_run [OF gb assms(2)] SocketImpl_vtable_def split: sum.split)
    from assms(1) y show thesis
    proof (cases rule: ReceiveNow_outcomes)
      case (data d)
      with run have "r = Inr b" "t = received_into b (length d) d (u\<lparr>bw_world := w\<rparr>)" by simp_all
      with received_into_content [OF refl, of d b "u\<lparr>bw_world := w\<rparr>"] data GetBuffer_Inr [OF gb assms(2)]
      show thesis by (intro that(1) [of b d]) (simp_all add: buffer_size_def)
    next
      case (error e)
      with run dropped_lent [OF gb assms(2)] show thesis by (intro that(2)) auto
    qed
  qed
qed


text \<open>A peer that closes the connection, with a receive handler that would complain.\<close>

definition closing_env :: "script env" where
  "closing_env = test_env\<lparr>e_user := test_user\<lparr>u_receive := (\<lambda>_ _. throw (LogicError ''unexpected''))\<rparr>\<rparr>"

definition closing_heap :: "script heap" where
  "closing_heap = (test_heap [])\<lparr>h_world := script0\<lparr>s_recvs := [(0, [])]\<rparr>, h_pools := (\<lambda>_. BufferPool 1 8)\<rparr>"


section \<open>Stopping before the loop\<close>

text \<open>\<^verbatim>\<open>Run\<close> resets the flag first: a \<^verbatim>\<open>Stop\<close> that came before it is forgotten.\<close>

lemma Run_forgets_stop: "Run env fuel n (snd (Stop env h)) = Run env fuel n ((snd (Stop env h))\<lparr>h_shouldStop := False\<rparr>)"
  by (simp add: Run_def)

end
