(* ===== verification/TodoSpec.thy ===== *)
theory TodoSpec
  imports Driver AsyncSpec
begin

text \<open>
  Running the due tasks: the loop of \<^verbatim>\<open>StepTodos\<close> is a template over the deadline, so what it
  promises is shown once for a policy with the laws below, and the three deadlines are its instances.
\<close>

section \<open>The interface of the deadline\<close>

text \<open>
  A tick moves the time on and keeps the deadline admissible; an admissible deadline leaves at most the
  limit, or has none at all.
\<close>

locale todo_policy =
  fixes os :: "'w os" and clock :: "'w \<Rightarrow> timepoint" and p :: "('w, 'd) policy"
    and ok :: "'d \<Rightarrow> bool" and limit :: duration
  assumes tick: "timely os clock \<Longrightarrow> ok d \<Longrightarrow> p_now p d \<le> clock w \<Longrightarrow> p_tick p d w = (d', w') \<Longrightarrow>
      ok d' \<and> p_now p d \<le> p_now p d' \<and> p_now p d' \<le> clock w' \<and> clock w \<le> clock w'"
    and rem: "ok d \<Longrightarrow> limit < 0 \<and> p_rem p d = -1 \<or> 0 \<le> p_rem p d \<and> p_rem p d \<le> limit"
begin

text \<open>The time that is left for the sockets, from an instant \<open>c\<close> on.\<close>

definition left_over :: "timepoint \<Rightarrow> duration \<Rightarrow> 'w heap \<Rightarrow> bool" where
  "left_over c r g \<longleftrightarrow>
     (if r < 0 then r = -1 \<and> limit < 0 \<and> pending (h_todos g) = []
      else (0 \<le> limit \<longrightarrow> r \<le> limit) \<and>
        (case pending (h_todos g) of
           [] \<Rightarrow> True
         | t # _ \<Rightarrow> r = 0 \<or> c + r * ns_per_ms \<le> when_of (h_todos g) t))"

lemma until_left_over:
  assumes "ok d" and "c \<le> p_now p d" and pend: "pending (h_todos g) = t # ts"
    and until: "0 < when_of (h_todos g) t - p_now p d"
  shows "left_over c (MinDuration (when_of (h_todos g) t - p_now p d) (p_rem p d)) g"
proof -
  let ?u = "when_of (h_todos g) t - p_now p d" and ?m = "MinDuration (when_of (h_todos g) t - p_now p d) (p_rem p d)"
  have "?m \<le> duration_cast_ms ?u" and m0: "0 \<le> ?m"
    using duration_cast_ms_nonneg [of ?u] until by (auto simp: MinDuration_def)
  then have "?m * ns_per_ms \<le> ?u"
    using duration_cast_ms_le [of ?u] until by (simp add: ns_per_ms_def)
  with assms(2) have "c + ?m * ns_per_ms \<le> when_of (h_todos g) t" by linarith
  moreover have "0 \<le> limit \<Longrightarrow> ?m \<le> limit" using rem [OF assms(1)] by (auto simp: MinDuration_def)
  ultimately show ?thesis using m0 pend by (simp add: left_over_def)
qed

lemma StepTodos_left_over:
  assumes time: "timely os clock"
    and task: "\<And>t h. clock (h_world h) \<le> clock (h_world (snd (u_task (e_user env) t h)))"
  shows "StepTodos env p n d h = Some (Inr r, g) \<Longrightarrow> ok d \<Longrightarrow> c \<le> p_now p d \<Longrightarrow> p_now p d \<le> clock (h_world h) \<Longrightarrow>
    left_over c r g"
proof (induction n arbitrary: d h)
  case (Suc n)
  obtain front ts where front: "pending (h_todos h) = front # ts" using Suc.prems(1) by (cases "pending (h_todos h)") auto
  let ?until = "when_of (h_todos h) front - p_now p d"
  show ?case
  proof (cases "0 < ?until")
    case True
    with Suc.prems(1) front have "r = MinDuration ?until (p_rem p d)" "g = h" by auto
    with until_left_over [OF Suc.prems(2,3) front True] show ?thesis by simp
  next
    case False
    obtain s t where t: "u_task (e_user env) front (h\<lparr>h_todos := ToDos_pop_front (h_todos h)\<rparr>) = (s, t)" by fastforce
    obtain d' w where d': "p_tick p d (h_world t) = (d', w)" by fastforce
    have "clock (h_world h) \<le> clock (h_world t)" using task [of "h\<lparr>h_todos := ToDos_pop_front (h_todos h)\<rparr>" front] t by simp
    with Suc.prems(4) have "p_now p d \<le> clock (h_world t)" by linarith
    from tick [OF time Suc.prems(2) this d'] have okd: "ok d'" "p_now p d \<le> p_now p d'" "p_now p d' \<le> clock w" by simp_all
    let ?g = "t\<lparr>h_world := w\<rparr>"
    have run: "Some (Inr r, g) = (if pending (h_todos ?g) = [] then Some (Inr (p_rem p d'), ?g)
        else if p_left p d' then StepTodos env p n d' ?g else Some (Inr 0, ?g))"
      using Suc.prems(1) front False t d' by (cases s) (simp_all add: Let_def)
    consider "pending (h_todos ?g) = []" | "pending (h_todos ?g) \<noteq> []" "p_left p d'" | "pending (h_todos ?g) \<noteq> []" "\<not> p_left p d'"
      by blast
    then show ?thesis
    proof cases
      case 1
      with run rem [OF okd(1)] show ?thesis by (auto simp: left_over_def)
    next
      case 2
      with run Suc.IH [of d' ?g] okd Suc.prems(3) show ?thesis by simp
    next
      case 3
      with run show ?thesis by (auto simp: left_over_def split: list.splits)
    qed
  qed
qed simp

text \<open>Tasks that return and leave the list alone: a prefix of the list runs, and only what is due.\<close>

definition ran_prefix :: "timepoint \<Rightarrow> 'w heap \<Rightarrow> 'w heap \<Rightarrow> bool" where
  "ran_prefix c h g \<longleftrightarrow> when_of (h_todos g) = when_of (h_todos h) \<and>
     (\<exists>m. pending (h_todos g) = drop m (pending (h_todos h)) \<and>
        list_all (\<lambda>t. when_of (h_todos h) t \<le> clock (h_world g)) (take m (pending (h_todos h)))) \<and>
     (case pending (h_todos g) of [] \<Rightarrow> True | t # _ \<Rightarrow> c < when_of (h_todos g) t)"

lemma StepTodos_ran_prefix:
  assumes time: "timely os clock" and left: "\<And>d. p_left p d"
    and task: "\<And>t h. clock (h_world h) \<le> clock (h_world (snd (u_task (e_user env) t h)))"
      "\<And>t h. fst (u_task (e_user env) t h) = Inr ()" "\<And>t h. h_todos (snd (u_task (e_user env) t h)) = h_todos h"
  shows "pending (h_todos h) \<noteq> [] \<Longrightarrow> length (pending (h_todos h)) \<le> n \<Longrightarrow> ok d \<Longrightarrow> c \<le> p_now p d \<Longrightarrow>
    p_now p d \<le> clock (h_world h) \<Longrightarrow>
    \<exists>r g. StepTodos env p n d h = Some (Inr r, g) \<and> ran_prefix c h g \<and> clock (h_world h) \<le> clock (h_world g)"
proof (induction n arbitrary: d h)
  case (Suc n)
  obtain front ts where front: "pending (h_todos h) = front # ts" using Suc.prems(1) by (cases "pending (h_todos h)") auto
  let ?until = "when_of (h_todos h) front - p_now p d"
  show ?case
  proof (cases "0 < ?until")
    case True
    with front Suc.prems(4) have "ran_prefix c h h" by (auto simp: ran_prefix_def intro: exI [of _ 0])
    with True front show ?thesis by simp
  next
    case False
    let ?h = "h\<lparr>h_todos := ToDos_pop_front (h_todos h)\<rparr>"
    obtain t where t: "u_task (e_user env) front ?h = (Inr (), t)" using task(2) [of front ?h] by (metis prod.collapse)
    obtain d' w where d': "p_tick p d (h_world t) = (d', w)" by fastforce
    have todos: "h_todos t = ToDos_pop_front (h_todos h)" and ct: "clock (h_world h) \<le> clock (h_world t)"
      using task(3) [of front ?h] task(1) [of ?h front] t by simp_all
    have "p_now p d \<le> clock (h_world t)" using ct Suc.prems(5) by linarith
    from tick [OF time Suc.prems(3) this d'] have okd: "ok d'" "p_now p d \<le> p_now p d'" "p_now p d' \<le> clock w"
      "clock (h_world t) \<le> clock w" by simp_all
    let ?g = "t\<lparr>h_world := w\<rparr>"
    have pg: "pending (h_todos ?g) = ts" "when_of (h_todos ?g) = when_of (h_todos h)"
      using front todos by (simp_all add: ToDos_pop_front_def)
    have due: "when_of (h_todos h) front \<le> clock (h_world h)" using False Suc.prems(5) by linarith
    have run: "StepTodos env p (Suc n) d h = (if ts = [] then Some (Inr (p_rem p d'), ?g) else StepTodos env p n d' ?g)"
      using front False t d' pg(1) left by (simp add: Let_def)
    show ?thesis
    proof (cases "ts = []")
      case True
      with pg front due ct okd(4) have "ran_prefix c h ?g" by (auto simp: ran_prefix_def intro!: exI [of _ 1])
      with True run ct okd(4) show ?thesis by simp
    next
      case ts: False
      have "\<exists>r g. StepTodos env p n d' ?g = Some (Inr r, g) \<and> ran_prefix c ?g g \<and> clock (h_world ?g) \<le> clock (h_world g)"
        using Suc.prems(2,4) front ts pg okd by (intro Suc.IH) simp_all
      then obtain r g where g: "StepTodos env p n d' ?g = Some (Inr r, g)" "ran_prefix c ?g g" "clock w \<le> clock (h_world g)"
        by auto
      then obtain m where "pending (h_todos g) = drop m ts" "list_all (\<lambda>t. when_of (h_todos h) t \<le> clock (h_world g)) (take m ts)"
        using pg by (auto simp: ran_prefix_def)
      then have "pending (h_todos g) = drop (Suc m) (pending (h_todos h))"
        "list_all (\<lambda>t. when_of (h_todos h) t \<le> clock (h_world g)) (take (Suc m) (pending (h_todos h)))"
        using front due ct okd(4) g(3) by simp_all
      with g(2) pg(2) have "ran_prefix c h g" unfolding ran_prefix_def by (intro conjI) (auto simp del: take_Suc_Cons drop_Suc_Cons)
      with g run ts ct okd(4) show ?thesis by auto
    qed
  qed
qed simp

end

section \<open>The three deadlines\<close>

interpretation unlimited_todos: todo_policy os clock "policy_unlimited os" "\<lambda>_. True" "-1"
proof
  fix d w d' w'
  assume time: "timely os clock" and "p_now (policy_unlimited os) d \<le> clock w"
    and "p_tick (policy_unlimited os) d w = (d', w')"
  with timely_now [OF time, of w] show "True \<and> p_now (policy_unlimited os) d \<le> p_now (policy_unlimited os) d'
      \<and> p_now (policy_unlimited os) d' \<le> clock w' \<and> clock w \<le> clock w'"
    by (force simp: policy_unlimited_def Clocked_Tick_def split: prod.splits)
qed (simp add: policy_unlimited_def Unlimited_Remaining_def)

interpretation zero_todos: todo_policy os clock "policy_zero os" "\<lambda>_. True" 0
proof
  fix d w d' w'
  assume time: "timely os clock" and "p_now (policy_zero os) d \<le> clock w"
    and "p_tick (policy_zero os) d w = (d', w')"
  with timely_now [OF time, of w] show "True \<and> p_now (policy_zero os) d \<le> p_now (policy_zero os) d'
      \<and> p_now (policy_zero os) d' \<le> clock w' \<and> clock w \<le> clock w'"
    by (force simp: policy_zero_def Clocked_Tick_def split: prod.splits)
qed (simp add: policy_zero_def ZeroLimited_Remaining_def)

interpretation limited_todos: todo_policy os clock "policy_limited os" "\<lambda>d. 0 \<le> T \<and> deadline d - now d \<le> T * ns_per_ms" T
proof
  fix d d' :: deadline_limited and w w'
  assume time: "timely os clock" and "0 \<le> T \<and> deadline d - now d \<le> T * ns_per_ms"
    and "p_now (policy_limited os) d \<le> clock w" and "p_tick (policy_limited os) d w = (d', w')"
  with timely_now [OF time, of w] show "(0 \<le> T \<and> deadline d' - now d' \<le> T * ns_per_ms)
      \<and> p_now (policy_limited os) d \<le> p_now (policy_limited os) d'
      \<and> p_now (policy_limited os) d' \<le> clock w' \<and> clock w \<le> clock w'"
    by (force simp: policy_limited_def Clocked_Tick_def split: prod.splits)
next
  fix d :: deadline_limited assume "0 \<le> T \<and> deadline d - now d \<le> T * ns_per_ms"
  then show "T < 0 \<and> p_rem (policy_limited os) d = -1 \<or> 0 \<le> p_rem (policy_limited os) d \<and> p_rem (policy_limited os) d \<le> T"
    using DeadlineLimited_Remaining_le [of d T] DeadlineLimited_Remaining_nonneg [of d] by (simp add: policy_limited_def)
qed

text \<open>Three tasks, due at 1 ms, 5 ms and 9 ms; the clock shows 6 ms.\<close>

definition todo_heap :: "script heap" where
  "todo_heap = (test_heap [])\<lparr>h_world := script0\<lparr>s_clock := 6000000, s_tick := 1000\<rparr>,
     h_todos := \<lparr>pending = [2, 0, 1], when_of = (\<lambda>t. if t = 2 then 1000000 else if t = 0 then 5000000 else 9000000), next_todo = 3\<rparr>\<rparr>"

lemma test_user_task [simp]: "u_task test_user t h = (Inr (), h)"
  by (simp add: test_user_def)





end
