(* ===== verification/Handshake.thy ===== *)
theory Handshake
  imports Prelude
begin

text \<open>
  \<^verbatim>\<open>src/driver_impl.cpp\<close>, \<^verbatim>\<open>StepGuard\<close> and \<^verbatim>\<open>PauseGuard\<close>: how the thread that runs the driver and the threads
  that want to change its lists hand the step mutex to each other.  One action is one access to a mutex
  or to the signalling pipe; threads interleave at every action.  An action that blocks is \<^const>\<open>None\<close>.
\<close>

section \<open>Runs of actions\<close>

text \<open>A system is a partial function of an action and a state; an interleaving is a list of actions.\<close>

fun run :: "('a \<Rightarrow> 's \<Rightarrow> 's option) \<Rightarrow> 'a list \<Rightarrow> 's \<Rightarrow> 's option" where
  "run act [] s = Some s"
| "run act (a # as) s = (case act a s of None \<Rightarrow> None | Some s \<Rightarrow> run act as s)"

lemma run_append: "run act (as @ bs) s = (case run act as s of None \<Rightarrow> None | Some s \<Rightarrow> run act bs s)"
  by (induction as arbitrary: s) (auto split: option.splits)

locale action_system =
  fixes act :: "'a \<Rightarrow> 's \<Rightarrow> 's option" and inv :: "'s \<Rightarrow> bool"
  assumes inv_act: "act a s = Some s' \<Longrightarrow> inv s \<Longrightarrow> inv s'"
begin

lemma run_inv: "run act as s = Some s' \<Longrightarrow> inv s \<Longrightarrow> inv s'"
  by (induction as arbitrary: s) (auto split: option.splits dest: inv_act)

end

locale started_system = action_system +
  fixes init :: 's
  assumes inv_init: "inv init"
begin

lemma reached: "run act as init = Some s \<Longrightarrow> inv s"
  by (rule run_inv) (use inv_init in auto)

end

section \<open>Mutexes and threads\<close>

datatype thread = DriverThread | OtherThread nat

text \<open>A recursive mutex: its owner and how often it is locked.\<close>

type_synonym recursive_mutex = "(thread \<times> nat) option"

definition try_lock :: "thread \<Rightarrow> recursive_mutex \<Rightarrow> recursive_mutex option" where
  "try_lock t m =
     (case m of
        None \<Rightarrow> Some (Some (t, 1))
      | Some (owner, n) \<Rightarrow> if owner = t then Some (Some (t, Suc n)) else None)"

definition unlock :: "thread \<Rightarrow> recursive_mutex \<Rightarrow> recursive_mutex option" where
  "unlock t m =
     (case m of
        None \<Rightarrow> None
      | Some (owner, n) \<Rightarrow> if owner \<noteq> t then None else Some (if n \<le> 1 then None else Some (t, n - 1)))"

text \<open>
  The driver's thread: outside of a step, in the part of a step before \<^verbatim>\<open>poll\<close>, in \<^verbatim>\<open>poll\<close>, after it, and in
  the two halves of the destructor of \<^verbatim>\<open>StepGuard\<close>.  The number counts the guards that handlers and tasks,
  which run on the driver's thread, hold themselves.
\<close>

datatype driver_pc = Outside | BeforePoll nat | Polling | AfterPoll nat | Unlocked | Yielding

text \<open>
  Any other thread: \<open>Idle\<close>, after the failed attempt to lock the step mutex, with the pause mutex and before the
  bump, waiting for the step mutex, with both mutexes, and with the guard complete.
\<close>

datatype pauser_pc = Idle | Refused | Bumping | Awaiting | Handed | Guarded

record handshake =
  hs_stepMtx :: recursive_mutex
  hs_pauseMtx :: "thread option"
  hs_pipe :: nat
  hs_driver :: driver_pc
  hs_pauser :: "nat \<Rightarrow> pauser_pc"

definition handshake0 :: handshake where
  "handshake0 = \<lparr>hs_stepMtx = None, hs_pauseMtx = None, hs_pipe = 0, hs_driver = Outside, hs_pauser = (\<lambda>_. Idle)\<rparr>"

section \<open>The guards\<close>

datatype driver_action =
  StepGuard_lock | BeginPoll | PollOther | PollPipe | Nest | Unnest | StepGuard_unlock | StepGuard_pause | StepGuard_end

text \<open>
  \<^verbatim>\<open>poll\<close> ends with the pipe readable, whose datagram \<^verbatim>\<open>Unbump\<close> then takes, or for another reason while the
  pipe is empty.  A step also ends by an exception, which unwinds it from any point where no handler holds a guard.
\<close>

fun step_guard :: "driver_action \<Rightarrow> handshake \<Rightarrow> handshake option" where
  "step_guard StepGuard_lock s =
     (if hs_driver s \<noteq> Outside then None
      else map_option (\<lambda>m. s\<lparr>hs_stepMtx := m, hs_driver := BeforePoll 0\<rparr>) (try_lock DriverThread (hs_stepMtx s)))"
| "step_guard BeginPoll s = (if hs_driver s = BeforePoll 0 then Some (s\<lparr>hs_driver := Polling\<rparr>) else None)"
| "step_guard PollOther s =
     (if hs_driver s = Polling \<and> hs_pipe s = 0 then Some (s\<lparr>hs_driver := AfterPoll 0\<rparr>) else None)"
| "step_guard PollPipe s =
     (if hs_driver s = Polling \<and> 0 < hs_pipe s
      then Some (s\<lparr>hs_pipe := hs_pipe s - 1, hs_driver := AfterPoll 0\<rparr>) else None)"
| "step_guard Nest s =
     (case hs_driver s of
        BeforePoll k \<Rightarrow>
          map_option (\<lambda>m. s\<lparr>hs_stepMtx := m, hs_driver := BeforePoll (Suc k)\<rparr>) (try_lock DriverThread (hs_stepMtx s))
      | AfterPoll k \<Rightarrow>
          map_option (\<lambda>m. s\<lparr>hs_stepMtx := m, hs_driver := AfterPoll (Suc k)\<rparr>) (try_lock DriverThread (hs_stepMtx s))
      | _ \<Rightarrow> None)"
| "step_guard Unnest s =
     (case hs_driver s of
        BeforePoll (Suc k) \<Rightarrow>
          map_option (\<lambda>m. s\<lparr>hs_stepMtx := m, hs_driver := BeforePoll k\<rparr>) (unlock DriverThread (hs_stepMtx s))
      | AfterPoll (Suc k) \<Rightarrow>
          map_option (\<lambda>m. s\<lparr>hs_stepMtx := m, hs_driver := AfterPoll k\<rparr>) (unlock DriverThread (hs_stepMtx s))
      | _ \<Rightarrow> None)"
| "step_guard StepGuard_unlock s =
     (if hs_driver s \<in> {BeforePoll 0, Polling, AfterPoll 0}
      then map_option (\<lambda>m. s\<lparr>hs_stepMtx := m, hs_driver := Unlocked\<rparr>) (unlock DriverThread (hs_stepMtx s))
      else None)"
| "step_guard StepGuard_pause s =
     (if hs_driver s = Unlocked \<and> hs_pauseMtx s = None
      then Some (s\<lparr>hs_pauseMtx := Some DriverThread, hs_driver := Yielding\<rparr>) else None)"
| "step_guard StepGuard_end s =
     (if hs_driver s = Yielding then Some (s\<lparr>hs_pauseMtx := None, hs_driver := Outside\<rparr>) else None)"

datatype pauser_action =
  PauseGuard_try | PauseGuard_pause | PauseGuard_bump | PauseGuard_lock | PauseGuard_resume | PauseGuard_destroy | StopBump

text \<open>
  The constructor of \<^verbatim>\<open>PauseGuard\<close> line by line, and its destructor; \<^verbatim>\<open>Stop\<close> bumps the pipe without any guard.
\<close>

fun pause_guard :: "nat \<Rightarrow> pauser_action \<Rightarrow> handshake \<Rightarrow> handshake option" where
  "pause_guard p PauseGuard_try s =
     (if hs_pauser s p \<noteq> Idle then None
      else
        (case try_lock (OtherThread p) (hs_stepMtx s) of
           Some m \<Rightarrow> Some (s\<lparr>hs_stepMtx := m, hs_pauser := (hs_pauser s)(p := Guarded)\<rparr>)
         | None \<Rightarrow> Some (s\<lparr>hs_pauser := (hs_pauser s)(p := Refused)\<rparr>)))"
| "pause_guard p PauseGuard_pause s =
     (if hs_pauser s p = Refused \<and> hs_pauseMtx s = None
      then Some (s\<lparr>hs_pauseMtx := Some (OtherThread p), hs_pauser := (hs_pauser s)(p := Bumping)\<rparr>) else None)"
| "pause_guard p PauseGuard_bump s =
     (if hs_pauser s p = Bumping
      then Some (s\<lparr>hs_pipe := Suc (hs_pipe s), hs_pauser := (hs_pauser s)(p := Awaiting)\<rparr>) else None)"
| "pause_guard p PauseGuard_lock s =
     (if hs_pauser s p \<noteq> Awaiting then None
      else map_option (\<lambda>m. s\<lparr>hs_stepMtx := m, hs_pauser := (hs_pauser s)(p := Handed)\<rparr>)
             (try_lock (OtherThread p) (hs_stepMtx s)))"
| "pause_guard p PauseGuard_resume s =
     (if hs_pauser s p = Handed
      then Some (s\<lparr>hs_pauseMtx := None, hs_pauser := (hs_pauser s)(p := Guarded)\<rparr>) else None)"
| "pause_guard p PauseGuard_destroy s =
     (if hs_pauser s p \<noteq> Guarded then None
      else map_option (\<lambda>m. s\<lparr>hs_stepMtx := m, hs_pauser := (hs_pauser s)(p := Idle)\<rparr>)
             (unlock (OtherThread p) (hs_stepMtx s)))"
| "pause_guard p StopBump s = (if hs_pauser s p = Idle then Some (s\<lparr>hs_pipe := Suc (hs_pipe s)\<rparr>) else None)"

datatype hs_action = ByDriver driver_action | ByOther nat pauser_action

fun hs_act :: "hs_action \<Rightarrow> handshake \<Rightarrow> handshake option" where
  "hs_act (ByDriver a) s = step_guard a s"
| "hs_act (ByOther p a) s = pause_guard p a s"

section \<open>The invariant\<close>

fun in_step :: "driver_pc \<Rightarrow> nat option" where
  "in_step (BeforePoll k) = Some (Suc k)"
| "in_step Polling = Some 1"
| "in_step (AfterPoll k) = Some (Suc k)"
| "in_step _ = None"

text \<open>After \<^verbatim>\<open>poll\<close> the driver cannot start another step without taking the pause mutex.\<close>

fun must_yield :: "driver_pc \<Rightarrow> bool" where
  "must_yield (AfterPoll _) = True"
| "must_yield Unlocked = True"
| "must_yield _ = False"

text \<open>What the mutexes say of the driver and of one other thread; the invariant is that for all threads.\<close>

definition owner_inv :: "handshake \<Rightarrow> bool" where
  "owner_inv s \<longleftrightarrow>
     (case hs_stepMtx s of
        None \<Rightarrow> in_step (hs_driver s) = None
      | Some (DriverThread, n) \<Rightarrow> in_step (hs_driver s) = Some n
      | Some (OtherThread _, n) \<Rightarrow> in_step (hs_driver s) = None \<and> n = 1)
     \<and> (hs_pauseMtx s = Some DriverThread \<longleftrightarrow> hs_driver s = Yielding)"

definition pauser_inv :: "handshake \<Rightarrow> nat \<Rightarrow> bool" where
  "pauser_inv s p \<longleftrightarrow>
     (hs_stepMtx s = Some (OtherThread p, 1) \<longleftrightarrow> hs_pauser s p \<in> {Handed, Guarded})
     \<and> (hs_pauseMtx s = Some (OtherThread p) \<longleftrightarrow> hs_pauser s p \<in> {Bumping, Awaiting, Handed})
     \<and> (hs_pauser s p = Awaiting \<longrightarrow> 0 < hs_pipe s \<or> must_yield (hs_driver s))"

definition hs_inv :: "handshake \<Rightarrow> bool" where
  "hs_inv s \<longleftrightarrow> owner_inv s \<and> (\<forall>p. pauser_inv s p)"

lemmas hs_defs = owner_inv_def pauser_inv_def try_lock_def unlock_def

lemma mutex_cases:
  obtains "m = None" | n where "m = Some (DriverThread, n)" | q n where "m = Some (OtherThread q, n)"
  by (cases m; cases "fst (the m)") (auto simp: prod_eq_iff)

lemma step_guard_owner: "step_guard a s = Some s' \<Longrightarrow> owner_inv s \<Longrightarrow> owner_inv s'"
  by (cases a) (auto simp: hs_defs split: if_splits option.splits thread.splits driver_pc.splits nat.splits)

lemma step_guard_frame: "step_guard a s = Some s' \<Longrightarrow> hs_pauser s' = hs_pauser s"
  by (cases a) (auto split: if_splits driver_pc.splits nat.splits)

lemma step_guard_stepMtx:
  "step_guard a s = Some s' \<Longrightarrow> hs_stepMtx s' = Some (OtherThread p, n) \<longleftrightarrow> hs_stepMtx s = Some (OtherThread p, n)"
  by (cases a; rule mutex_cases [of "hs_stepMtx s"])
    (auto simp: try_lock_def unlock_def split: if_splits driver_pc.splits nat.splits)

lemma step_guard_pauseMtx:
  "step_guard a s = Some s' \<Longrightarrow> owner_inv s
    \<Longrightarrow> hs_pauseMtx s' = Some (OtherThread p) \<longleftrightarrow> hs_pauseMtx s = Some (OtherThread p)"
  by (cases a) (auto simp: owner_inv_def split: if_splits driver_pc.splits nat.splits)

lemma step_guard_pipe:
  "step_guard a s = Some s' \<Longrightarrow> owner_inv s \<Longrightarrow> hs_pauseMtx s = Some (OtherThread p)
    \<Longrightarrow> 0 < hs_pipe s \<or> must_yield (hs_driver s) \<Longrightarrow> 0 < hs_pipe s' \<or> must_yield (hs_driver s')"
  by (cases a) (auto simp: owner_inv_def split: if_splits driver_pc.splits nat.splits)

lemma step_guard_pauser:
  assumes "step_guard a s = Some s'" and "owner_inv s" and "pauser_inv s p"
  shows "pauser_inv s' p"
proof -
  have "hs_pauser s p = Awaiting \<Longrightarrow> hs_pauseMtx s = Some (OtherThread p) \<and> (0 < hs_pipe s \<or> must_yield (hs_driver s))"
    using assms(3) by (simp add: pauser_inv_def)
  then have "hs_pauser s p = Awaiting \<Longrightarrow> 0 < hs_pipe s' \<or> must_yield (hs_driver s')"
    using step_guard_pipe [OF assms(1,2)] by blast
  then show ?thesis
    using assms(3) step_guard_frame [OF assms(1)] step_guard_stepMtx [OF assms(1)] step_guard_pauseMtx [OF assms(1,2)]
    by (simp add: pauser_inv_def)
qed

lemma pause_guard_owner: "pause_guard p a s = Some s' \<Longrightarrow> owner_inv s \<Longrightarrow> pauser_inv s p \<Longrightarrow> owner_inv s'"
  by (cases a; rule mutex_cases [of "hs_stepMtx s"]) (auto simp: hs_defs split: if_splits)

lemma pause_guard_self: "pause_guard p a s = Some s' \<Longrightarrow> owner_inv s \<Longrightarrow> pauser_inv s p \<Longrightarrow> pauser_inv s' p"
  by (cases a; rule mutex_cases [of "hs_stepMtx s"]) (auto simp: hs_defs split: if_splits)

lemma pause_guard_frame:
  "pause_guard p a s = Some s' \<Longrightarrow> hs_driver s' = hs_driver s \<and> hs_pipe s \<le> hs_pipe s' \<and> (q \<noteq> p \<longrightarrow> hs_pauser s' q = hs_pauser s q)"
  by (cases a) (auto split: if_splits option.splits)

lemma pause_guard_stepMtx:
  "pause_guard p a s = Some s' \<Longrightarrow> q \<noteq> p
    \<Longrightarrow> hs_stepMtx s' = Some (OtherThread q, n) \<longleftrightarrow> hs_stepMtx s = Some (OtherThread q, n)"
  by (cases a; rule mutex_cases [of "hs_stepMtx s"]) (auto simp: try_lock_def unlock_def split: if_splits)

lemma pause_guard_pauseMtx:
  "pause_guard p a s = Some s' \<Longrightarrow> pauser_inv s p \<Longrightarrow> q \<noteq> p
    \<Longrightarrow> hs_pauseMtx s' = Some (OtherThread q) \<longleftrightarrow> hs_pauseMtx s = Some (OtherThread q)"
  by (cases a) (auto simp: pauser_inv_def split: if_splits option.splits)

lemma pause_guard_other:
  assumes "pause_guard p a s = Some s'" and "pauser_inv s p" and "pauser_inv s q" and "q \<noteq> p"
  shows "pauser_inv s' q"
proof -
  have same: "hs_pauser s' q = hs_pauser s q" "hs_driver s' = hs_driver s"
    and pipe: "0 < hs_pipe s \<Longrightarrow> 0 < hs_pipe s'"
    using pause_guard_frame [OF assms(1), of q] assms(4) by auto
  show ?thesis
    using assms(3) pipe
    unfolding pauser_inv_def same pause_guard_stepMtx [OF assms(1,4)] pause_guard_pauseMtx [OF assms(1,2,4)] by blast
qed

lemma pause_guard_pauser:
  "pause_guard p a s = Some s' \<Longrightarrow> owner_inv s \<Longrightarrow> pauser_inv s p \<Longrightarrow> pauser_inv s q \<Longrightarrow> pauser_inv s' q"
  by (cases "q = p") (auto intro: pause_guard_self pause_guard_other)

lemma hs_inv_init: "hs_inv handshake0"
  by (simp add: hs_inv_def hs_defs handshake0_def)

interpretation hs: started_system hs_act hs_inv handshake0
proof
  show "hs_inv handshake0" by (rule hs_inv_init)
  show "hs_inv s'" if "hs_act a s = Some s'" "hs_inv s" for a s s'
    using that by (cases a)
      (auto simp: hs_inv_def intro: step_guard_owner step_guard_pauser pause_guard_owner pause_guard_pauser)
qed

lemmas reached_inv = hs.reached [unfolded hs_inv_def]

section \<open>What the handshake guarantees\<close>

text \<open>
  C7. Mutual exclusion of the handshake: whatever the interleaving, while the driver is in a step no other thread
  holds a guard, and two threads never hold one at the same time, so the lists of the driver have one user.
\<close>

theorem handshake_exclusive:
  assumes "run hs_act actions handshake0 = Some s" and "hs_pauser s p = Guarded"
  shows "in_step (hs_driver s) = None \<and> (\<forall>q. hs_pauser s q = Guarded \<longrightarrow> q = p)"
proof -
  have inv: "owner_inv s" "pauser_inv s q" for q using reached_inv [OF assms(1)] by blast+
  have holds: "hs_stepMtx s = Some (OtherThread q, 1)" if "hs_pauser s q = Guarded" for q
    using inv(2) [of q] that by (simp add: pauser_inv_def)
  then have "hs_stepMtx s = Some (OtherThread p, 1)" using assms(2) .
  with inv(1) holds show ?thesis by (auto simp: owner_inv_def dest!: holds)
qed

definition contended :: "hs_action list" where
  "contended = [ByDriver StepGuard_lock, ByDriver BeginPoll, ByOther 0 PauseGuard_try, ByOther 1 PauseGuard_try,
     ByOther 0 PauseGuard_pause, ByOther 0 PauseGuard_bump]"

definition yielded :: "hs_action list" where
  "yielded = [ByDriver PollPipe, ByDriver StepGuard_unlock, ByOther 0 PauseGuard_lock, ByOther 0 PauseGuard_resume]"

theorem handshake_exclusive_witness:
  "in_step (hs_driver (the (run hs_act (contended @ yielded) handshake0))) = None
    \<and> hs_pauser (the (run hs_act (contended @ yielded) handshake0)) 1 = Refused"
proof -
  let ?s = "the (run hs_act (contended @ yielded) handshake0)"
  have 1: "hs_pauser ?s 0 = Guarded" "hs_pauser ?s 1 = Refused" "run hs_act (contended @ yielded) handshake0 \<noteq> None"
    by code_simp+
  then have "run hs_act (contended @ yielded) handshake0 = Some ?s" by auto
  from handshake_exclusive [OF this 1(1)] 1(2) show ?thesis by simp
qed

lemma awaiting_act:
  assumes "hs_act a s = Some s'" and "hs_inv s" and "hs_pauser s p = Awaiting" and "a \<noteq> ByOther p PauseGuard_lock"
  shows "hs_pauser s' p = Awaiting"
    and "hs_driver s \<noteq> Outside \<Longrightarrow> hs_driver s' \<noteq> Outside \<and> a \<noteq> ByDriver StepGuard_lock"
    and "a = ByDriver StepGuard_lock \<Longrightarrow> hs_driver s' \<noteq> Outside"
proof -
  have inv: "owner_inv s" "pauser_inv s p" using assms(2) by (simp_all add: hs_inv_def)
  then have "hs_pauseMtx s = Some (OtherThread p)" using assms(3) by (simp add: pauser_inv_def)
  then have y: "hs_driver s \<noteq> Yielding" using inv(1) by (simp add: owner_inv_def)
  show "hs_pauser s' p = Awaiting"
  proof (cases a)
    case (ByDriver d) then show ?thesis using assms(1,3) step_guard_frame [of d s s'] by simp
  next
    case (ByOther q b) then show ?thesis
      using assms(1,3,4) by (cases b; cases "q = p") (auto split: if_splits option.splits)
  qed
  show "hs_driver s \<noteq> Outside \<Longrightarrow> hs_driver s' \<noteq> Outside \<and> a \<noteq> ByDriver StepGuard_lock"
  proof (cases a)
    case (ByDriver d)
    then show "hs_driver s \<noteq> Outside \<Longrightarrow> ?thesis"
      using assms(1) y by (cases d) (auto split: if_splits driver_pc.splits nat.splits)
  next
    case (ByOther q b)
    then show "hs_driver s \<noteq> Outside \<Longrightarrow> ?thesis" using assms(1) pause_guard_frame [of q b s s'] by simp
  qed
  show "a = ByDriver StepGuard_lock \<Longrightarrow> hs_driver s' \<noteq> Outside"
    using assms(1) by (auto split: if_splits)
qed

text \<open>
  C8. The handshake bounds overtaking: once a thread has bumped the pipe and waits for the step mutex, a driver that
  is in a step or leaving one never starts another step before that thread has the mutex, and a driver outside
  of a step starts at most one, whatever the other threads do.
\<close>

theorem handshake_overtakes_once:
  assumes "run hs_act actions handshake0 = Some s" and "hs_pauser s p = Awaiting"
    and "run hs_act later s = Some s'" and "ByOther p PauseGuard_lock \<notin> set later"
  shows "count_list later (ByDriver StepGuard_lock) \<le> (if hs_driver s = Outside then 1 else 0)"
proof -
  have "hs_inv s" by (rule hs.reached [OF assms(1)])
  with assms(2-) show ?thesis
  proof (induction later arbitrary: s)
    case (Cons a later)
    then obtain s1 where 1: "hs_act a s = Some s1" "run hs_act later s1 = Some s'" by (auto split: option.splits)
    from Cons.prems(3) have "a \<noteq> ByOther p PauseGuard_lock" "ByOther p PauseGuard_lock \<notin> set later" by auto
    note step = awaiting_act [OF 1(1) Cons.prems(4,1) this(1)] and IH = Cons.IH [OF _ 1(2) this(2) hs.inv_act [OF 1(1) Cons.prems(4)]]
    from IH [OF step(1)] step(2,3) show ?case by (auto split: if_splits)
  qed simp
qed

theorem handshake_overtakes_once_witness:
  "count_list [ByDriver PollPipe, ByDriver StepGuard_unlock, ByOther 2 PauseGuard_try] (ByDriver StepGuard_lock) = 0"
proof -
  let ?s = "the (run hs_act contended handshake0)" and ?m = "[ByDriver PollPipe, ByDriver StepGuard_unlock, ByOther 2 PauseGuard_try]"
  have 1: "run hs_act contended handshake0 \<noteq> None" "hs_pauser ?s 0 = Awaiting" "run hs_act ?m ?s \<noteq> None" "hs_driver ?s = Polling"
    by code_simp+
  then have "run hs_act contended handshake0 = Some ?s" "run hs_act ?m ?s = Some (the (run hs_act ?m ?s))" by auto
  from handshake_overtakes_once [OF this(1) 1(2) this(2)] 1(4) show ?thesis by simp
qed

text \<open>The driver's thread on its own: handlers release their guards, then the step goes on to its end.\<close>

fun next_action :: "driver_pc \<Rightarrow> driver_action option" where
  "next_action (BeforePoll 0) = Some BeginPoll"
| "next_action (BeforePoll (Suc _)) = Some Unnest"
| "next_action Polling = Some PollPipe"
| "next_action (AfterPoll 0) = Some StepGuard_unlock"
| "next_action (AfterPoll (Suc _)) = Some Unnest"
| "next_action _ = None"

fun drive :: "nat \<Rightarrow> handshake \<Rightarrow> handshake option" where
  "drive 0 s = Some s"
| "drive (Suc i) s =
     (case next_action (hs_driver s) of
        None \<Rightarrow> None
      | Some a \<Rightarrow> (case step_guard a s of None \<Rightarrow> None | Some s \<Rightarrow> drive i s))"

lemma drive_after:
  "hs_driver s = AfterPoll k \<Longrightarrow> hs_stepMtx s = Some (DriverThread, Suc k)
    \<Longrightarrow> drive (Suc k) s = Some (s\<lparr>hs_stepMtx := None, hs_driver := Unlocked\<rparr>)"
  by (induction k arbitrary: s) (auto simp: unlock_def)

lemma drive_polling:
  "hs_driver s = Polling \<Longrightarrow> hs_stepMtx s = Some (DriverThread, 1) \<Longrightarrow> 0 < hs_pipe s
    \<Longrightarrow> \<exists>s'. drive (Suc (Suc 0)) s = Some s' \<and> hs_stepMtx s' = None \<and> hs_pauser s' = hs_pauser s"
  by (auto simp: unlock_def)

lemma drive_before:
  "hs_driver s = BeforePoll k \<Longrightarrow> hs_stepMtx s = Some (DriverThread, Suc k) \<Longrightarrow> 0 < hs_pipe s
    \<Longrightarrow> \<exists>s'. drive (Suc (Suc (Suc k))) s = Some s' \<and> hs_stepMtx s' = None \<and> hs_pauser s' = hs_pauser s"
proof (induction k arbitrary: s)
  case 0
  then show ?case using drive_polling [of "s\<lparr>hs_driver := Polling\<rparr>"] by simp
next
  case (Suc k)
  then show ?case
    using Suc.IH [of "s\<lparr>hs_stepMtx := Some (DriverThread, Suc k), hs_driver := BeforePoll k\<rparr>"] by (simp add: unlock_def)
qed

text \<open>
  C9. No bump is lost in the handshake: a thread that waits for the step mutex while the driver is in a step, even
  blocked in \<^verbatim>\<open>poll\<close>, gets the mutex after boundedly many actions of the driver, because the datagram it sent is still in the pipe
  unless the driver is on its way out.
\<close>

theorem handshake_wakes_driver:
  assumes "run hs_act actions handshake0 = Some s" and "hs_pauser s p = Awaiting"
    and "in_step (hs_driver s) = Some n"
  shows "\<exists>i s'. i \<le> n + 2 \<and> drive i s = Some s' \<and> pause_guard p PauseGuard_lock s' \<noteq> None"
proof -
  have inv: "owner_inv s" "pauser_inv s p" using reached_inv [OF assms(1)] by blast+
  have m: "hs_stepMtx s = Some (DriverThread, n)"
    using inv(1) assms(3) by (cases rule: mutex_cases [of "hs_stepMtx s"]) (auto simp: owner_inv_def)
  have pipe: "0 < hs_pipe s \<or> must_yield (hs_driver s)" using inv(2) assms(2) by (simp add: pauser_inv_def)
  have lock: "pause_guard p PauseGuard_lock s' \<noteq> None" if "hs_stepMtx s' = None" "hs_pauser s' = hs_pauser s" for s'
    using that assms(2) by (simp add: try_lock_def)
  have found: ?thesis if "drive i s = Some s'" "hs_stepMtx s' = None" "hs_pauser s' = hs_pauser s" "i \<le> n + 2" for i s'
    using lock [OF that(2,3)] that(1,4) by blast
  show ?thesis
  proof (cases "hs_driver s")
    case (BeforePoll k)
    with assms(3) m pipe have "n = Suc k" "hs_stepMtx s = Some (DriverThread, Suc k)" "0 < hs_pipe s" by simp_all
    from drive_before [OF BeforePoll this(2,3)] obtain s' where
      "drive (Suc (Suc (Suc k))) s = Some s'" "hs_stepMtx s' = None" "hs_pauser s' = hs_pauser s" by blast
    then show ?thesis by (rule found) (simp add: \<open>n = Suc k\<close>)
  next
    case Polling
    with assms(3) m pipe have "n = 1" "hs_stepMtx s = Some (DriverThread, 1)" "0 < hs_pipe s" by simp_all
    from drive_polling [OF Polling this(2,3)] obtain s' where
      "drive (Suc (Suc 0)) s = Some s'" "hs_stepMtx s' = None" "hs_pauser s' = hs_pauser s" by blast
    then show ?thesis by (rule found) (simp add: \<open>n = 1\<close>)
  next
    case (AfterPoll k)
    with assms(3) m have "n = Suc k" "hs_stepMtx s = Some (DriverThread, Suc k)" by simp_all
    from drive_after [OF AfterPoll this(2)] show ?thesis by (rule found) (simp_all add: \<open>n = Suc k\<close>)
  qed (use assms(3) in auto)
qed

theorem handshake_wakes_driver_witness:
  "\<exists>i s'. i \<le> 3 \<and> drive i (the (run hs_act contended handshake0)) = Some s' \<and> pause_guard 0 PauseGuard_lock s' \<noteq> None"
proof -
  let ?s = "the (run hs_act contended handshake0)"
  have 1: "run hs_act contended handshake0 \<noteq> None" "hs_pauser ?s 0 = Awaiting" "in_step (hs_driver ?s) = Some 1"
    by code_simp+
  then have "run hs_act contended handshake0 = Some ?s" by auto
  from handshake_wakes_driver [OF this 1(2,3)] show ?thesis by (simp only: one_add_one [symmetric] numeral_3_eq_3 add_Suc_right add_0_right One_nat_def numeral_2_eq_2 plus_nat.add_0 add_Suc)
qed

section \<open>The destructor of the driver\<close>

text \<open>
  The destructor of \<^verbatim>\<open>DriverImpl\<close> takes a guard to wait for the end of \<^verbatim>\<open>Step\<close>.  It waits for the step
  mutex only: here its guard is complete and gone while the driver's thread still has to lock the pause mutex,
  a member of the object that is destroyed next.
\<close>

lemma destructor_overtakes_step:
  "map_option (\<lambda>s. (hs_driver s, hs_pauser s 0, hs_stepMtx s, hs_pauseMtx s))
     (run hs_act (contended @ yielded @ [ByOther 0 PauseGuard_destroy]) handshake0)
   = Some (Unlocked, Idle, None, None)"
  by code_simp

end
