(* ===== verification/SendRace.thy ===== *)
theory SendRace
  imports Handshake DriverSpec
begin

text \<open>
  \<^verbatim>\<open>Send\<close> from any thread against the driver: the queue has its own mutex, the events to poll for belong to the
  step mutex, so a request is queued and announced in two parts, and the driver takes it and stops
  polling in two parts.  The parts are those of theory \<open>Async\<close>, on the shared heap, in any order the mutexes allow.
\<close>

section \<open>The parts and their interleavings\<close>

text \<open>
  The driver's thread as seen by one socket: outside of a step, in one, with \<^verbatim>\<open>poll\<close> having reported this
  socket writable, and back from \<^verbatim>\<open>DriverOnWritable\<close> with its result or an exception.
\<close>

datatype race_pc = NotStepping | InStep | WritableReported | Served bool | Failed exn

text \<open>A thread owes the driver a request from \<^verbatim>\<open>DoSendEnqueue\<close> on an empty queue until \<^verbatim>\<open>AsyncWantSend\<close>.\<close>

record 'w race =
  ra_heap :: "'w heap"
  ra_driver :: race_pc
  ra_owes :: "thread \<Rightarrow> bool"

datatype race_action =
    Enqueue thread promise_id buf_ref | EnqueueTo thread promise_id buf_ref address | WantSend thread
  | BeginStep | PollWritable | OnWritable | ClearPollout | EndStep

text \<open>
  A handler may send too, on the driver's thread; it then has the step mutex already.  Any other thread gets the
  step mutex between steps.
\<close>

definition may_send :: "thread \<Rightarrow> 'w race \<Rightarrow> bool" where
  "may_send t s \<longleftrightarrow> \<not> ra_owes s t \<and> (t = DriverThread \<longrightarrow> ra_driver s = InStep)"

definition has_step_lock :: "thread \<Rightarrow> 'w race \<Rightarrow> bool" where
  "has_step_lock t s \<longleftrightarrow> ra_driver s = (if t = DriverThread then InStep else NotStepping)"

definition driver_runs :: "'w race \<Rightarrow> bool" where
  "driver_runs s \<longleftrightarrow> ra_driver s = InStep \<and> \<not> ra_owes s DriverThread"

definition enqueued :: "thread \<Rightarrow> (exn + bool) \<times> 'w heap \<Rightarrow> 'w race \<Rightarrow> 'w race option" where
  "enqueued t r s =
     (case r of
        (Inl _, _) \<Rightarrow> None
      | (Inr wasEmpty, h) \<Rightarrow> Some (s\<lparr>ra_heap := h, ra_owes := (ra_owes s)(t := wasEmpty)\<rparr>))"

fun race_act :: "'w env \<Rightarrow> nat \<Rightarrow> sock_id \<Rightarrow> race_action \<Rightarrow> 'w race \<Rightarrow> 'w race option" where
  "race_act env n k (Enqueue t promise buffer) s =
     (if may_send t s then enqueued t (DoSendEnqueue k promise buffer (ra_heap s)) s else None)"
| "race_act env n k (EnqueueTo t promise buffer addr) s =
     (if may_send t s then enqueued t (DoSendEnqueue_to k promise buffer addr (ra_heap s)) s else None)"
| "race_act env n k (WantSend t) s =
     (if ra_owes s t \<and> has_step_lock t s
      then
        (case AsyncWantSend (DriverGetFd (ra_heap s) k) (ra_heap s) of
           (Inl _, _) \<Rightarrow> None
         | (Inr _, h) \<Rightarrow> Some (s\<lparr>ra_heap := h, ra_owes := (ra_owes s)(t := False)\<rparr>))
      else None)"
| "race_act env n k BeginStep s = (if ra_driver s = NotStepping then Some (s\<lparr>ra_driver := InStep\<rparr>) else None)"
| "race_act env n k PollWritable s =
     (if driver_runs s \<and> POLLOUT \<in> pfd_events (h_pfds (ra_heap s) ! n)
      then Some (s\<lparr>ra_driver := WritableReported\<rparr>) else None)"
| "race_act env n k OnWritable s =
     (if ra_driver s \<noteq> WritableReported then None
      else
        (case DriverOnWritable env k (ra_heap s) of
           (Inl e, h) \<Rightarrow> Some (s\<lparr>ra_heap := h, ra_driver := Failed e\<rparr>)
         | (Inr emptied, h) \<Rightarrow> Some (s\<lparr>ra_heap := h, ra_driver := Served emptied\<rparr>)))"
| "race_act env n k ClearPollout s =
     (case ra_driver s of
        Served emptied \<Rightarrow>
          Some (s\<lparr>ra_driver := InStep,
            ra_heap := (if emptied then (ra_heap s)\<lparr>h_pfds := (h_pfds (ra_heap s))[n := remove_event POLLOUT (h_pfds (ra_heap s) ! n)]\<rparr>
              else ra_heap s)\<rparr>)
      | _ \<Rightarrow> None)"
| "race_act env n k EndStep s = (if driver_runs s then Some (s\<lparr>ra_driver := NotStepping\<rparr>) else None)"

section \<open>The invariant\<close>

text \<open>
  The socket is polled for writing, leaving aside an event that is about to be cleared, just when its queue has
  elements and nobody owes a request; at most one thread owes one.
\<close>

definition owed :: "nat \<Rightarrow> bool \<Rightarrow> (thread \<Rightarrow> bool) \<Rightarrow> bool" where
  "owed q polled owes \<longleftrightarrow>
     (if polled then q \<noteq> 0 \<and> owes = (\<lambda>_. False)
      else if q = 0 then owes = (\<lambda>_. False)
      else (\<exists>t. owes = (\<lambda>u. u = t)))"

definition race_ok :: "nat \<Rightarrow> bool \<Rightarrow> race_pc \<Rightarrow> (thread \<Rightarrow> bool) \<Rightarrow> bool" where
  "race_ok q out pc owes \<longleftrightarrow>
     owed q (out \<and> pc \<noteq> Served True) owes \<and> (pc = WritableReported \<or> (\<exists>b. pc = Served b) \<longrightarrow> out)"

lemma owed_enqueue:
  assumes "owed q polled owes" and "\<not> owes t"
  shows "owed (Suc q) polled (owes(t := (q = 0)))"
proof (cases "q = 0")
  case True
  with assms(1) have none: "owes = (\<lambda>_. False)" "\<not> polled" by (simp_all add: owed_def split: if_splits)
  have "owes(t := (q = 0)) = (\<lambda>u. u = t)" by (rule ext) (use none True in simp)
  with none(2) show ?thesis unfolding owed_def by auto
next
  case False
  have "owes(t := (q = 0)) = owes" by (rule ext) (use False assms(2) in simp)
  with False assms(1) show ?thesis unfolding \<open>owes(t := (q = 0)) = owes\<close> by (simp add: owed_def)
qed

lemma race_ok_enqueue:
  "race_ok q out pc owes \<Longrightarrow> \<not> owes t \<Longrightarrow> race_ok (Suc q) out pc (owes(t := (q = 0)))"
  unfolding race_ok_def using owed_enqueue by blast

lemmas race_ok_defs = race_ok_def owed_def

lemma race_ok_want:
  assumes "race_ok q out pc owes" and "owes t" and "pc = NotStepping \<or> pc = InStep"
  shows "race_ok q True pc (owes(t := False))"
proof -
  have "q \<noteq> 0" "owes = (\<lambda>u. u = t)" using assms(1,2) by (auto simp: race_ok_defs fun_eq_iff split: if_splits)
  with assms(3) show ?thesis by (auto simp: race_ok_defs fun_upd_def)
qed

lemma race_ok_served:
  "race_ok q out WritableReported owes \<Longrightarrow> race_ok (q - 1) out (Served (q = 1)) owes"
  by (cases "q = 1") (auto simp: race_ok_defs)

lemma race_ok_same:
  "race_ok q out pc owes \<Longrightarrow> pc \<noteq> Served True \<Longrightarrow> pc' \<noteq> Served True
    \<Longrightarrow> (pc' = WritableReported \<or> (\<exists>b. pc' = Served b) \<Longrightarrow> out) \<Longrightarrow> race_ok q out pc' owes"
  unfolding race_ok_defs by (simp only: not_False_eq_True simp_thms) blast

lemma race_ok_reported: "race_ok q out WritableReported owes \<Longrightarrow> q \<noteq> 0"
  by (simp add: race_ok_defs)

lemma race_ok_idle: "race_ok q out pc owes \<Longrightarrow> pc = NotStepping \<Longrightarrow> \<forall>t. \<not> owes t \<Longrightarrow> q \<noteq> 0 \<Longrightarrow> out"
  by (rule ccontr) (auto simp: race_ok_defs)

lemma race_ok_cleared: "race_ok q out (Served True) owes \<Longrightarrow> race_ok q False InStep owes"
  by (simp add: race_ok_defs)

definition sock_queue :: "sock_id \<Rightarrow> 'w heap \<Rightarrow> nat" where
  "sock_queue k h = queue_length (as_sendQ (h_async h k))"

definition polls_out :: "nat \<Rightarrow> 'w heap \<Rightarrow> bool" where
  "polls_out n h \<longleftrightarrow> POLLOUT \<in> pfd_events (h_pfds h ! n)"

definition entry_at :: "nat \<Rightarrow> sock_id \<Rightarrow> 'w heap \<Rightarrow> bool" where
  "entry_at n k h \<longleftrightarrow> n < length (h_pfds h) \<and> find_index (FdEqual_pfd (DriverGetFd h k)) (h_pfds h) = n"

definition race_inv :: "'w env \<Rightarrow> nat \<Rightarrow> sock_id \<Rightarrow> 'w race \<Rightarrow> bool" where
  "race_inv env n k s \<longleftrightarrow> plain_env env \<and> entry_at n k (ra_heap s)
     \<and> race_ok (sock_queue k (ra_heap s)) (polls_out n (ra_heap s)) (ra_driver s) (ra_owes s)"

lemma DoSendEnqueue_race:
  assumes "enqueues k m" and "m h = (Inr wasEmpty, h')" and "entry_at n k h"
  shows "wasEmpty = (sock_queue k h = 0)" and "sock_queue k h' = Suc (sock_queue k h)"
    and "polls_out n h' = polls_out n h" and "entry_at n k h'"
proof -
  obtain q where "h' = grown k q h" "queue_length q = Suc (sock_queue k h)" "wasEmpty = (sock_queue k h = 0)"
    using assms(1,2) by (fastforce simp: enqueues_def grown_def sock_queue_def)
  then show "wasEmpty = (sock_queue k h = 0)" "sock_queue k h' = Suc (sock_queue k h)"
    "polls_out n h' = polls_out n h" "entry_at n k h'"
    using assms(3) by (simp_all add: sock_queue_def polls_out_def entry_at_def) (simp_all add: grown_def upd_async_def)
qed

lemma find_index_update_pfd:
  "pfd_fd p = pfd_fd (ps ! n) \<Longrightarrow> find_index (FdEqual_pfd s) (ps[n := p]) = find_index (FdEqual_pfd s) ps"
proof (induction ps arbitrary: n)
  case (Cons x ps) then show ?case by (cases n) (simp_all add: find_index_def FdEqual_pfd_def)
qed simp

lemma AsyncWantSend_race:
  assumes "entry_at n k h"
  shows "\<exists>h'. AsyncWantSend (DriverGetFd h k) h = (Inr (), h') \<and> sock_queue k h' = sock_queue k h
    \<and> polls_out n h' \<and> entry_at n k h'"
  using assms by (simp add: AsyncWantSend_def entry_at_def find_index_update_pfd add_event_def polls_out_def sock_queue_def DriverGetFd_def)

lemma clear_race:
  assumes "entry_at n k h"
  defines "h' \<equiv> h\<lparr>h_pfds := (h_pfds h)[n := remove_event POLLOUT (h_pfds h ! n)]\<rparr>"
  shows "sock_queue k h' = sock_queue k h" and "\<not> polls_out n h'" and "entry_at n k h'"
  using assms by (simp_all add: entry_at_def find_index_update_pfd remove_event_def polls_out_def sock_queue_def DriverGetFd_def)

lemma lists_of_race:
  assumes "lists_of g = lists_of h"
  shows "sock_queue k g = sock_queue k h" and "polls_out n g = polls_out n h" and "entry_at n k g = entry_at n k h"
  using assms by (simp_all add: lists_of_def sock_queue_def polls_out_def entry_at_def DriverGetFd_def)

lemma pop_race:
  "sock_queue k (upd_async k (\<lambda>a. a\<lparr>as_sendQ := send_queue_tl (as_sendQ a)\<rparr>) h) = sock_queue k h - 1"
  "polls_out n (upd_async k (\<lambda>a. a\<lparr>as_sendQ := send_queue_tl (as_sendQ a)\<rparr>) h) = polls_out n h"
  "entry_at n k (upd_async k (\<lambda>a. a\<lparr>as_sendQ := send_queue_tl (as_sendQ a)\<rparr>) h) = entry_at n k h"
  by (simp_all add: sock_queue_def polls_out_def entry_at_def DriverGetFd_def upd_async_def)

lemma OnWritable_race:
  assumes "plain_env env" and "DriverOnWritable env k h = (r, h')" and "entry_at n k h"
    and "race_ok (sock_queue k h) (polls_out n h) WritableReported owes"
  shows "entry_at n k h'"
    and "race_ok (sock_queue k h') (polls_out n h') (case r of Inl e \<Rightarrow> Failed e | Inr emptied \<Rightarrow> Served emptied) owes"
proof -
  from assms(1,2) have "entry_at n k h' \<and> race_ok (sock_queue k h') (polls_out n h') (case r of Inl e \<Rightarrow> Failed e | Inr emptied \<Rightarrow> Served emptied) owes"
  proof (cases rule: DriverOnWritable_lists)
    case kept
    note same = lists_of_race [OF kept(1)]
    have "(case r of Inl e \<Rightarrow> Failed e | Inr emptied \<Rightarrow> Served emptied) \<noteq> Served True" using kept(2) by (cases r) auto
    moreover have "polls_out n h" using assms(4) by (simp add: race_ok_def)
    ultimately show ?thesis using assms(3,4) same by (auto intro: race_ok_same)
  next
    case (popped b)
    have "b = (sock_queue k h = 1)" using popped(4) by (simp only: sock_queue_def)
    with popped(2) race_ok_served [OF assms(4)] assms(3) show ?thesis
      by (simp add: lists_of_race [OF popped(1)] pop_race)
  qed
  then show "entry_at n k h'"
    and "race_ok (sock_queue k h') (polls_out n h') (case r of Inl e \<Rightarrow> Failed e | Inr emptied \<Rightarrow> Served emptied) owes"
    by simp_all
qed

lemma race_act_inv:
  assumes "race_act env n k a s = Some s'" and "race_inv env n k s"
  shows "race_inv env n k s'"
proof -
  have env: "plain_env env" and at: "entry_at n k (ra_heap s)"
    and ok: "race_ok (sock_queue k (ra_heap s)) (polls_out n (ra_heap s)) (ra_driver s) (ra_owes s)"
    using assms(2) by (simp_all add: race_inv_def)
  have enq: "race_inv env n k s'"
    if m: "enqueues k m" and t: "may_send t s" and run0: "enqueued t (m (ra_heap s)) s = Some s'" for m t
  proof -
    obtain w h where run: "m (ra_heap s) = (Inr w, h)" and s': "s' = s\<lparr>ra_heap := h, ra_owes := (ra_owes s)(t := w)\<rparr>"
      using run0 by (cases "m (ra_heap s)") (auto simp: enqueued_def split: sum.splits)
    from DoSendEnqueue_race [OF m run at] race_ok_enqueue [OF ok] t s' env show ?thesis
      by (simp add: race_inv_def may_send_def)
  qed
  show ?thesis
  proof (cases a)
    case (WantSend t)
    obtain h where h: "AsyncWantSend (DriverGetFd (ra_heap s) k) (ra_heap s) = (Inr (), h)"
      "sock_queue k h = sock_queue k (ra_heap s)" "polls_out n h" "entry_at n k h" using AsyncWantSend_race [OF at] by blast
    with WantSend assms(1) have s': "ra_owes s t" "ra_driver s = NotStepping \<or> ra_driver s = InStep"
      "s' = s\<lparr>ra_heap := h, ra_owes := (ra_owes s)(t := False)\<rparr>" by (auto simp: has_step_lock_def split: if_splits)
    with race_ok_want [OF ok s'(1,2)] h env show ?thesis by (simp add: race_inv_def)
  next
    case PollWritable
    with assms(1) have "ra_driver s = InStep" "polls_out n (ra_heap s)" "s' = s\<lparr>ra_driver := WritableReported\<rparr>"
      by (auto simp: driver_runs_def polls_out_def split: if_splits)
    with ok env at show ?thesis by (auto simp: race_inv_def intro: race_ok_same)
  next
    case OnWritable
    obtain r h where r: "DriverOnWritable env k (ra_heap s) = (r, h)" by fastforce
    from OnWritable assms(1) r have "ra_driver s = WritableReported"
      and s': "s' = s\<lparr>ra_heap := h, ra_driver := (case r of Inl e \<Rightarrow> Failed e | Inr emptied \<Rightarrow> Served emptied)\<rparr>"
      by (auto split: if_splits sum.splits)
    with OnWritable_race [OF env r at, of "ra_owes s"] ok env show ?thesis by (simp add: race_inv_def)
  next
    case ClearPollout
    with assms(1) obtain b where b: "ra_driver s = Served b" by (auto split: race_pc.splits)
    note clear = clear_race [OF at]
    show ?thesis
    proof (cases b)
      case True
      with b ClearPollout assms(1) clear ok env show ?thesis by (auto simp: race_inv_def intro: race_ok_cleared)
    next
      case False
      with b ClearPollout assms(1) ok env at show ?thesis by (auto simp: race_inv_def intro: race_ok_same)
    qed
  next
    case (Enqueue t p b)
    with assms(1) show ?thesis by (intro enq [OF enqueues_SendQ]) (auto split: if_splits)
  next
    case (EnqueueTo t p b d)
    with assms(1) show ?thesis by (intro enq [OF enqueues_SendToQ]) (auto split: if_splits)
  qed (use assms(1) ok env at in \<open>auto simp: race_inv_def driver_runs_def split: if_splits intro: race_ok_same\<close>)
qed

interpretation race: action_system "race_act env n k" "race_inv env n k"
  by standard (rule race_act_inv)

text \<open>A driver between two steps, with nobody in the middle of a \<^verbatim>\<open>Send\<close>.\<close>

definition race0 :: "'w heap \<Rightarrow> 'w race" where
  "race0 h = \<lparr>ra_heap = h, ra_driver = NotStepping, ra_owes = (\<lambda>_. False)\<rparr>"

lemma race0_inv:
  assumes "plain_env env" and "driver_ok h" and "i < length (h_sockets h)"
  shows "race_inv env (Suc i) (h_sockets h ! i) (race0 h)"
  using assms driver_ok_find_pfd [OF assms(2,3)] driver_ok_length [OF assms(2)] driver_ok_entry [OF assms(2,3)]
  by (simp add: race_inv_def race0_def entry_at_def race_ok_defs sock_queue_def polls_out_def entry_ok_def)

text \<open>
  C6. The race between \<^verbatim>\<open>Send\<close> and the driver is benign: in every interleaving of threads that send with the
  driver's steps, the driver finds an element in the queue whenever the socket is reported writable, so that \<^verbatim>\<open>uncalled sendto\<close>
  is never thrown, and an element in the queue that no thread is about to announce is being polled for.
\<close>

theorem send_race:
  assumes "plain_env env" and "driver_ok h" and "i < length (h_sockets h)" and "k = h_sockets h ! i"
    and "run (race_act env (Suc i) k) actions (race0 h) = Some s"
  shows "(ra_driver s = WritableReported \<longrightarrow> queue_length (as_sendQ (h_async (ra_heap s) k)) \<noteq> 0)
    \<and> (queue_length (as_sendQ (h_async (ra_heap s) k)) \<noteq> 0 \<and> ra_driver s = NotStepping \<and> (\<forall>t. \<not> ra_owes s t)
        \<longrightarrow> POLLOUT \<in> pfd_events (h_pfds (ra_heap s) ! Suc i))"
proof -
  have "race_inv env (Suc i) k s" using race.run_inv [OF assms(5)] race0_inv [OF assms(1-3)] assms(4) by simp
  then have ok: "race_ok (sock_queue k (ra_heap s)) (polls_out (Suc i) (ra_heap s)) (ra_driver s) (ra_owes s)"
    by (simp add: race_inv_def)
  show ?thesis using race_ok_reported [of _ _ "ra_owes s"] race_ok_idle [OF ok] ok by (auto simp: sock_queue_def polls_out_def)
qed

text \<open>
  A request is written; another is queued between the driver's look at the queue and its clearing of the
  event, and announced after the step.
\<close>

definition racing :: "race_action list" where
  "racing = [BeginStep, PollWritable, OnWritable, Enqueue (OtherThread 0) 2 \<lparr>br_pool = 0, br_ptr = 0\<rparr>,
     ClearPollout, EndStep, WantSend (OtherThread 0), BeginStep, PollWritable]"

definition one_heap :: "script heap" where
  "one_heap = upd_async 7 (\<lambda>a. a\<lparr>as_sendQ := SendQ [(1, \<lparr>br_pool = 0, br_ptr = 1\<rparr>)]\<rparr>) (test_heap [2])"

lemma one_heap_ok: "driver_ok one_heap"
  by (simp add: driver_ok_def entry_ok_def DriverGetFd_def one_heap_def upd_async_def test_heap_def)

theorem send_race_witness:
  "\<exists>s. run (race_act test_env 1 7) racing (race0 one_heap) = Some s \<and> queue_length (as_sendQ (h_async (ra_heap s) 7)) \<noteq> 0"
proof -
  have "map_option ra_driver (run (race_act test_env 1 7) racing (race0 one_heap)) = Some WritableReported"
    by code_simp
  then obtain s where s: "run (race_act test_env (Suc 0) 7) racing (race0 one_heap) = Some s" "ra_driver s = WritableReported"
    by auto
  have "0 < length (h_sockets one_heap)" "7 = h_sockets one_heap ! 0"
    by (simp_all add: one_heap_def upd_async_def test_heap_def)
  from send_race [OF test_env_ok(1) one_heap_ok this s(1)] s show ?thesis by simp
qed

end
