(* ===== verification/Tls.thy ===== *)
theory Tls
  imports Socket Guards ErrorCode
begin

text \<open>
  \<^verbatim>\<open>src/socket_tls_impl.cpp\<close>: the TLS socket, which runs OpenSSL on top of the plain socket, and the TLS
  acceptor.  OpenSSL is a parameter.  The sources hand it two callbacks that read and write the plain
  socket, so one of its calls is a tree: it ends with a result, or it calls back and continues with
  what the callback returned.  Every node holds the session at that point, because an exception of
  a callback leaves the call there.
\<close>

section \<open>OpenSSL\<close>

datatype ssl_error =
    SSL_ERROR_NONE | SSL_ERROR_SSL | SSL_ERROR_WANT_READ | SSL_ERROR_WANT_WRITE
  | SSL_ERROR_SYSCALL | SSL_ERROR_ZERO_RETURN | SSL_ERROR_OTHER int

datatype ('l, 'a) ssl_call =
    Finished 'l 'a
  | CallRead 'l int "int \<times> bool \<times> string \<Rightarrow> ('l, 'a) ssl_call"
  | CallWrite 'l string "int \<times> bool \<Rightarrow> ('l, 'a) ssl_call"

text \<open>What the sources call on a session.  \<open>SSL_read\<close> also yields the bytes it wrote to the caller's memory.\<close>

record 'l openssl =
  SSL_read :: "'l \<Rightarrow> int \<Rightarrow> ('l, int \<times> string) ssl_call"
  SSL_write_ex :: "'l \<Rightarrow> string \<Rightarrow> ('l, int \<times> nat) ssl_call"
  SSL_shutdown :: "'l \<Rightarrow> ('l, int) ssl_call"
  SSL_get_error :: "'l \<Rightarrow> int \<Rightarrow> ssl_error"
  SSL_is_init_finished :: "'l \<Rightarrow> bool"
  SSL_set_connect_state :: "'l \<Rightarrow> 'l"
  SSL_set_accept_state :: "'l \<Rightarrow> 'l"
  ssl_error_number :: "ssl_error \<Rightarrow> int"

section \<open>The socket\<close>

text \<open>
  A \<^verbatim>\<open>string_view\<close> is the address and the length of bytes in the memory of the process, which the
  sending operations take as an argument.
\<close>

type_synonym memory = "nat \<Rightarrow> char"

type_synonym string_view = "nat \<times> nat"

definition view_content :: "memory \<Rightarrow> string_view \<Rightarrow> string" where
  "view_content mem v = map mem [fst v ..< fst v + snd v]"

record 'l tls_sock =
  t_fd :: fd
  t_ssl :: 'l
  t_lastError :: ssl_error
  t_pendingSend :: string_view
  t_remainingTime :: duration
  t_isReadable :: bool
  t_isWritable :: bool
  t_driverSendSuppressed :: bool

definition new_tls_sock :: "fd \<Rightarrow> 'l \<Rightarrow> 'l tls_sock" where
  "new_tls_sock s ssl = \<lparr>t_fd = s, t_ssl = ssl, t_lastError = SSL_ERROR_NONE, t_pendingSend = (0, 0),
     t_remainingTime = 0, t_isReadable = False, t_isWritable = False, t_driverSendSuppressed = False\<rparr>"

text \<open>An operation runs on the members of the socket and on the world.\<close>

type_synonym ('l, 'w, 'a) tls_exec = "('l tls_sock \<times> 'w, 'a) exec"

definition getm :: "('l tls_sock \<Rightarrow> 'a) \<Rightarrow> ('l, 'w, 'a) tls_exec" where
  "getm f = get (\<lambda>s. f (fst s))"

definition setm :: "('l tls_sock \<Rightarrow> 'l tls_sock) \<Rightarrow> ('l, 'w, unit) tls_exec" where
  "setm f = modify (\<lambda>s. (f (fst s), snd s))"

definition on_world :: "('w, 'a) exec \<Rightarrow> ('l, 'w, 'a) tls_exec" where
  "on_world m = zoom snd (\<lambda>w s. (fst s, w)) m"

section \<open>Time\<close>

definition UnderDeadline :: "'w os \<Rightarrow> ('l, 'w, 'a) tls_exec \<Rightarrow> ('l, 'w, 'a) tls_exec" where
  "UnderDeadline os fn =
     andthen (getm t_remainingTime) (\<lambda>timeout.
       if timeout \<le> 0 then fn
       else
         andthen (on_world (call (DeadlineLimited os timeout))) (\<lambda>deadline.
         andthen fn (\<lambda>res.
         andthen (on_world (call (Clocked_Tick os deadline))) (\<lambda>deadline.
         andthen (setm (\<lambda>t. t\<lparr>t_remainingTime := DeadlineLimited_Remaining deadline\<rparr>)) (\<lambda>_.
           ret res)))))"

section \<open>The callbacks\<close>

definition TlsBioRead :: "'w os \<Rightarrow> nat \<Rightarrow> ('l, 'w, nat \<times> string) tls_exec" where
  "TlsBioRead os sz =
     andthen (getm t_fd) (\<lambda>s.
     andthen (getm t_isReadable) (\<lambda>isReadable.
       if isReadable then
         andthen (setm (\<lambda>t. t\<lparr>t_isReadable := False\<rparr>)) (\<lambda>_. on_world (ReceiveNow os s sz))
       else
         andthen (UnderDeadline os
             (andthen (getm t_remainingTime) (\<lambda>remainingTime. on_world (Receive os s sz remainingTime))))
           (\<lambda>received. case received of Some r \<Rightarrow> ret r | None \<Rightarrow> ret (0, []))))"

definition TlsBioWrite :: "'w os \<Rightarrow> string \<Rightarrow> ('l, 'w, nat) tls_exec" where
  "TlsBioWrite os data =
     andthen (getm t_fd) (\<lambda>s.
     andthen (getm t_isWritable) (\<lambda>isWritable.
       if isWritable then
         andthen (setm (\<lambda>t. t\<lparr>t_isWritable := False\<rparr>)) (\<lambda>_. on_world (SendNow os s data))
       else
         andthen (getm t_remainingTime) (\<lambda>remainingTime.
           if remainingTime < 0 then on_world (SendAll os s data)
           else if remainingTime = 0 then on_world (SendTry os s data)
           else
             andthen (on_world (call (DeadlineLimited os remainingTime))) (\<lambda>deadline.
             andthen (on_world (SendSome os s data deadline)) (\<lambda>(sent, deadline).
             andthen (setm (\<lambda>t. t\<lparr>t_remainingTime :=
                 (if sent = length data then DeadlineLimited_Remaining deadline else 0)\<rparr>)) (\<lambda>_.
               ret sent))))))"

text \<open>
  The functions OpenSSL calls: they narrow the count to an \<^verbatim>\<open>int\<close> and say whether the call is to be
  retried.
\<close>

definition int_of_size :: "nat \<Rightarrow> int" where
  "int_of_size n = sint (word_of_nat n :: 32 word)"

definition size_of_int :: "int \<Rightarrow> nat" where
  "size_of_int i = unat (word_of_int i :: 64 word)"

definition bio_Read :: "'w os \<Rightarrow> int \<Rightarrow> ('l, 'w, int \<times> bool \<times> string) tls_exec" where
  "bio_Read os sz =
     andthen (TlsBioRead os (size_of_int sz)) (\<lambda>(received, data). ret (int_of_size received, received = 0, data))"

definition bio_Write :: "'w os \<Rightarrow> string \<Rightarrow> ('l, 'w, int \<times> bool) tls_exec" where
  "bio_Write os data =
     andthen (TlsBioWrite os data) (\<lambda>sent. ret (int_of_size sent, sent \<noteq> length data))"

datatype bio_cmd = BIO_CTRL_FLUSH | BIO_CTRL_OTHER int

fun bio_Ctrl :: "bio_cmd \<Rightarrow> int" where
  "bio_Ctrl BIO_CTRL_FLUSH = 1"
| "bio_Ctrl (BIO_CTRL_OTHER cmd) = 0"

text \<open>Running a call: the session is stored before the callback and when the call ends.\<close>

primrec ssl_run :: "('l, 'a) ssl_call \<Rightarrow> 'w os \<Rightarrow> ('l, 'w, 'a) tls_exec" where
  "ssl_run (Finished l a) os = andthen (setm (\<lambda>t. t\<lparr>t_ssl := l\<rparr>)) (\<lambda>_. ret a)"
| "ssl_run (CallRead l sz k) os =
     andthen (setm (\<lambda>t. t\<lparr>t_ssl := l\<rparr>)) (\<lambda>_. andthen (bio_Read os sz) (\<lambda>r. ssl_run (k r) os))"
| "ssl_run (CallWrite l data k) os =
     andthen (setm (\<lambda>t. t\<lparr>t_ssl := l\<rparr>)) (\<lambda>_. andthen (bio_Write os data) (\<lambda>r. ssl_run (k r) os))"

definition ssl_do :: "'w os \<Rightarrow> ('l \<Rightarrow> ('l, 'a) ssl_call) \<Rightarrow> ('l, 'w, 'a) tls_exec" where
  "ssl_do os f = andthen (getm t_ssl) (\<lambda>l. ssl_run (f l) os)"

section \<open>Errors\<close>

definition tls_error_message :: string where
  "tls_error_message = ''failed to TLS receive/send/handshake''"

definition HandleError :: "'w os \<Rightarrow> 'l openssl \<Rightarrow> ssl_error \<Rightarrow> ('l, 'w, bool) tls_exec" where
  "HandleError os lib error =
     (case error of
        SSL_ERROR_NONE \<Rightarrow> ret True
      | SSL_ERROR_WANT_READ \<Rightarrow>
          UnderDeadline os (andthen (getm (\<lambda>t. (t_fd t, t_remainingTime t))) (\<lambda>(s, remainingTime).
            on_world (WaitReadable os s remainingTime)))
      | SSL_ERROR_WANT_WRITE \<Rightarrow>
          UnderDeadline os (andthen (getm (\<lambda>t. (t_fd t, t_remainingTime t))) (\<lambda>(s, remainingTime).
            on_world (WaitWritable os s remainingTime)))
      | SSL_ERROR_SSL \<Rightarrow> throw (SystemError (SslError (ssl_error_number lib error)) tls_error_message)
      | SSL_ERROR_SYSCALL \<Rightarrow> on_world (throw_system os tls_error_message)
      | SSL_ERROR_ZERO_RETURN \<Rightarrow> throw (RuntimeError tls_error_message)
      | SSL_ERROR_OTHER _ \<Rightarrow> throw AssertFailed)"

definition HandleLastError :: "'w os \<Rightarrow> 'l openssl \<Rightarrow> ('l, 'w, bool) tls_exec" where
  "HandleLastError os lib =
     andthen (getm t_lastError) (\<lambda>lastError.
     andthen (HandleError os lib lastError) (\<lambda>ok.
       if ok then andthen (setm (\<lambda>t. t\<lparr>t_lastError := SSL_ERROR_NONE\<rparr>)) (\<lambda>_. ret True)
       else ret False))"

definition HandleResult :: "'w os \<Rightarrow> 'l openssl \<Rightarrow> int \<Rightarrow> ('l, 'w, bool) tls_exec" where
  "HandleResult os lib res =
     andthen (setm (\<lambda>t. t\<lparr>t_lastError := SSL_get_error lib (t_ssl t) res\<rparr>)) (\<lambda>_. HandleLastError os lib)"

section \<open>Reading and writing\<close>

definition handshakeStepsMax :: nat where
  "handshakeStepsMax = 10"

text \<open>The loops count down the rounds that are left; the assertion fails in the last one.\<close>

fun Read_loop :: "'w os \<Rightarrow> 'l openssl \<Rightarrow> nat \<Rightarrow> nat \<Rightarrow> ('l, 'w, nat \<times> string) tls_exec" where
  "Read_loop os lib sz 0 = ret (0, [])"
| "Read_loop os lib sz (Suc n) =
     andthen (ssl_do os (\<lambda>l. SSL_read lib l (int_of_size sz))) (\<lambda>(res, data).
       if res \<le> 0 then
         andthen (HandleResult os lib res) (\<lambda>ok.
           if \<not> ok then ret (0, [])
           else if n = 0 then throw AssertFailed
           else Read_loop os lib sz n)
       else ret (size_of_int res, data))"

definition Read :: "'w os \<Rightarrow> 'l openssl \<Rightarrow> nat \<Rightarrow> ('l, 'w, nat \<times> string) tls_exec" where
  "Read os lib sz =
     andthen (HandleLastError os lib) (\<lambda>ok. if ok then Read_loop os lib sz handshakeStepsMax else ret (0, []))"

definition write_step ::
  "'w os \<Rightarrow> 'l openssl \<Rightarrow> memory \<Rightarrow> string_view \<Rightarrow> ('l, 'w, bool \<times> string_view) tls_exec" where
  "write_step os lib mem remaining =
     andthen (getm t_pendingSend) (\<lambda>pendingSend.
       if \<not> (snd pendingSend = 0 \<or> view_content mem pendingSend = view_content mem remaining) then throw AssertFailed
       else
         andthen (ssl_do os (\<lambda>l. SSL_write_ex lib l (view_content mem remaining))) (\<lambda>(res, written).
           if res \<le> 0 then
             andthen (setm (\<lambda>t. t\<lparr>t_pendingSend := remaining\<rparr>)) (\<lambda>_.
             andthen (HandleResult os lib res) (\<lambda>ok. ret (ok, remaining)))
           else
             andthen (setm (\<lambda>t. t\<lparr>t_pendingSend := (0, 0)\<rparr>)) (\<lambda>_.
               if \<not> written \<le> snd remaining then throw AssertFailed
               else ret (True, (fst remaining + written, snd remaining - written)))))"

fun Write_loop :: "'w os \<Rightarrow> 'l openssl \<Rightarrow> memory \<Rightarrow> nat \<Rightarrow> string_view \<Rightarrow> ('l, 'w, string_view) tls_exec" where
  "Write_loop os lib mem 0 remaining = ret remaining"
| "Write_loop os lib mem (Suc n) remaining =
     (if snd remaining = 0 then ret remaining
      else
        andthen (write_step os lib mem remaining) (\<lambda>(go, remaining).
          if \<not> go then ret remaining
          else if n = 0 then throw AssertFailed
          else Write_loop os lib mem n remaining))"

text \<open>Writing takes the address and the size of the data, and returns how much of it was sent.\<close>

definition Write :: "'w os \<Rightarrow> 'l openssl \<Rightarrow> memory \<Rightarrow> nat \<Rightarrow> nat \<Rightarrow> ('l, 'w, nat) tls_exec" where
  "Write os lib mem data sz =
     andthen (HandleLastError os lib) (\<lambda>ok.
     andthen (if ok then Write_loop os lib mem handshakeStepsMax (data, sz) else ret (data, sz)) (\<lambda>remaining.
       if \<not> sz \<ge> snd remaining then throw AssertFailed else ret (sz - snd remaining)))"

section \<open>The operations of the socket\<close>

definition TlsReceive_wait ::
  "'w os \<Rightarrow> 'l openssl \<Rightarrow> nat \<Rightarrow> duration \<Rightarrow> ('l, 'w, (nat \<times> string) option) tls_exec" where
  "TlsReceive_wait os lib sz timeout =
     andthen (setm (\<lambda>t. t\<lparr>t_remainingTime := timeout\<rparr>)) (\<lambda>_.
     andthen (Read os lib sz) (\<lambda>(received, data).
       if received \<noteq> 0 then ret (Some (received, data))
       else if \<not> timeout \<ge> 0 then throw AssertFailed
       else ret None))"

definition TlsReceive :: "'w os \<Rightarrow> 'l openssl \<Rightarrow> nat \<Rightarrow> ('l, 'w, nat \<times> string) tls_exec" where
  "TlsReceive os lib sz =
     andthen (setm (\<lambda>t. t\<lparr>t_remainingTime := 0, t_isReadable := True,
        t_lastError := (if t_lastError t = SSL_ERROR_WANT_READ then SSL_ERROR_NONE else t_lastError t)\<rparr>)) (\<lambda>_.
     andthen (Read os lib sz) (\<lambda>(received, data).
     andthen (setm (\<lambda>t. if received = 0 \<and> SSL_is_init_finished lib (t_ssl t)
                        then t\<lparr>t_lastError := SSL_ERROR_NONE\<rparr> else t)) (\<lambda>_.
       ret (received, data))))"

definition TlsSend :: "'w os \<Rightarrow> 'l openssl \<Rightarrow> memory \<Rightarrow> nat \<Rightarrow> nat \<Rightarrow> duration \<Rightarrow> ('l, 'w, nat) tls_exec" where
  "TlsSend os lib mem data sz timeout =
     andthen (setm (\<lambda>t. t\<lparr>t_remainingTime := timeout\<rparr>)) (\<lambda>_. Write os lib mem data sz)"

definition deem_writable :: "'l tls_sock \<Rightarrow> 'l tls_sock" where
  "deem_writable t = t\<lparr>t_remainingTime := 0, t_isWritable := True,
     t_lastError := (if t_lastError t = SSL_ERROR_WANT_WRITE then SSL_ERROR_NONE else t_lastError t)\<rparr>"

definition TlsSendSome :: "'w os \<Rightarrow> 'l openssl \<Rightarrow> memory \<Rightarrow> nat \<Rightarrow> nat \<Rightarrow> ('l, 'w, nat) tls_exec" where
  "TlsSendSome os lib mem data sz = andthen (setm deem_writable) (\<lambda>_. Write os lib mem data sz)"

definition TlsConnect :: "'w os \<Rightarrow> 'w netdb \<Rightarrow> 'l openssl \<Rightarrow> sock_addr_view \<Rightarrow> ('l, 'w, unit) tls_exec" where
  "TlsConnect os nd lib connectAddr =
     andthen (getm t_fd) (\<lambda>s.
     andthen (on_world (Connect os nd s connectAddr)) (\<lambda>_.
       setm (\<lambda>t. t\<lparr>t_ssl := SSL_set_connect_state lib (t_ssl t)\<rparr>)))"

text \<open>The driver passes the events it polls for and takes what this returns.\<close>

definition query_events :: "'l openssl \<Rightarrow> pollflag set \<Rightarrow> 'l tls_sock \<Rightarrow> pollflag set \<times> 'l tls_sock" where
  "query_events lib events t =
     (if \<not> SSL_is_init_finished lib (t_ssl t) then
        (if t_lastError t = SSL_ERROR_WANT_WRITE then (insert POLLOUT events, t)
         else if t_lastError t = SSL_ERROR_WANT_READ then
           (events - {POLLOUT}, t\<lparr>t_driverSendSuppressed := t_driverSendSuppressed t \<or> POLLOUT \<in> events\<rparr>)
         else (events, t))
      else if t_driverSendSuppressed t then (insert POLLOUT events, t\<lparr>t_driverSendSuppressed := False\<rparr>)
      else (events, t))"

definition TlsDriverQuery :: "'l openssl \<Rightarrow> pollflag set \<Rightarrow> ('l, 'w, pollflag set) tls_exec" where
  "TlsDriverQuery lib events =
     (\<lambda>(t, w). let (events, t) = query_events lib events t in (Inr events, (t, w)))"

definition TlsDriverPending :: "'w os \<Rightarrow> 'l openssl \<Rightarrow> ('l, 'w, unit) tls_exec" where
  "TlsDriverPending os lib =
     andthen (getm (\<lambda>t. SSL_is_init_finished lib (t_ssl t))) (\<lambda>finished.
       if finished then ret ()
       else
         andthen (setm deem_writable) (\<lambda>_.
         andthen (Read os lib 64) (\<lambda>(received, _).
           if received \<noteq> 0 then throw (LogicError ''unexpected receive'') else ret ())))"

fun Shutdown_loop :: "'w os \<Rightarrow> 'l openssl \<Rightarrow> nat \<Rightarrow> ('l, 'w, unit) tls_exec" where
  "Shutdown_loop os lib 0 = ret ()"
| "Shutdown_loop os lib (Suc n) =
     andthen (ssl_do os (\<lambda>l. SSL_read lib l 1024)) (\<lambda>(res, _).
       if res < 0 then
         andthen (HandleResult os lib res) (\<lambda>ok. if \<not> ok then ret () else Shutdown_loop os lib n)
       else if res = 0 then ret ()
       else Shutdown_loop os lib n)"

definition Shutdown :: "'w os \<Rightarrow> 'l openssl \<Rightarrow> ('l, 'w, unit) tls_exec" where
  "Shutdown os lib =
     andthen (setm (\<lambda>t. t\<lparr>t_isReadable := False, t_isWritable := False, t_remainingTime := 1000\<rparr>)) (\<lambda>_.
     andthen (ssl_do os (SSL_shutdown lib)) (\<lambda>res.
       if res \<le> 0 then
         andthen (Shutdown_loop os lib handshakeStepsMax) (\<lambda>_.
         andthen (ssl_do os (SSL_shutdown lib)) (\<lambda>_. ret ()))
       else ret ()))"

text \<open>The body of the destructor; whatever is thrown is dropped.\<close>

definition destructor_body :: "'w os \<Rightarrow> 'l openssl \<Rightarrow> ('l, 'w, unit) tls_exec" where
  "destructor_body os lib =
     andthen (getm t_lastError) (\<lambda>lastError.
       if lastError = SSL_ERROR_SYSCALL \<or> lastError = SSL_ERROR_SSL then ret ()
       else catch (Shutdown os lib) (\<lambda>_. True) (\<lambda>_. ret ()))"

section \<open>Construction and destruction\<close>

text \<open>
  What is shared by all sockets of the process: the guard that initialises OpenSSL and the recipe of
  the callbacks, a static instance made on first use.  The world is inside the guard.
\<close>

record 'w tls_globals =
  g_guard :: "'w sslguard"
  g_method :: "nat option"

definition g_run :: "('w sslguard, 'a) exec \<Rightarrow> ('w tls_globals, 'a) exec" where
  "g_run m = zoom g_guard (\<lambda>s g. g\<lparr>g_guard := s\<rparr>) m"

definition g_world :: "('w, 'a) exec \<Rightarrow> ('w tls_globals, 'a) exec" where
  "g_world m = g_run (zoom ssl_sys (\<lambda>w s. s\<lparr>ssl_sys := w\<rparr>) m)"

definition on_sock :: "'l tls_sock \<Rightarrow> ('l, 'w, 'a) tls_exec \<Rightarrow> ('w tls_globals, 'a \<times> 'l tls_sock) exec" where
  "on_sock t m = g_world (\<lambda>w. case m (t, w) of (Inl e, (_, w)) \<Rightarrow> (Inl e, w) | (Inr a, (t, w)) \<Rightarrow> (Inr (a, t), w))"

datatype ssl_method = TLS_client_method | TLS_server_method

datatype ssl_mode = SSL_MODE_ENABLE_PARTIAL_WRITE | SSL_MODE_ACCEPT_MOVING_WRITE_BUFFER

datatype bio_callback = Read_cb | Write_cb | Ctrl_cb | Create_cb

text \<open>The calls that make and free contexts, sessions and callbacks.\<close>

record ('w, 'c, 'l) openssl_setup =
  SSL_library_init :: "'w \<Rightarrow> 'w"
  EVP_cleanup :: "'w \<Rightarrow> 'w"
  SSL_CTX_new :: "ssl_method \<Rightarrow> 'w \<Rightarrow> 'c option \<times> 'w"
  SSL_CTX_free :: "'c \<Rightarrow> 'w \<Rightarrow> 'w"
  SSL_CTX_set_mode :: "'c \<Rightarrow> ssl_mode set \<Rightarrow> 'w \<Rightarrow> ssl_mode set \<times> 'w"
  SSL_CTX_set_ecdh_auto :: "'c \<Rightarrow> int \<Rightarrow> 'w \<Rightarrow> int \<times> 'w"
  SSL_CTX_use_certificate_file :: "'c \<Rightarrow> string \<Rightarrow> 'w \<Rightarrow> int \<times> 'w"
  SSL_CTX_use_PrivateKey_file :: "'c \<Rightarrow> string \<Rightarrow> 'w \<Rightarrow> int \<times> 'w"
  SSL_new :: "'c \<Rightarrow> 'w \<Rightarrow> 'l option \<times> 'w"
  SSL_free :: "'l \<Rightarrow> 'w \<Rightarrow> 'w"
  SSL_set_bio :: "'l \<Rightarrow> nat \<Rightarrow> nat \<Rightarrow> 'l"
  BIO_meth_new :: "'w \<Rightarrow> nat \<times> 'w"
  BIO_meth_set :: "nat \<Rightarrow> bio_callback \<Rightarrow> 'w \<Rightarrow> bool \<times> 'w"
  BIO_meth_free :: "nat \<Rightarrow> 'w \<Rightarrow> 'w"
  BIO_new :: "nat \<Rightarrow> 'w \<Rightarrow> nat option \<times> 'w"
  BIO_free :: "nat \<Rightarrow> 'w \<Rightarrow> 'w"

text \<open>The conjunction stops at the first setting that fails.\<close>

fun BIO_meth_set_all :: "('w, 'c, 'l) openssl_setup \<Rightarrow> nat \<Rightarrow> bio_callback list \<Rightarrow> ('w, bool) exec" where
  "BIO_meth_set_all st m [] = ret True"
| "BIO_meth_set_all st m (c # cs) =
     andthen (call (BIO_meth_set st m c)) (\<lambda>ok. if ok then BIO_meth_set_all st m cs else ret False)"

definition CreateMethod :: "('w, 'c, 'l) openssl_setup \<Rightarrow> ('w, nat) exec" where
  "CreateMethod st =
     andthen (call (BIO_meth_new st)) (\<lambda>m.
     andthen (BIO_meth_set_all st m [Read_cb, Write_cb, Ctrl_cb, Create_cb]) (\<lambda>ok.
       if ok then ret m
       else andthen (modify (BIO_meth_free st m)) (\<lambda>_. throw (LogicError ''failed to create BIO method''))))"

definition BIO_s_sockpuppet :: "('w, 'c, 'l) openssl_setup \<Rightarrow> ('w tls_globals, nat) exec" where
  "BIO_s_sockpuppet st =
     andthen (get g_method) (\<lambda>instance.
       case instance of
         Some m \<Rightarrow> ret m
       | None \<Rightarrow> andthen (g_world (CreateMethod st)) (\<lambda>m. andthen (modify (\<lambda>g. g\<lparr>g_method := Some m\<rparr>)) (\<lambda>_. ret m)))"

definition ConfigureCtx :: "('w, 'c, 'l) openssl_setup \<Rightarrow> 'c \<Rightarrow> string \<Rightarrow> string \<Rightarrow> ('w, unit) exec" where
  "ConfigureCtx st ctx certFilePath keyFilePath =
     (let flags = {SSL_MODE_ENABLE_PARTIAL_WRITE, SSL_MODE_ACCEPT_MOVING_WRITE_BUFFER}
      in andthen (call (SSL_CTX_set_mode st ctx flags)) (\<lambda>mode.
         if mode \<inter> flags \<noteq> flags then throw (LogicError ''failed to set TLS mode'')
         else andthen (call (SSL_CTX_set_ecdh_auto st ctx 1)) (\<lambda>r.
         if r \<le> 0 then throw (LogicError ''failed to set TLS ECDH'')
         else andthen (call (SSL_CTX_use_certificate_file st ctx certFilePath)) (\<lambda>r.
         if r \<le> 0 then throw (RuntimeError ''failed to set certificate'')
         else andthen (call (SSL_CTX_use_PrivateKey_file st ctx keyFilePath)) (\<lambda>r.
         if r \<le> 0 then throw (RuntimeError ''failed to set private key'')
         else ret ())))))"

definition CreateCtx :: "('w, 'c, 'l) openssl_setup \<Rightarrow> ssl_method \<Rightarrow> string \<Rightarrow> string \<Rightarrow> ('w, 'c) exec" where
  "CreateCtx st method certFilePath keyFilePath =
     andthen (call (SSL_CTX_new st method)) (\<lambda>ctx.
       case ctx of
         None \<Rightarrow> throw (LogicError ''failed to create SSL context'')
       | Some ctx \<Rightarrow>
           andthen (on_throw (ConfigureCtx st ctx certFilePath keyFilePath) (SSL_CTX_free st ctx)) (\<lambda>_. ret ctx))"

definition free_bio :: "('w, 'c, 'l) openssl_setup \<Rightarrow> nat option \<Rightarrow> 'w \<Rightarrow> 'w" where
  "free_bio st b w = (case b of None \<Rightarrow> w | Some b \<Rightarrow> BIO_free st b w)"

text \<open>A destructor of the world's resources, as a change of the shared state.\<close>

definition g_free :: "('w \<Rightarrow> 'w) \<Rightarrow> 'w tls_globals \<Rightarrow> 'w tls_globals" where
  "g_free f g = g\<lparr>g_guard := (g_guard g)\<lparr>ssl_sys := f (ssl_sys (g_guard g))\<rparr>\<rparr>"

definition ConfigureSsl :: "('w, 'c, 'l) openssl_setup \<Rightarrow> 'l \<Rightarrow> ('w tls_globals, 'l) exec" where
  "ConfigureSsl st ssl =
     andthen (BIO_s_sockpuppet st) (\<lambda>m.
     andthen (g_world (call (BIO_new st m))) (\<lambda>rbio.
     andthen (on_throw (BIO_s_sockpuppet st) (g_free (free_bio st rbio))) (\<lambda>m.
     andthen (g_world (call (BIO_new st m))) (\<lambda>wbio.
       case (rbio, wbio) of
         (Some r, Some w) \<Rightarrow> ret (SSL_set_bio st ssl r w)
       | _ \<Rightarrow> andthen (modify (g_free (\<lambda>w. free_bio st rbio (free_bio st wbio w)))) (\<lambda>_.
               throw (LogicError ''failed to create read/write BIO''))))))"

definition CreateSsl :: "('w, 'c, 'l) openssl_setup \<Rightarrow> 'c \<Rightarrow> ('w tls_globals, 'l) exec" where
  "CreateSsl st ctx =
     andthen (g_world (call (SSL_new st ctx))) (\<lambda>ssl.
       case ssl of
         None \<Rightarrow> throw (LogicError ''failed to create SSL structure'')
       | Some ssl \<Rightarrow> on_throw (ConfigureSsl st ssl) (g_free (SSL_free st ssl)))"

definition guard_up :: "('w, 'c, 'l) openssl_setup \<Rightarrow> ('w tls_globals, unit) exec" where
  "guard_up st = g_run (SslGuard (SSL_library_init st) (EVP_cleanup st))"

definition guard_down :: "('w, 'c, 'l) openssl_setup \<Rightarrow> 'w tls_globals \<Rightarrow> 'w tls_globals" where
  "guard_down st g = snd (g_run (SslGuard_destroy (SSL_library_init st) (EVP_cleanup st)) g)"

text \<open>The base class and the guard are destroyed when making the session throws.\<close>

definition guarded :: "'w os \<Rightarrow> ('w, 'c, 'l) openssl_setup \<Rightarrow> fd \<Rightarrow> ('w tls_globals, 'a) exec \<Rightarrow> ('w tls_globals, 'a) exec" where
  "guarded os st s m =
     andthen (guard_up st) (\<lambda>_. on_throw m (\<lambda>g. g_free (SocketImpl_destroy os s) (guard_down st g)))"

definition SocketTlsImpl ::
  "'w os \<Rightarrow> ('w, 'c, 'l) openssl_setup \<Rightarrow> family \<Rightarrow> socktype \<Rightarrow> protocol \<Rightarrow> string \<Rightarrow> string \<Rightarrow> ('w tls_globals, 'l tls_sock) exec" where
  "SocketTlsImpl os st family type protocol certFilePath keyFilePath =
     andthen (g_world (SocketImpl os family type protocol)) (\<lambda>s.
       guarded os st s
         (andthen (g_world (CreateCtx st TLS_client_method certFilePath keyFilePath)) (\<lambda>ctx.
          andthen (on_throw (CreateSsl st ctx) (g_free (SSL_CTX_free st ctx))) (\<lambda>ssl.
          andthen (modify (g_free (SSL_CTX_free st ctx))) (\<lambda>_. ret (new_tls_sock s ssl))))))"

definition SocketTlsImpl_fd :: "'w os \<Rightarrow> ('w, 'c, 'l) openssl_setup \<Rightarrow> fd \<Rightarrow> 'c \<Rightarrow> ('w tls_globals, 'l tls_sock) exec" where
  "SocketTlsImpl_fd os st s ctx =
     andthen (g_world (SocketImpl_fd os s)) (\<lambda>s.
       guarded os st s (andthen (CreateSsl st ctx) (\<lambda>ssl. ret (new_tls_sock s ssl))))"

text \<open>The members go in reverse order after the body: the session, the guard, the descriptor.\<close>

definition SocketTlsImpl_destroy ::
  "'w os \<Rightarrow> 'l openssl \<Rightarrow> ('w, 'c, 'l) openssl_setup \<Rightarrow> 'l tls_sock \<Rightarrow> 'w tls_globals \<Rightarrow> 'w tls_globals" where
  "SocketTlsImpl_destroy os lib st t g =
     (case on_sock t (destructor_body os lib) g of
        (r, g) \<Rightarrow>
          let t = (case r of Inl _ \<Rightarrow> t | Inr (_, t) \<Rightarrow> t)
          in g_free (SocketImpl_destroy os (t_fd t)) (guard_down st (g_free (SSL_free st (t_ssl t)) g)))"

record 'c acceptor_tls =
  at_fd :: fd
  at_ctx :: 'c

definition AcceptorTlsImpl ::
  "'w os \<Rightarrow> ('w, 'c, 'l) openssl_setup \<Rightarrow> family \<Rightarrow> socktype \<Rightarrow> protocol \<Rightarrow> string \<Rightarrow> string \<Rightarrow> ('w tls_globals, 'c acceptor_tls) exec" where
  "AcceptorTlsImpl os st family type protocol certFilePath keyFilePath =
     andthen (g_world (SocketImpl os family type protocol)) (\<lambda>s.
       guarded os st s
         (andthen (g_world (CreateCtx st TLS_server_method certFilePath keyFilePath)) (\<lambda>ctx.
            ret \<lparr>at_fd = s, at_ctx = ctx\<rparr>)))"

definition AcceptorTlsImpl_destroy :: "'w os \<Rightarrow> ('w, 'c, 'l) openssl_setup \<Rightarrow> 'c acceptor_tls \<Rightarrow> 'w tls_globals \<Rightarrow> 'w tls_globals" where
  "AcceptorTlsImpl_destroy os st a g =
     g_free (SocketImpl_destroy os (at_fd a)) (guard_down st (g_free (SSL_CTX_free st (at_ctx a)) g))"

section \<open>The user's classes\<close>

definition SocketTcp_tls ::
  "'w os \<Rightarrow> 'w netdb \<Rightarrow> 'l openssl \<Rightarrow> ('w, 'c, 'l) openssl_setup \<Rightarrow> address \<Rightarrow> string \<Rightarrow> string \<Rightarrow> ('w tls_globals, 'l tls_sock) exec" where
  "SocketTcp_tls os nd lib st connectAddress certFilePath keyFilePath =
     andthen (lift_sum (deref connectAddress (AddressImpl_Family nd))) (\<lambda>family.
     andthen (SocketTlsImpl os st family SOCK_STREAM IPPROTO_TCP certFilePath keyFilePath) (\<lambda>impl.
       andthen
         (on_throw
           (andthen (g_world (SetSockOptNoSigPipe os (t_fd impl))) (\<lambda>_.
            andthen (lift_sum (deref connectAddress ForTcp)) (\<lambda>view.
              on_sock impl (TlsConnect os nd lib view))))
           (SocketTlsImpl_destroy os lib st impl)) (\<lambda>(_, impl).
       on_throw
         (andthen (g_world (SetSockOptNonBlocking os (t_fd impl))) (\<lambda>_. ret impl))
         (SocketTlsImpl_destroy os lib st impl))))"

definition SocketTcp_adopt_tls ::
  "'w os \<Rightarrow> 'l openssl \<Rightarrow> ('w, 'c, 'l) openssl_setup \<Rightarrow> 'l tls_sock \<Rightarrow> ('w tls_globals, 'l tls_sock) exec" where
  "SocketTcp_adopt_tls os lib st impl =
     on_throw
       (andthen (g_world (SetSockOptNoSigPipe os (t_fd impl))) (\<lambda>_.
        andthen (g_world (SetSockOptNonBlocking os (t_fd impl))) (\<lambda>_. ret impl)))
       (SocketTlsImpl_destroy os lib st impl)"

definition Acceptor_tls ::
  "'w os \<Rightarrow> 'w netdb \<Rightarrow> ('w, 'c, 'l) openssl_setup \<Rightarrow> address \<Rightarrow> string \<Rightarrow> string \<Rightarrow> ('w tls_globals, 'c acceptor_tls) exec" where
  "Acceptor_tls os nd st bindAddress certFilePath keyFilePath =
     andthen (lift_sum (deref bindAddress (AddressImpl_Family nd))) (\<lambda>family.
     andthen (AcceptorTlsImpl os st family SOCK_STREAM IPPROTO_TCP certFilePath keyFilePath) (\<lambda>impl.
       on_throw
         (andthen (g_world (SetSockOptReuseAddr os (at_fd impl))) (\<lambda>_.
          andthen (lift_sum (deref bindAddress ForTcp)) (\<lambda>view.
          andthen (g_world (Bind os nd (at_fd impl) view)) (\<lambda>_.
          andthen (g_world (SetSockOptNonBlocking os (at_fd impl))) (\<lambda>_. ret impl)))))
         (AcceptorTlsImpl_destroy os st impl)))"

definition AcceptorTlsImpl_Accept ::
  "'w os \<Rightarrow> 'w netdb \<Rightarrow> 'l openssl \<Rightarrow> ('w, 'c, 'l) openssl_setup \<Rightarrow> 'c acceptor_tls \<Rightarrow> ('w tls_globals, 'l tls_sock \<times> address) exec" where
  "AcceptorTlsImpl_Accept os nd lib st a =
     andthen (g_world (accept_fd os nd (at_fd a))) (\<lambda>(clientFd, clientAddr).
     andthen (SocketTlsImpl_fd os st clientFd (at_ctx a)) (\<lambda>clientSock.
     let clientSock = clientSock\<lparr>t_ssl := SSL_set_accept_state lib (t_ssl clientSock)\<rparr>
     in andthen (SocketTcp_adopt_tls os lib st clientSock) (\<lambda>sock. ret (sock, clientAddr))))"

end
