(* ===== verification/TlsScript.thy ===== *)
theory TlsScript
  imports Tls Script
begin

text \<open>
  A concrete OpenSSL on which the model of the TLS socket can be run: it sends a greeting before the first
  data, encrypts by putting a mark before a record of limited size, and answers with what the callbacks say.
\<close>

record demo =
  d_finished :: bool
  d_accepted :: string
  d_error :: ssl_error

definition demo0 :: demo where
  "demo0 = \<lparr>d_finished = False, d_accepted = [], d_error = SSL_ERROR_NONE\<rparr>"

text \<open>One record: accepted when the socket took all of it.\<close>

definition demo_record :: "nat \<Rightarrow> demo \<Rightarrow> string \<Rightarrow> (demo, int \<times> nat) ssl_call" where
  "demo_record n l d = CallWrite l (CHR ''#'' # take n d)
     (\<lambda>(_, retry). if retry then Finished (l\<lparr>d_error := SSL_ERROR_WANT_WRITE\<rparr>) (-1, 0)
        else Finished (l\<lparr>d_accepted := d_accepted l @ take n d\<rparr>) (1, length (take n d)))"

definition demo_write :: "nat \<Rightarrow> demo \<Rightarrow> string \<Rightarrow> (demo, int \<times> nat) ssl_call" where
  "demo_write n l d =
     (if d_finished l then demo_record n l d
      else CallWrite l ''hello''
        (\<lambda>(_, retry). if retry then Finished (l\<lparr>d_error := SSL_ERROR_WANT_WRITE\<rparr>) (-1, 0)
           else demo_record n (l\<lparr>d_finished := True\<rparr>) d))"

definition demo_read :: "demo \<Rightarrow> int \<Rightarrow> (demo, int \<times> string) ssl_call" where
  "demo_read l sz = CallRead l sz
     (\<lambda>(received, retry, data). if retry then Finished (l\<lparr>d_error := SSL_ERROR_WANT_READ\<rparr>) (-1, [])
        else Finished (l\<lparr>d_finished := True\<rparr>) (received, data))"

definition demo_ssl :: "nat \<Rightarrow> demo openssl" where
  "demo_ssl n = \<lparr>SSL_read = demo_read, SSL_write_ex = demo_write n, SSL_shutdown = (\<lambda>l. Finished l 1),
     SSL_get_error = (\<lambda>l _. d_error l), SSL_is_init_finished = d_finished, SSL_set_connect_state = (\<lambda>l. l),
     SSL_set_accept_state = (\<lambda>l. l), ssl_error_number = (\<lambda>_. 1)\<rparr>"

lemma demo_ssl_simps [simp]:
  "SSL_write_ex (demo_ssl n) = demo_write n" "SSL_get_error (demo_ssl n) l r = d_error l"
  "SSL_is_init_finished (demo_ssl n) = d_finished"
  by (simp_all add: demo_ssl_def)

end
