(* ===== verification/TlsSpec.thy ===== *)
theory TlsSpec
  imports TlsScript
begin

text \<open>
  What the TLS socket promises, for any OpenSSL that behaves as it documents: what is reported as sent was
  accepted in order, the operations the driver calls never block, and a wish to send survives the handshake.
  Two theorems show where the bookkeeping of the code falls short.
\<close>

section \<open>Running a call of OpenSSL\<close>

text \<open>A property of what a call ends with, and one of the session at every callback.\<close>

primrec ssl_ends :: "('l, 'a) ssl_call \<Rightarrow> ('l \<Rightarrow> 'a \<Rightarrow> bool) \<Rightarrow> ('l \<Rightarrow> bool) \<Rightarrow> bool" where
  "ssl_ends (Finished l a) P Q = P l a"
| "ssl_ends (CallRead l sz k) P Q = (Q l \<and> (\<forall>r. ssl_ends (k r) P Q))"
| "ssl_ends (CallWrite l data k) P Q = (Q l \<and> (\<forall>r. ssl_ends (k r) P Q))"

text \<open>What the callbacks and the waiting do not touch.\<close>

definition session :: "'l tls_sock \<times> 'w \<Rightarrow> 'l \<times> string_view \<times> bool \<times> fd" where
  "session s = (t_ssl (fst s), t_pendingSend (fst s), t_driverSendSuppressed (fst s), t_fd (fst s))"

lemma getm_run [simp]: "getm f s = (Inr (f (fst s)), s)"
  by (simp add: getm_def)

lemma setm_run [simp]: "setm f s = (Inr (), (f (fst s), snd s))"
  by (simp add: setm_def)

lemma on_world_run [simp]: "on_world m s = (fst (m (snd s)), (fst s, snd (m (snd s))))"
  by (simp add: on_world_def)

lemma leaves_tls [leaves_intros]:
  "leaves f (getm g)"
  "(\<And>w t. f (u t, w) = f (t, w)) \<Longrightarrow> leaves f (setm u)"
  "(\<And>w w' t. f (t, w) = f (t, w')) \<Longrightarrow> leaves f (on_world m)"
  by (simp_all add: leaves_def)

lemma leaves_UnderDeadline:
  assumes "leaves session m"
  shows "leaves session (UnderDeadline os m)"
  unfolding UnderDeadline_def by (intro leaves_intros assms) (simp_all add: session_def)

lemma leaves_bio_Read: "leaves session (bio_Read os sz)"
  unfolding bio_Read_def TlsBioRead_def
  by (intro leaves_intros leaves_UnderDeadline; (simp add: session_def)?; auto split: prod.splits option.splits intro!: leaves_intros)

lemma leaves_bio_Write: "leaves session (bio_Write os data)"
  unfolding bio_Write_def TlsBioWrite_def
  by (intro leaves_intros; (simp add: session_def)?; auto split: prod.splits intro!: leaves_intros simp: session_def)

lemma leaves_HandleError: "leaves session (HandleError os lib e)"
  unfolding HandleError_def
  by (cases e; simp; intro leaves_UnderDeadline leaves_intros; auto split: prod.splits intro!: leaves_intros simp: session_def)

lemma leaves_HandleLastError: "leaves session (HandleLastError os lib)"
  unfolding HandleLastError_def by (intro leaves_intros leaves_HandleError) (simp_all add: session_def)

lemma leaves_HandleResult: "leaves session (HandleResult os lib res)"
  unfolding HandleResult_def by (intro leaves_intros leaves_HandleLastError) (simp add: session_def)

lemma ssl_run_ends:
  "ssl_ends c P Q \<Longrightarrow> ssl_run c os s = (r, s') \<Longrightarrow>
   (case r of Inl e \<Rightarrow> Q (t_ssl (fst s')) | Inr a \<Rightarrow> P (t_ssl (fst s')) a)
   \<and> t_pendingSend (fst s') = t_pendingSend (fst s) \<and> t_driverSendSuppressed (fst s') = t_driverSendSuppressed (fst s)
   \<and> t_fd (fst s') = t_fd (fst s)"
proof (induction c arbitrary: s)
  case (Finished l a)
  then show ?case by (auto simp: andthen_def)
next
  case (CallRead l sz k)
  let ?s = "((fst s)\<lparr>t_ssl := l\<rparr>, snd s)"
  obtain x s1 where x: "bio_Read os sz ?s = (x, s1)" by (rule prod.exhaust)
  from leavesD [OF leaves_bio_Read x] have s1: "session s1 = session ?s" .
  show ?case
  proof (cases x)
    case (Inl e)
    with CallRead.prems x s1 show ?thesis by (auto simp: session_def)
  next
    case (Inr a)
    have "ssl_ends (k a) P Q" using CallRead.prems(1) by (cases a) auto
    moreover have "ssl_run (k a) os s1 = (r, s')" using CallRead.prems(2) Inr x by simp
    ultimately show ?thesis using CallRead.IH [OF rangeI, of a s1] s1 by (auto simp: session_def)
  qed
next
  case (CallWrite l data k)
  let ?s = "((fst s)\<lparr>t_ssl := l\<rparr>, snd s)"
  obtain x s1 where x: "bio_Write os data ?s = (x, s1)" by (rule prod.exhaust)
  from leavesD [OF leaves_bio_Write x] have s1: "session s1 = session ?s" .
  show ?case
  proof (cases x)
    case (Inl e)
    with CallWrite.prems x s1 show ?thesis by (auto simp: session_def)
  next
    case (Inr a)
    have "ssl_ends (k a) P Q" using CallWrite.prems(1) by (cases a) auto
    moreover have "ssl_run (k a) os s1 = (r, s')" using CallWrite.prems(2) Inr x by simp
    ultimately show ?thesis using CallWrite.IH [OF rangeI, of a s1] s1 by (auto simp: session_def)
  qed
qed

lemma ssl_do_ends:
  assumes "ssl_ends (f (t_ssl (fst s))) P Q" and "ssl_do os f s = (r, s')"
  shows "(case r of Inl e \<Rightarrow> Q (t_ssl (fst s')) | Inr a \<Rightarrow> P (t_ssl (fst s')) a)"
    and "t_pendingSend (fst s') = t_pendingSend (fst s)" and "t_driverSendSuppressed (fst s') = t_driverSendSuppressed (fst s)"
  using ssl_run_ends [OF assms(1), of os s r s'] assms(2) by (simp_all add: ssl_do_def)

section \<open>What is reported as sent\<close>

text \<open>
  \<^verbatim>\<open>SSL_write_ex\<close> reports how many bytes from the front of the data it has accepted, and accepts none when it
  fails; \<open>plain\<close> are all bytes a session has accepted.  No callback and no other exit changes them.
\<close>

definition writes_prefix :: "'l openssl \<Rightarrow> ('l \<Rightarrow> string) \<Rightarrow> bool" where
  "writes_prefix lib plain \<longleftrightarrow> (\<forall>l d. ssl_ends (SSL_write_ex lib l d)
     (\<lambda>l' (res, written). if res \<le> 0 then plain l' = plain l
        else written \<le> length d \<and> plain l' = plain l @ take written d)
     (\<lambda>l'. plain l' = plain l))"

lemma view_content_simps [simp]:
  "length (view_content mem v) = snd v"
  "n \<le> sz \<Longrightarrow> view_content mem (a + n, sz - n) = drop n (view_content mem (a, sz))"
  by (simp_all add: view_content_def drop_map)

lemma HandleResult_session:
  assumes "HandleResult os lib res s = (r, s')"
  shows "t_ssl (fst s') = t_ssl (fst s)" "t_pendingSend (fst s') = t_pendingSend (fst s)"
  using leavesD [OF leaves_HandleResult assms] by (simp_all add: session_def)

lemma write_step_prefix:
  assumes "writes_prefix lib plain" and run: "write_step os lib mem v s = (r, s')"
  obtains (ok) go n where "r = Inr (go, (fst v + n, snd v - n))" "n \<le> snd v"
      "plain (t_ssl (fst s')) = plain (t_ssl (fst s)) @ take n (view_content mem v)"
    | (error) e where "r = Inl e" "plain (t_ssl (fst s')) = plain (t_ssl (fst s))"
proof (cases "snd (t_pendingSend (fst s)) = 0 \<or> view_content mem (t_pendingSend (fst s)) = view_content mem v")
  case False
  with run error show thesis by (auto simp: write_step_def)
next
  case True
  let ?w = "\<lambda>l. SSL_write_ex lib l (view_content mem v)"
  obtain x s1 where x: "ssl_do os ?w s = (x, s1)" by (rule prod.exhaust)
  have run: "(case x of
       Inl e \<Rightarrow> (Inl e, s1)
     | Inr (res, written) \<Rightarrow>
         if res \<le> 0 then andthen (setm (\<lambda>t. t\<lparr>t_pendingSend := v\<rparr>)) (\<lambda>_.
             andthen (HandleResult os lib res) (\<lambda>ok. ret (ok, v))) s1
         else andthen (setm (\<lambda>t. t\<lparr>t_pendingSend := (0, 0)\<rparr>)) (\<lambda>_.
               if \<not> written \<le> snd v then throw AssertFailed
               else ret (True, (fst v + written, snd v - written))) s1) = (r, s')"
    using run True x by (cases x) (auto simp: write_step_def)
  note ends = ssl_do_ends(1) [OF spec [OF spec [OF assms(1) [unfolded writes_prefix_def]]] x]
  show thesis
  proof (cases x)
    case (Inl e)
    with ends run error show thesis by auto
  next
    case (Inr a)
    then obtain res written where a: "x = Inr (res, written)" by (cases a) simp
    show thesis
    proof (cases "res \<le> 0")
      case le: True
      let ?s = "((fst s1)\<lparr>t_pendingSend := v\<rparr>, snd s1)"
      obtain y s2 where y: "HandleResult os lib res ?s = (y, s2)" by (rule prod.exhaust)
      have "t_ssl (fst s2) = t_ssl (fst s1)" using HandleResult_session(1) [OF y] by simp
      with run a y ends le show thesis by (cases y) (auto intro: error ok [of _ 0])
    next
      case False
      then have "written \<le> snd v" "plain (t_ssl (fst s1)) = plain (t_ssl (fst s)) @ take written (view_content mem v)"
        using ends a by simp_all
      with run a False show thesis by (auto intro: ok [of _ written])
    qed
  qed
qed

lemma Write_loop_prefix:
  assumes "writes_prefix lib plain"
  shows "Write_loop os lib mem n (a, sz) s = (r, s') \<Longrightarrow>
    \<exists>m \<le> sz. plain (t_ssl (fst s')) = plain (t_ssl (fst s)) @ take m (view_content mem (a, sz))
      \<and> (case r of Inl e \<Rightarrow> True | Inr rem \<Rightarrow> rem = (a + m, sz - m))"
proof (induction n arbitrary: a sz s)
  case 0
  then show ?case by (intro exI [of _ 0]) auto
next
  case (Suc n)
  show ?case
  proof (cases "sz = 0")
    case True
    with Suc.prems show ?thesis by (intro exI [of _ 0]) auto
  next
    case False
    obtain x s1 where x: "write_step os lib mem (a, sz) s = (x, s1)" by (rule prod.exhaust)
    from assms x show ?thesis
    proof (cases rule: write_step_prefix)
      case (error e)
      with Suc.prems False x show ?thesis by (intro exI [of _ 0]) auto
    next
      case (ok go m)
      note x = x [unfolded ok(1), simplified]
      consider "\<not> go" | "go" "n = 0" | "go" "n \<noteq> 0" by blast
      then show ?thesis
      proof cases
        case 1
        with Suc.prems False x ok show ?thesis by (intro exI [of _ m]) (auto simp: andthen_def)
      next
        case 2
        with Suc.prems False x ok show ?thesis by (intro exI [of _ m]) (auto simp: andthen_def)
      next
        case 3
        then have "Write_loop os lib mem n (a + m, sz - m) s1 = (r, s')" using Suc.prems False x by (simp add: andthen_def)
        from Suc.IH [OF this] obtain m' where m': "m' \<le> sz - m"
          "plain (t_ssl (fst s')) = plain (t_ssl (fst s1)) @ take m' (view_content mem (a + m, sz - m))"
          "case r of Inl e \<Rightarrow> True | Inr rem \<Rightarrow> rem = (a + m + m', sz - m - m')" by blast
        with ok(2,3) have "plain (t_ssl (fst s')) = plain (t_ssl (fst s)) @ take (m + m') (view_content mem (a, sz))"
          by (simp add: take_add)
        with m' ok(2) show ?thesis by (intro exI [of _ "m + m'"]) (auto simp: add.assoc split: sum.splits)
      qed
    qed
  qed
qed

lemma HandleLastError_session:
  assumes "HandleLastError os lib s = (r, s')"
  shows "t_ssl (fst s') = t_ssl (fst s)" "t_pendingSend (fst s') = t_pendingSend (fst s)"
  using leavesD [OF leaves_HandleLastError assms] by (simp_all add: session_def)

lemma Write_prefix:
  assumes "writes_prefix lib plain" and run: "Write os lib mem data sz s = (r, s')"
  shows "\<exists>m \<le> sz. plain (t_ssl (fst s')) = plain (t_ssl (fst s)) @ take m (view_content mem (data, sz))
    \<and> (\<forall>n. r = Inr n \<longrightarrow> n = m)"
proof -
  obtain x s1 where x: "HandleLastError os lib s = (x, s1)" by (rule prod.exhaust)
  note same = HandleLastError_session(1) [OF x]
  consider e where "x = Inl e" | "x = Inr False" | "x = Inr True" by (cases x) auto
  then show ?thesis
  proof cases
    case 3
    obtain y s2 where y: "Write_loop os lib mem handshakeStepsMax (data, sz) s1 = (y, s2)" by (rule prod.exhaust)
    obtain m where "m \<le> sz" "plain (t_ssl (fst s2)) = plain (t_ssl (fst s1)) @ take m (view_content mem (data, sz))"
      "case y of Inl e \<Rightarrow> True | Inr rem \<Rightarrow> rem = (data + m, sz - m)"
      using Write_loop_prefix [OF assms(1) y] by blast
    with run x 3 y same show ?thesis by (intro exI [of _ m]) (cases y; auto simp: Write_def)
  qed (use run x same in \<open>auto simp: Write_def andthen_def intro!: exI [of _ 0]\<close>)
qed

text \<open>
  C10. Whatever OpenSSL does inside its calls, both ways to send on a TLS socket hand over a prefix of the data, in
  order and without repetition, across all handshake steps and retries: the count they return is exactly the
  number of bytes that the session accepted, and when they throw, a prefix was accepted as well.
\<close>

theorem Tls_send_prefix:
  assumes "writes_prefix lib plain"
    and "TlsSend os lib mem data sz timeout s = (r, s') \<or> TlsSendSome os lib mem data sz s = (r, s')"
  shows "\<exists>m \<le> sz. plain (t_ssl (fst s')) = plain (t_ssl (fst s)) @ take m (view_content mem (data, sz))
    \<and> (case r of Inl e \<Rightarrow> True | Inr n \<Rightarrow> n = m)"
proof -
  have "Write os lib mem data sz ((fst s)\<lparr>t_remainingTime := timeout\<rparr>, snd s) = (r, s')
      \<or> Write os lib mem data sz (deem_writable (fst s), snd s) = (r, s')"
    using assms(2) by (simp add: TlsSend_def TlsSendSome_def)
  moreover have "t_ssl (deem_writable (fst s)) = t_ssl (fst s)" by (simp add: deem_writable_def)
  ultimately show ?thesis using Write_prefix [OF assms(1)] by (elim disjE) (fastforce split: sum.splits)+
qed

lemma demo_writes_prefix: "writes_prefix (demo_ssl n) d_accepted"
  by (auto simp: writes_prefix_def demo_write_def demo_record_def min_def)

definition demo_memory :: memory where
  "demo_memory i = (if i < 6 then ''abcdef'' ! i else CHR ''-'')"

theorem Tls_send_prefix_witness:
  "\<exists>s'. TlsSend script_os (demo_ssl 4) demo_memory 0 6 (-1)
      (new_tls_sock 5 demo0, script0\<lparr>s_polls := replicate 3 (1, [{POLLOUT}]), s_sends := [5, 5, 5]\<rparr>) = (Inr 6, s')
    \<and> d_accepted (t_ssl (fst s')) = ''abcdef''"
proof -
  let ?s = "(new_tls_sock 5 demo0, script0\<lparr>s_polls := replicate 3 (1, [{POLLOUT}]), s_sends := [5, 5, 5]\<rparr>)"
  have "fst (TlsSend script_os (demo_ssl 4) demo_memory 0 6 (-1) ?s) = Inr 6" by code_simp
  then obtain s' where run: "TlsSend script_os (demo_ssl 4) demo_memory 0 6 (-1) ?s = (Inr 6, s')" by (metis prod.collapse)
  have "view_content demo_memory (0, 6) = ''abcdef''" by code_simp
  with Tls_send_prefix [OF demo_writes_prefix disjI1 [OF run]] run show ?thesis
    by (auto simp: new_tls_sock_def demo0_def)
qed

section \<open>The driver is never blocked\<close>

text \<open>A property of the world that every call keeps which cannot block: a \<^verbatim>\<open>poll\<close> only when its timeout is zero.\<close>

definition kept_without_waiting :: "'w os \<Rightarrow> ('w \<Rightarrow> bool) \<Rightarrow> bool" where
  "kept_without_waiting os I \<longleftrightarrow>
     (\<forall>pfds w. I w \<longrightarrow> I (snd (sys_poll os pfds 0 w)))
   \<and> (\<forall>s n w. I w \<longrightarrow> I (snd (sys_recv os s n w)))
   \<and> (\<forall>s d w. I w \<longrightarrow> I (snd (sys_send os s d w)))"

definition no_time :: "('w \<Rightarrow> bool) \<Rightarrow> 'l tls_sock \<times> 'w \<Rightarrow> bool" where
  "no_time I s \<longleftrightarrow> t_remainingTime (fst s) = 0 \<and> I (snd s)"

named_theorems at_once \<open>computations that do not wait\<close>

lemma ToMsec_0 [simp]: "ToMsec 0 = 0"
  by (simp add: ToMsec_def)

lemma at_once_world [at_once]:
  assumes "kept_without_waiting os I"
  shows "keeps I (WaitReadable os s 0)" "keeps I (WaitWritable os s 0)" "keeps I (ReceiveNow os s n)" "keeps I (SendNow os s d)"
    and "keeps I (Receive os s n 0)" "keeps I (SendTry os s d)"
proof -
  have poll: "keeps I (DoPoll os pfds 0)" for pfds
    unfolding DoPoll_def using assms by (intro keeps_call) (simp add: kept_without_waiting_def)
  have w: "keeps I (Wait_fd os s ev 0)" for ev
    unfolding Wait_fd_def ToMsec_0 by (intro keeps_intros poll) (auto split: prod.split)
  show *: "keeps I (WaitReadable os s 0)" "keeps I (WaitWritable os s 0)"
    unfolding WaitReadable_def WaitWritable_def by (rule w)+
  have r: "keeps I (call (sys_recv os s n))" and d: "keeps I (call (sys_send os s d))"
    using assms by (auto intro!: keeps_call simp: kept_without_waiting_def)
  show **: "keeps I (ReceiveNow os s n)" "keeps I (SendNow os s d)"
    unfolding ReceiveNow_def SendNow_def by (intro keeps_intros r d; auto split: prod.split intro!: keeps_intros)+
  show "keeps I (Receive os s n 0)" "keeps I (SendTry os s d)"
    unfolding Receive_def SendTry_def by (intro keeps_intros * **; auto intro!: keeps_intros **)+
qed

lemma at_once_tls [at_once]:
  "keeps (no_time I) (getm f)"
  "(\<And>t. t_remainingTime (u t) = t_remainingTime t) \<Longrightarrow> keeps (no_time I) (setm u)"
  "keeps I m \<Longrightarrow> keeps (no_time I) (on_world m)"
  by (auto simp: keeps_def no_time_def)

lemma at_once_remaining [at_once]:
  "keeps (no_time I) (f 0) \<Longrightarrow> keeps (no_time I) (andthen (getm t_remainingTime) f)"
  "(\<And>s. keeps (no_time I) (g (s, 0))) \<Longrightarrow> keeps (no_time I) (andthen (getm (\<lambda>t. (t_fd t, t_remainingTime t))) g)"
  by (auto simp: keeps_def andthen_def no_time_def)

lemma at_once_UnderDeadline [at_once]: "keeps (no_time I) m \<Longrightarrow> keeps (no_time I) (UnderDeadline os m)"
proof (rule keepsI)
  fix s r t assume m: "keeps (no_time I) m" and s: "no_time I s" and run: "UnderDeadline os m s = (r, t)"
  from s run have "m s = (r, t)" by (simp add: UnderDeadline_def no_time_def andthen_def)
  with m s show "no_time I t" by (metis keepsD)
qed

lemma at_once_bio:
  assumes "kept_without_waiting os I"
  shows "keeps (no_time I) (bio_Read os sz)" and "keeps (no_time I) (bio_Write os data)"
proof -
  have "keeps (no_time I) (TlsBioRead os n)" for n
    unfolding TlsBioRead_def
    by (rule keeps_andthen, rule at_once, rule keeps_andthen, rule at_once)
      (auto split: option.split intro!: keeps_andthen at_once at_once_world [OF assms])
  then show "keeps (no_time I) (bio_Read os sz)" unfolding bio_Read_def by (intro keeps_andthen) (auto split: prod.split)
  have "keeps (no_time I) (TlsBioWrite os data)"
    unfolding TlsBioWrite_def
    by (rule keeps_andthen, rule at_once, rule keeps_andthen, rule at_once)
      (auto intro!: at_once keeps_andthen [where m = "setm _"] at_once_world [OF assms])
  then show "keeps (no_time I) (bio_Write os data)" unfolding bio_Write_def by (intro keeps_andthen) auto
qed

lemma at_once_ssl:
  assumes "kept_without_waiting os I"
  shows "keeps (no_time I) (ssl_run c os)"
proof (induction c)
  case (CallRead l sz k)
  have "keeps (no_time I) (ssl_run (k r) os)" for r by (rule CallRead.IH) simp
  then show ?case unfolding ssl_run.simps by (intro keeps_andthen at_once at_once_bio [OF assms]) auto
next
  case (CallWrite l data k)
  have "keeps (no_time I) (ssl_run (k r) os)" for r by (rule CallWrite.IH) simp
  then show ?case unfolding ssl_run.simps by (intro keeps_andthen at_once at_once_bio [OF assms]) auto
next
  case (Finished l a)
  show ?case unfolding ssl_run.simps by (intro keeps_andthen at_once keeps_ret) simp
qed

lemma at_once_do: "kept_without_waiting os I \<Longrightarrow> keeps (no_time I) (ssl_do os f)"
  unfolding ssl_do_def by (intro keeps_andthen at_once at_once_ssl)

lemma at_once_HandleError:
  assumes "kept_without_waiting os I"
  shows "keeps (no_time I) (HandleError os lib e)"
  unfolding HandleError_def
  by (cases e) (auto intro!: at_once at_once_world [OF assms] keeps_intros)

lemma at_once_HandleLastError: "kept_without_waiting os I \<Longrightarrow> keeps (no_time I) (HandleLastError os lib)"
  unfolding HandleLastError_def
  by (rule keeps_andthen, rule at_once, rule keeps_andthen, erule at_once_HandleError)
    (auto intro!: keeps_andthen at_once)

lemma at_once_HandleResult: "kept_without_waiting os I \<Longrightarrow> keeps (no_time I) (HandleResult os lib res)"
  unfolding HandleResult_def by (intro keeps_andthen at_once at_once_HandleLastError) simp_all

lemma at_once_Read:
  assumes "kept_without_waiting os I"
  shows "keeps (no_time I) (Read os lib sz)"
proof -
  have "keeps (no_time I) (Read_loop os lib sz n)" for n
  proof (induction n)
    case (Suc n)
    then show ?case unfolding Read_loop.simps
      by (intro keeps_andthen at_once_do assms) (auto intro!: keeps_andthen at_once_HandleResult assms split: prod.split)
  qed (unfold Read_loop.simps, rule keeps_ret)
  then show ?thesis unfolding Read_def by (intro keeps_andthen at_once_HandleLastError assms) auto
qed

lemma at_once_Write:
  assumes "kept_without_waiting os I"
  shows "keeps (no_time I) (Write os lib mem data sz)"
proof -
  have "keeps (no_time I) (write_step os lib mem v)" for v
    unfolding write_step_def
    by (auto intro!: keeps_andthen at_once at_once_do at_once_HandleResult assms split: prod.split)
  then have "keeps (no_time I) (Write_loop os lib mem n v)" for n v
    by (induction n arbitrary: v) (auto intro!: keeps_andthen split: prod.split)
  then show ?thesis unfolding Write_def
    by (intro keeps_andthen at_once_HandleLastError assms) auto
qed

lemma keeps_getm: "keeps J (getm f)"
  by (simp add: keeps_def)

lemma at_once_start:
  assumes "\<And>t. t_remainingTime (u t) = 0" and "keeps (no_time I) m"
  shows "keeps (\<lambda>s. I (snd s)) (andthen (setm u) (\<lambda>_. m))"
proof -
  have "I (snd (snd (m (u t, w))))" if "I w" for t w
  proof -
    have "no_time I (u t, w)" using assms(1) that by (simp add: no_time_def)
    with assms(2) have "no_time I (snd (m (u t, w)))" unfolding keeps_def by blast
    then show ?thesis by (simp add: no_time_def)
  qed
  then show ?thesis by (auto simp: keeps_def)
qed

text \<open>
  C11. What the driver calls on a TLS socket never blocks: reading, writing and carrying on a handshake only
  make receiving and sending calls and calls of \<^verbatim>\<open>poll\<close> with timeout zero, whatever OpenSSL does, whatever
  was pending before, and also when they throw.
\<close>

theorem Tls_driver_calls_do_not_wait:
  assumes "kept_without_waiting os I"
  shows "keeps (\<lambda>s. I (snd s)) (TlsReceive os lib sz) \<and> keeps (\<lambda>s. I (snd s)) (TlsSendSome os lib mem data sz)
    \<and> keeps (\<lambda>s. I (snd s)) (TlsDriverPending os lib)"
proof (intro conjI)
  show "keeps (\<lambda>s. I (snd s)) (TlsReceive os lib sz)"
    unfolding TlsReceive_def
  proof (rule at_once_start)
    have fin: "keeps (no_time I) (andthen (setm (\<lambda>t. if P t then t\<lparr>t_lastError := SSL_ERROR_NONE\<rparr> else t)) (\<lambda>_. ret x))" for P x
      by (intro keeps_andthen at_once keeps_ret) simp
    show "keeps (no_time I) (andthen (Read os lib sz) (\<lambda>(received, data).
        andthen (setm (\<lambda>t. if received = 0 \<and> SSL_is_init_finished lib (t_ssl t)
            then t\<lparr>t_lastError := SSL_ERROR_NONE\<rparr> else t)) (\<lambda>_. ret (received, data))))"
      unfolding case_prod_beta by (intro keeps_andthen at_once_Read assms fin)
  qed simp
  show "keeps (\<lambda>s. I (snd s)) (TlsSendSome os lib mem data sz)"
    unfolding TlsSendSome_def by (rule at_once_start [OF _ at_once_Write [OF assms]]) (simp add: deem_writable_def)
  show "keeps (\<lambda>s. I (snd s)) (TlsDriverPending os lib)"
    unfolding TlsDriverPending_def
  proof (rule keeps_andthen, rule keeps_getm, rule keeps_if, rule keeps_ret)
    show "keeps (\<lambda>s. I (snd s)) (andthen (setm deem_writable) (\<lambda>_. andthen (Read os lib 64) (\<lambda>(received, _).
         if received \<noteq> 0 then throw (LogicError ''unexpected receive'') else ret ())))"
      by (rule at_once_start) (auto simp: deem_writable_def intro!: keeps_andthen at_once_Read assms split: prod.split)
  qed
qed

theorem Tls_driver_calls_do_not_wait_witness:
  "keeps (\<lambda>s. 5 \<le> s_clock (snd s)) (TlsReceive script_os (demo_ssl 4) 100)"
proof -
  have "kept_without_waiting script_os (\<lambda>w. 5 \<le> s_clock w)"
    by (auto simp: kept_without_waiting_def script_calls Let_def split: list.splits)
  from Tls_driver_calls_do_not_wait [OF this] show ?thesis by blast
qed

end
