(* ===== verification/TlsDriver.thy ===== *)
theory TlsDriver
  imports TlsSpec
begin

text \<open>
  The TLS socket under the driver: a wish to send survives the handshake.  Then the two places where the
  assertions of the sending loop do not hold: payloads of many records, and a retry after the driver has
  moved the unsent rest of a buffer to its front.
\<close>

section \<open>The wish to send during a handshake\<close>

text \<open>No operation but the query of the driver touches the flag that remembers a suppressed wish.\<close>

definition suppressed :: "'l tls_sock \<times> 'w \<Rightarrow> bool" where
  "suppressed s = t_driverSendSuppressed (fst s)"

named_theorems leaves_suppressed \<open>computations that do not touch the flag\<close>

lemma session_suppressed: "leaves session m \<Longrightarrow> leaves suppressed m"
  by (simp add: leaves_def session_def suppressed_def)

lemma ssl_ends_True: "ssl_ends c (\<lambda>_ _. True) (\<lambda>_. True)"
  by (induction c) auto

lemma ssl_do_suppressed [leaves_suppressed]: "leaves suppressed (ssl_do os f)"
proof (unfold leaves_def, intro allI)
  fix s
  obtain r t where run: "ssl_do os f s = (r, t)" by (rule prod.exhaust)
  with ssl_do_ends(3) [of f s, OF ssl_ends_True run] show "suppressed (snd (ssl_do os f s)) = suppressed s"
    by (simp add: suppressed_def)
qed

lemmas leaves_suppressed_handle [leaves_suppressed] =
  leaves_HandleResult [THEN session_suppressed] leaves_HandleLastError [THEN session_suppressed]

lemma setm_suppressed [leaves_suppressed]:
  "(\<And>t. t_driverSendSuppressed (u t) = t_driverSendSuppressed t) \<Longrightarrow> leaves suppressed (setm u)"
  "leaves suppressed (getm f)" "leaves suppressed (ret x)" "leaves suppressed (throw e)"
  by (simp_all add: leaves_def suppressed_def)

lemma Read_suppressed [leaves_suppressed]: "leaves suppressed (Read os lib sz)"
proof -
  have "leaves suppressed (Read_loop os lib sz n)" for n
  proof (induction n)
    case (Suc n)
    then show ?case unfolding Read_loop.simps case_prod_beta
      by (intro leaves_andthen leaves_if leaves_suppressed)
  qed (unfold Read_loop.simps, rule leaves_basic)
  then show ?thesis unfolding Read_def by (intro leaves_andthen leaves_if leaves_suppressed)
qed

lemma Write_suppressed [leaves_suppressed]: "leaves suppressed (Write os lib mem data sz)"
proof -
  have step: "leaves suppressed (write_step os lib mem v)" for v
    unfolding write_step_def case_prod_beta by (intro leaves_andthen leaves_if leaves_suppressed; simp)
  have "leaves suppressed (Write_loop os lib mem n v)" for n v
  proof (induction n arbitrary: v)
    case (Suc n)
    then show ?case unfolding Write_loop.simps case_prod_beta by (intro leaves_andthen leaves_if leaves_suppressed step)
  qed (unfold Write_loop.simps, rule leaves_basic)
  then show ?thesis unfolding Write_def by (intro leaves_andthen leaves_if leaves_suppressed)
qed

lemma TlsReceive_suppressed: "leaves suppressed (TlsReceive os lib sz)"
  unfolding TlsReceive_def case_prod_beta by (intro leaves_andthen leaves_suppressed) simp_all

lemma TlsSendSome_suppressed: "leaves suppressed (TlsSendSome os lib mem data sz)"
  unfolding TlsSendSome_def by (intro leaves_andthen leaves_suppressed) (simp add: deem_writable_def)

lemma TlsDriverPending_suppressed: "leaves suppressed (TlsDriverPending os lib)"
  unfolding TlsDriverPending_def case_prod_beta
  by (intro leaves_andthen leaves_if leaves_suppressed) (simp add: deem_writable_def)

text \<open>
  The driver's entry for a TLS socket, with the events it polls for, the socket and the world, and whether there is
  something to send.  Sending while the queue is empty asks for write events; a query lets the socket adapt
  them; a readable or writable socket is read or written; write events end when the queue is empty.
\<close>

inductive tls_polled :: "'w os \<Rightarrow> 'l openssl \<Rightarrow> pollflag set \<Rightarrow> 'l tls_sock \<times> 'w \<Rightarrow> bool \<Rightarrow> bool" for os lib where
  start: "tls_polled os lib {POLLIN} (new_tls_sock fd l, w) False"
| want: "tls_polled os lib ev s q \<Longrightarrow> tls_polled os lib (insert POLLOUT ev) s True"
| query: "tls_polled os lib ev s q \<Longrightarrow> TlsDriverQuery lib ev s = (Inr ev', s') \<Longrightarrow> tls_polled os lib ev' s' q"
| readable: "tls_polled os lib ev s q \<Longrightarrow> TlsReceive os lib sz s = (r, s') \<Longrightarrow> tls_polled os lib ev s' q"
| partial: "tls_polled os lib ev s True \<Longrightarrow> POLLOUT \<in> ev \<Longrightarrow> TlsSendSome os lib mem data sz s = (r, s') \<Longrightarrow>
    tls_polled os lib ev s' True"
| emptied: "tls_polled os lib ev s True \<Longrightarrow> POLLOUT \<in> ev \<Longrightarrow> TlsSendSome os lib mem data sz s = (r, s') \<Longrightarrow>
    tls_polled os lib (ev - {POLLOUT}) s' False"
| handshake: "tls_polled os lib ev s False \<Longrightarrow> POLLOUT \<in> ev \<Longrightarrow> TlsDriverPending os lib s = (Inr (), s') \<Longrightarrow>
    tls_polled os lib (ev - {POLLOUT}) s' False"

lemma tls_polled_wish: "tls_polled os lib ev s q \<Longrightarrow> q \<Longrightarrow> POLLOUT \<in> ev \<or> suppressed s"
proof (induction rule: tls_polled.induct)
  case (query ev s q ev' s')
  then show ?case
    by (cases s) (auto simp: TlsDriverQuery_def query_events_def suppressed_def split: if_splits)
next
  case (readable ev s q sz r s')
  then show ?case using leavesD [OF TlsReceive_suppressed readable(2)] by simp
qed auto

text \<open>
  C12. A wish to send is never lost in the handshake: while something is queued, the next query of the driver
  asks for write events as soon as the handshake is finished, or waits for the socket to become writable itself,
  and before that it is either being polled for or remembered by the socket.
\<close>

theorem Tls_wish_survives:
  assumes "tls_polled os lib ev s True"
  shows "(POLLOUT \<in> ev \<or> t_driverSendSuppressed (fst s))
    \<and> (SSL_is_init_finished lib (t_ssl (fst s)) \<or> t_lastError (fst s) = SSL_ERROR_WANT_WRITE \<longrightarrow>
        (\<exists>ev' s'. TlsDriverQuery lib ev s = (Inr ev', s') \<and> POLLOUT \<in> ev'))"
  using tls_polled_wish [OF assms] by (cases s) (auto simp: TlsDriverQuery_def query_events_def suppressed_def)

definition stuck_socket :: "demo tls_sock \<times> script" where
  "stuck_socket = (new_tls_sock 5 demo0, script0\<lparr>s_polls := [(0, [])], s_sends := [3]\<rparr>)"

theorem Tls_wish_survives_witness:
  "\<exists>s ev' s'. TlsSendSome script_os (demo_ssl 4) demo_memory 0 6 stuck_socket = (Inr 0, s)
    \<and> TlsDriverQuery (demo_ssl 4) {POLLIN, POLLOUT} s = (Inr ev', s') \<and> POLLOUT \<in> ev'"
proof -
  let ?send = "TlsSendSome script_os (demo_ssl 4) demo_memory 0 6 stuck_socket"
  have "fst ?send = Inr 0 \<and> t_lastError (fst (snd ?send)) = SSL_ERROR_WANT_WRITE" by code_simp
  then obtain s where run: "?send = (Inr 0, s)" and e: "t_lastError (fst s) = SSL_ERROR_WANT_WRITE" by (metis prod.collapse)
  have "tls_polled script_os (demo_ssl 4) {POLLIN} stuck_socket False" unfolding stuck_socket_def by (rule tls_polled.start)
  from tls_polled.partial [OF tls_polled.want [OF this] _ run]
  have "tls_polled script_os (demo_ssl 4) {POLLIN, POLLOUT} s True" by (simp add: insert_commute)
  from Tls_wish_survives [OF this] run e show ?thesis by auto
qed

section \<open>Payloads of many records\<close>

text \<open>
  With partial writes enabled, \<^verbatim>\<open>SSL_write_ex\<close> accepts at most one record per call.  Here every call does, as on
  a connection whose peer keeps up; \<open>J\<close> describes such states.
\<close>

definition one_record :: "'w os \<Rightarrow> 'l openssl \<Rightarrow> nat \<Rightarrow> ('l tls_sock \<times> 'w \<Rightarrow> bool) \<Rightarrow> bool" where
  "one_record os lib n J \<longleftrightarrow> 0 < n \<and> (\<forall>s d. J s \<and> d \<noteq> [] \<longrightarrow>
     (\<exists>r t w. ssl_do os (\<lambda>l. SSL_write_ex lib l d) s = (Inr (r, min n (length d)), (t, w)) \<and> 0 < r
        \<and> J (t\<lparr>t_pendingSend := (0, 0)\<rparr>, w)))"

lemma view_content_Nil [simp]: "view_content mem v = [] \<longleftrightarrow> snd v = 0"
  using view_content_simps(1) [of mem v] by (metis length_0_conv)

lemma write_step_record:
  assumes "one_record os lib n J" and "J s" and "snd (t_pendingSend (fst s)) = 0" and "0 < sz"
  shows "\<exists>s'. write_step os lib mem (a, sz) s = (Inr (True, (a + min n sz, sz - min n sz)), s') \<and> J s'
    \<and> snd (t_pendingSend (fst s')) = 0"
proof -
  have "view_content mem (a, sz) \<noteq> []" "length (view_content mem (a, sz)) = sz" using assms(4) by simp_all
  with assms(1,2) obtain r t w where run: "0 < r" "J (t\<lparr>t_pendingSend := (0, 0)\<rparr>, w)"
    "ssl_do os (\<lambda>l. SSL_write_ex lib l (view_content mem (a, sz))) s = (Inr (r, min n sz), (t, w))"
    unfolding one_record_def by metis
  with assms(3) show ?thesis by (simp add: write_step_def andthen_def)
qed

lemma Write_loop_records:
  assumes "one_record os lib n J"
  shows "J s \<Longrightarrow> snd (t_pendingSend (fst s)) = 0 \<Longrightarrow> 0 < k \<Longrightarrow>
    fst (Write_loop os lib mem k (a, sz) s) = (if sz \<le> (k - 1) * n then Inr (a + sz, 0) else Inl AssertFailed)"
proof (induction k arbitrary: a sz s)
  case (Suc k)
  show ?case
  proof (cases "sz = 0")
    case False
    then obtain s' where s': "write_step os lib mem (a, sz) s = (Inr (True, (a + min n sz, sz - min n sz)), s')"
      "J s'" "snd (t_pendingSend (fst s')) = 0" using write_step_record [OF assms Suc.prems(1,2)] by blast
    show ?thesis
    proof (cases k)
      case 0
      with False s' show ?thesis by (simp add: andthen_def)
    next
      case (Suc j)
      have "0 < n" using assms by (simp add: one_record_def)
      have "fst (Write_loop os lib mem (Suc k) (a, sz) s) = fst (Write_loop os lib mem k (a + min n sz, sz - min n sz) s')"
        using False s'(1) Suc by (simp add: andthen_def)
      also have "\<dots> = (if sz - min n sz \<le> (k - 1) * n then Inr (a + min n sz + (sz - min n sz), 0) else Inl AssertFailed)"
        using Suc by (intro Suc.IH s'(2,3)) simp
      also have "\<dots> = (if sz \<le> (Suc k - 1) * n then Inr (a + sz, 0) else Inl AssertFailed)"
        using Suc by (auto simp: min_def)
      finally show ?thesis .
    qed
  qed simp
qed simp

text \<open>
  C13. Sending on an established TLS connection works up to nine records: a longer payload fails the assertion that
  is meant to detect an endless handshake, although every single write makes progress, and whatever the timeout.
  Shorter payloads are sent completely.
\<close>

theorem Tls_send_records:
  assumes "one_record os lib n J" and "J (t\<lparr>t_remainingTime := timeout\<rparr>, w)"
    and "t_lastError t = SSL_ERROR_NONE" and "snd (t_pendingSend t) = 0"
  shows "fst (TlsSend os lib mem data sz timeout (t, w)) = (if sz \<le> 9 * n then Inr sz else Inl AssertFailed)"
proof -
  let ?s = "(t\<lparr>t_remainingTime := timeout\<rparr>, w)"
  have "t\<lparr>t_remainingTime := timeout, t_lastError := SSL_ERROR_NONE\<rparr> = t\<lparr>t_remainingTime := timeout\<rparr>"
    using assms(3) by simp
  then have "HandleLastError os lib ?s = (Inr True, ?s)"
    using assms(3) by (simp add: HandleLastError_def HandleError_def)
  then have "fst (TlsSend os lib mem data sz timeout (t, w)) =
    (case fst (Write_loop os lib mem 10 (data, sz) ?s) of
       Inl e \<Rightarrow> Inl e | Inr rem \<Rightarrow> if \<not> snd rem \<le> sz then Inl AssertFailed else Inr (sz - snd rem))"
    by (simp add: TlsSend_def Write_def handshakeStepsMax_def andthen_def split: prod.split sum.split)
  with Write_loop_records [OF assms(1,2), of 10] assms(4) show ?thesis by simp
qed

text \<open>A system that takes everything at once, and a connection with records of two bytes on it.\<close>

definition open_os :: "script os" where
  "open_os = script_os\<lparr>sys_poll := (\<lambda>pfds t w. ((1, pfds), w)), sys_send := (\<lambda>s d w. (int (length d), w))\<rparr>"

definition open_connection :: "demo tls_sock \<times> script \<Rightarrow> bool" where
  "open_connection s \<longleftrightarrow> d_finished (t_ssl (fst s)) \<and> t_remainingTime (fst s) = -1 \<and> \<not> t_isWritable (fst s)"

lemma open_os_SendAll: "SendAll open_os s (c # d) w = (Inr (Suc (length d)), w)"
proof -
  have "WaitWritable open_os s (-1) w = (Inr True, w)"
    by (simp add: WaitWritable_def Wait_fd_def DoPoll_def open_os_def andthen_def)
  moreover have "nat (1 + int (length d)) = Suc (length d)" by linarith
  then have "SendNow open_os s (c # d) w = (Inr (Suc (length d)), w)"
    by (simp add: SendNow_def open_os_def andthen_def)
  ultimately have "SendAll_loop open_os s (c # d) w = (Inr [], w)"
    using SendAll_loop.simps [of open_os s "c # d" w] by (simp add: andthen_def)
  then show ?thesis by (simp add: SendAll_def andthen_def)
qed

lemma open_record: "one_record open_os (demo_ssl 2) 2 open_connection"
proof -
  have "\<exists>t' w'. ssl_do open_os (\<lambda>l. SSL_write_ex (demo_ssl 2) l d) (t, w) = (Inr (1, min 2 (length d)), (t', w'))
      \<and> open_connection (t'\<lparr>t_pendingSend := (0, 0)\<rparr>, w')" if "open_connection (t, w)" for t w d
    using that open_os_SendAll
    by (simp add: open_connection_def ssl_do_def demo_write_def demo_record_def bio_Write_def TlsBioWrite_def andthen_def min.commute)
  then show ?thesis unfolding one_record_def by (metis prod.collapse zero_less_numeral zero_less_one)
qed

theorem Tls_send_records_witness:
  "fst (TlsSend open_os (demo_ssl 2) demo_memory 0 18 (-1) (new_tls_sock 5 (demo0\<lparr>d_finished := True\<rparr>), script0)) = Inr 18
    \<and> fst (TlsSend open_os (demo_ssl 2) demo_memory 0 19 (-1) (new_tls_sock 5 (demo0\<lparr>d_finished := True\<rparr>), script0)) = Inl AssertFailed"
proof -
  let ?t = "new_tls_sock 5 (demo0\<lparr>d_finished := True\<rparr>)"
  have "open_connection (?t\<lparr>t_remainingTime := -1\<rparr>, script0)" "t_lastError ?t = SSL_ERROR_NONE" "snd (t_pendingSend ?t) = 0"
    by (simp_all add: new_tls_sock_def open_connection_def)
  note sent = Tls_send_records [OF open_record this, of demo_memory 0]
  from sent [of 18] sent [of 19] show ?thesis by simp
qed

section \<open>A retry after the buffer was shifted\<close>

text \<open>
  \<^verbatim>\<open>erase(0, n)\<close> on a string of \<open>sz\<close> characters: the rest moves to the front and is terminated; what is behind
  it in memory stays.
\<close>

definition erase_front :: "nat \<Rightarrow> nat \<Rightarrow> nat \<Rightarrow> memory \<Rightarrow> memory" where
  "erase_front data n sz mem =
     (\<lambda>i. if data \<le> i \<and> i < data + (sz - n) then mem (i + n) else if i = data + (sz - n) then CHR 0x00 else mem i)"

text \<open>The session accepts the first \<open>n\<close> bytes, then wants to write but the socket is not writable any more.\<close>

definition accepts_then_blocks :: "'w os \<Rightarrow> 'l openssl \<Rightarrow> string \<Rightarrow> nat \<Rightarrow> 'l tls_sock \<times> 'w \<Rightarrow> bool" where
  "accepts_then_blocks os lib d n s \<longleftrightarrow> 0 < n \<and> n < length d \<and>
     (\<exists>r1 t1 w1 r2 x t2 w2.
        ssl_do os (\<lambda>l. SSL_write_ex lib l d) s = (Inr (r1, n), (t1, w1)) \<and> 0 < r1
      \<and> ssl_do os (\<lambda>l. SSL_write_ex lib l (drop n d)) (t1\<lparr>t_pendingSend := (0, 0)\<rparr>, w1) = (Inr (r2, x), (t2, w2)) \<and> r2 \<le> 0
      \<and> SSL_get_error lib (t_ssl t2) r2 = SSL_ERROR_WANT_WRITE \<and> fst (WaitWritable os (t_fd t2) 0 w2) = Inr False)"

lemma ssl_do_no_time:
  assumes "ssl_do os f (t, w) = (r, (t', w'))" and "t_remainingTime t = 0"
  shows "t_remainingTime t' = 0"
proof -
  have "kept_without_waiting os (\<lambda>_. True)" by (simp add: kept_without_waiting_def)
  from keepsD [OF at_once_do [OF this] assms(1)] assms(2) show ?thesis by (simp add: no_time_def)
qed

lemma TlsSendSome_partial:
  assumes lib: "accepts_then_blocks os lib (view_content mem (data, sz)) n (deem_writable t, w)"
    and "t_lastError t = SSL_ERROR_NONE" and "snd (t_pendingSend t) = 0"
  shows "\<exists>t' w'. TlsSendSome os lib mem data sz (t, w) = (Inr n, (t', w')) \<and> t_pendingSend t' = (data + n, sz - n)
    \<and> t_lastError t' = SSL_ERROR_WANT_WRITE"
proof -
  let ?t = "deem_writable t"
  obtain r1 t1 w1 r2 x t2 w2 where n: "0 < n" "n < sz"
    and w1: "ssl_do os (\<lambda>l. SSL_write_ex lib l (view_content mem (data, sz))) (?t, w) = (Inr (r1, n), (t1, w1))" "0 < r1"
    and w2: "ssl_do os (\<lambda>l. SSL_write_ex lib l (view_content mem (data + n, sz - n))) (t1\<lparr>t_pendingSend := (0, 0)\<rparr>, w1)
      = (Inr (r2, x), (t2, w2))" "r2 \<le> 0"
    and e: "SSL_get_error lib (t_ssl t2) r2 = SSL_ERROR_WANT_WRITE" "fst (WaitWritable os (t_fd t2) 0 w2) = Inr False"
    using lib by (auto simp: accepts_then_blocks_def)
  have t: "t_pendingSend ?t = t_pendingSend t" "t_lastError ?t = SSL_ERROR_NONE" "t_remainingTime ?t = 0"
    using assms(2) by (simp_all add: deem_writable_def)
  have "t_remainingTime t1 = 0" using ssl_do_no_time [OF w1(1)] t(3) by simp
  then have r0: "t_remainingTime t2 = 0" using ssl_do_no_time [OF w2(1)] by simp
  obtain w' where poll: "WaitWritable os (t_fd t2) 0 w2 = (Inr False, w')" using e(2) by (metis prod.collapse)
  let ?t2 = "t2\<lparr>t_pendingSend := (data + n, sz - n), t_lastError := SSL_ERROR_WANT_WRITE\<rparr>"
  have s1: "write_step os lib mem (data, sz) (?t, w) = (Inr (True, (data + n, sz - n)), (t1\<lparr>t_pendingSend := (0, 0)\<rparr>, w1))"
    using w1 n assms(3) t(1) by (simp add: write_step_def andthen_def)
  have s2: "write_step os lib mem (data + n, sz - n) (t1\<lparr>t_pendingSend := (0, 0)\<rparr>, w1) = (Inr (False, (data + n, sz - n)), (?t2, w'))"
    using w2 e(1) poll r0 by (simp add: write_step_def HandleResult_def HandleLastError_def HandleError_def UnderDeadline_def andthen_def)
  have "Write_loop os lib mem (Suc (Suc (Suc k))) (data, sz) (?t, w) = (Inr (data + n, sz - n), (?t2, w'))" for k
    using s1 s2 n by (simp add: andthen_def)
  from this [of 7] have "Write_loop os lib mem handshakeStepsMax (data, sz) (?t, w) = (Inr (data + n, sz - n), (?t2, w'))"
    by (simp add: handshakeStepsMax_def)
  moreover have "?t\<lparr>t_lastError := SSL_ERROR_NONE\<rparr> = ?t" using t(2) by simp
  then have "HandleLastError os lib (?t, w) = (Inr True, (?t, w))"
    using t(2) by (simp add: HandleLastError_def HandleError_def)
  ultimately have "TlsSendSome os lib mem data sz (t, w) = (Inr n, (?t2, w'))"
    using n by (simp add: TlsSendSome_def Write_def andthen_def)
  then show ?thesis by auto
qed

lemma TlsSendSome_stale:
  assumes "snd (t_pendingSend t) \<noteq> 0" and "view_content mem (t_pendingSend t) \<noteq> view_content mem (data, sz)" and "0 < sz"
    and "t_lastError t = SSL_ERROR_WANT_WRITE"
  shows "fst (TlsSendSome os lib mem data sz (t, w)) = Inl AssertFailed"
proof -
  let ?s = "(deem_writable t, w)"
  have p: "t_pendingSend (deem_writable t) = t_pendingSend t" "t_lastError (deem_writable t) = SSL_ERROR_NONE"
    using assms(4) by (simp_all add: deem_writable_def)
  then have e: "HandleLastError os lib ?s = (Inr True, ((deem_writable t)\<lparr>t_lastError := SSL_ERROR_NONE\<rparr>, w))"
    by (simp add: HandleLastError_def HandleError_def)
  have "Write_loop os lib mem (Suc k) (data, sz) ((deem_writable t)\<lparr>t_lastError := SSL_ERROR_NONE\<rparr>, w) =
      (Inl AssertFailed, ((deem_writable t)\<lparr>t_lastError := SSL_ERROR_NONE\<rparr>, w))" for k
    using assms(1-3) p(1) by (simp add: write_step_def)
  from this [of 9] have "Write_loop os lib mem handshakeStepsMax (data, sz) ((deem_writable t)\<lparr>t_lastError := SSL_ERROR_NONE\<rparr>, w) =
      (Inl AssertFailed, ((deem_writable t)\<lparr>t_lastError := SSL_ERROR_NONE\<rparr>, w))" by (simp add: handshakeStepsMax_def)
  with e show ?thesis by (simp add: TlsSendSome_def Write_def)
qed

text \<open>
  C14. After a partial send, the driver erases what was sent from the front of the buffer and retries with the
  rest, the same bytes at a new address.  The socket compares them with its view of the old address, which now
  shows other bytes unless the erased and the remaining part happen to agree: the assertion fails although
  the caller has done what the socket demands.
\<close>

theorem Tls_retry_after_erase:
  assumes "accepts_then_blocks os lib (view_content mem (data, sz)) n (deem_writable t, w)"
    and "t_lastError t = SSL_ERROR_NONE" and "snd (t_pendingSend t) = 0"
    and "view_content (erase_front data n sz mem) (data + n, sz - n) \<noteq> drop n (view_content mem (data, sz))"
  shows "\<exists>t' w'. TlsSendSome os lib mem data sz (t, w) = (Inr n, (t', w'))
    \<and> view_content (erase_front data n sz mem) (data, sz - n) = drop n (view_content mem (data, sz))
    \<and> fst (TlsSendSome os lib (erase_front data n sz mem) data (sz - n) (t', v)) = Inl AssertFailed"
proof -
  let ?mem = "erase_front data n sz mem"
  obtain t' w' where t': "TlsSendSome os lib mem data sz (t, w) = (Inr n, (t', w'))" "t_pendingSend t' = (data + n, sz - n)"
    "t_lastError t' = SSL_ERROR_WANT_WRITE" using TlsSendSome_partial [OF assms(1-3)] by blast
  have n: "0 < n" "n < sz" using assms(1) by (simp_all add: accepts_then_blocks_def)
  have same: "view_content ?mem (data, sz - n) = drop n (view_content mem (data, sz))"
    by (rule nth_equalityI) (use n in \<open>auto simp: view_content_def erase_front_def add.commute add.left_commute\<close>)
  have "fst (TlsSendSome os lib ?mem data (sz - n) (t', v)) = Inl AssertFailed"
    by (rule TlsSendSome_stale) (use n t' same assms(4) in simp_all)
  with t'(1) same show ?thesis by blast
qed

text \<open>The first record of two bytes goes out, the second finds the socket full.\<close>

definition full_world :: script where
  "full_world = script0\<lparr>s_polls := [(0, []), (0, [])], s_sends := [3]\<rparr>"

lemma demo_accepts_then_blocks:
  "accepts_then_blocks script_os (demo_ssl 2) ''abcdef'' 2 (deem_writable (new_tls_sock 5 (demo0\<lparr>d_finished := True\<rparr>)), full_world)"
proof -
  let ?s = "(deem_writable (new_tls_sock 5 (demo0\<lparr>d_finished := True\<rparr>)), full_world)"
  let ?w = "\<lambda>d. ssl_do script_os (\<lambda>l. SSL_write_ex (demo_ssl 2) l d)"
  have "fst (?w ''abcdef'' ?s) = Inr (1, 2)" by code_simp
  then obtain t1 w1 where 1: "?w ''abcdef'' ?s = (Inr (1, 2), (t1, w1))" by (metis prod.collapse)
  let ?s1 = "((fst (snd (?w ''abcdef'' ?s)))\<lparr>t_pendingSend := (0, 0)\<rparr>, snd (snd (?w ''abcdef'' ?s)))"
  have "(fst (?w ''cdef'' ?s1), d_error (t_ssl (fst (snd (?w ''cdef'' ?s1)))),
      fst (WaitWritable script_os (t_fd (fst (snd (?w ''cdef'' ?s1)))) 0 (snd (snd (?w ''cdef'' ?s1)))))
      = (Inr (-1, 0), SSL_ERROR_WANT_WRITE, Inr False)" by code_simp
  moreover have "?s1 = (t1\<lparr>t_pendingSend := (0, 0)\<rparr>, w1)" by (simp only: 1 fst_conv snd_conv)
  ultimately have "fst (?w ''cdef'' (t1\<lparr>t_pendingSend := (0, 0)\<rparr>, w1)) = Inr (-1, 0)
      \<and> d_error (t_ssl (fst (snd (?w ''cdef'' (t1\<lparr>t_pendingSend := (0, 0)\<rparr>, w1))))) = SSL_ERROR_WANT_WRITE
      \<and> fst (WaitWritable script_os (t_fd (fst (snd (?w ''cdef'' (t1\<lparr>t_pendingSend := (0, 0)\<rparr>, w1))))) 0
          (snd (snd (?w ''cdef'' (t1\<lparr>t_pendingSend := (0, 0)\<rparr>, w1))))) = Inr False"
    by simp
  then obtain t2 w2 where "?w ''cdef'' (t1\<lparr>t_pendingSend := (0, 0)\<rparr>, w1) = (Inr (-1, 0), (t2, w2))"
    "d_error (t_ssl t2) = SSL_ERROR_WANT_WRITE" "fst (WaitWritable script_os (t_fd t2) 0 w2) = Inr False"
    by (metis prod.collapse)
  with 1 show ?thesis unfolding accepts_then_blocks_def
    by (intro conjI exI [of _ 1] exI [of _ t1] exI [of _ w1] exI [of _ "-1"] exI [of _ 0] exI [of _ t2] exI [of _ w2]) simp_all
qed

theorem Tls_retry_after_erase_witness:
  "\<exists>s. TlsSendSome script_os (demo_ssl 2) demo_memory 0 6 (new_tls_sock 5 (demo0\<lparr>d_finished := True\<rparr>), full_world) = (Inr 2, s)
    \<and> view_content (erase_front 0 2 6 demo_memory) (0, 4) = ''cdef''
    \<and> fst (TlsSendSome script_os (demo_ssl 2) (erase_front 0 2 6 demo_memory) 0 4 (fst s, script0)) = Inl AssertFailed"
proof -
  have d: "view_content demo_memory (0, 6) = ''abcdef''" by code_simp
  have "view_content (erase_front 0 2 6 demo_memory) (2, 4) = ''ef'' @ [CHR 0x00] @ ''f''" by code_simp
  then have stale: "view_content (erase_front 0 2 6 demo_memory) (0 + 2, 6 - 2) \<noteq> drop 2 (view_content demo_memory (0, 6))"
    unfolding d add_0_left by (simp add: numeral_eq_Suc)
  from Tls_retry_after_erase [OF demo_accepts_then_blocks [folded d] _ _ stale, of script0] d show ?thesis
    by (auto simp: new_tls_sock_def)
qed

end
