(* ===== verification/TlsWorld.thy ===== *)
theory TlsWorld
  imports TlsDriver DriverSpec
begin

text \<open>
  A driver that runs plain and TLS sockets together.  The world of such a driver is that of the system and the
  TLS state of every socket; a TLS socket's functions work on its own state and the system.
\<close>

section \<open>The world with TLS sessions\<close>

type_synonym ('w, 'l) tls_world = "'w \<times> (sock_id \<Rightarrow> 'l tls_sock)"

definition beside :: "('w \<Rightarrow> 'a \<times> 'w) \<Rightarrow> 'w \<times> 's \<Rightarrow> 'a \<times> 'w \<times> 's" where
  "beside f p = (case f (fst p) of (a, w) \<Rightarrow> (a, w, snd p))"

lemma snd_beside [simp]: "snd (snd (beside f p)) = snd p"
  by (simp add: beside_def split: prod.split)

definition beside_os :: "'w os \<Rightarrow> ('w \<times> 's) os" where
  "beside_os os = \<lparr>
     sys_now = beside (sys_now os),
     sys_poll = (\<lambda>ps t. beside (sys_poll os ps t)),
     sys_errno = (\<lambda>p. sys_errno os (fst p)),
     sys_socket = (\<lambda>f t p. beside (sys_socket os f t p)),
     sys_close = (\<lambda>s p. (sys_close os s (fst p), snd p)),
     sys_fcntl_getfl = (\<lambda>s. beside (sys_fcntl_getfl os s)),
     sys_fcntl_setfl = (\<lambda>s flags. beside (sys_fcntl_setfl os s flags)),
     sys_O_NONBLOCK = sys_O_NONBLOCK os,
     sys_has_nosigpipe = sys_has_nosigpipe os,
     sys_setsockopt = (\<lambda>s opt v. beside (sys_setsockopt os s opt v)),
     sys_getsockopt = (\<lambda>s opt. beside (sys_getsockopt os s opt)),
     sys_recv = (\<lambda>s n. beside (sys_recv os s n)),
     sys_recvfrom = (\<lambda>s n. beside (sys_recvfrom os s n)),
     sys_send = (\<lambda>s d. beside (sys_send os s d)),
     sys_sendto = (\<lambda>s d a. beside (sys_sendto os s d a)),
     sys_bind = (\<lambda>s a. beside (sys_bind os s a)),
     sys_connect = (\<lambda>s a. beside (sys_connect os s a)),
     sys_listen = (\<lambda>s n. beside (sys_listen os s n)),
     sys_accept = (\<lambda>s. beside (sys_accept os s)),
     sys_getsockname = (\<lambda>s. beside (sys_getsockname os s)),
     sys_getpeername = (\<lambda>s. beside (sys_getpeername os s)),
     sys_what = sys_what os\<rparr>"

definition beside_nd :: "'w netdb \<Rightarrow> ('w \<times> 's) netdb" where
  "beside_nd nd = \<lparr>
     nd_getaddrinfo = (\<lambda>h s x. beside (nd_getaddrinfo nd h s x)),
     nd_getnameinfo = (\<lambda>a h s. beside (nd_getnameinfo nd a h s)),
     nd_getifaddrs = beside (nd_getifaddrs nd),
     nd_family = nd_family nd, nd_sin_port = nd_sin_port nd, nd_sin6_port = nd_sin6_port nd,
     nd_sizeof_in = nd_sizeof_in nd, nd_sizeof_in6 = nd_sizeof_in6 nd, nd_sizeof_storage = nd_sizeof_storage nd,
     nd_IFF_LOOPBACK = nd_IFF_LOOPBACK nd, nd_MAXHOST = nd_MAXHOST nd, nd_MAXSERV = nd_MAXSERV nd\<rparr>"

interpretation beside: calm_system snd "beside_os os" "beside_nd nd"
  by unfold_locales (simp_all add: beside_os_def beside_nd_def)

text \<open>One TLS socket in this world.\<close>

definition in_session :: "sock_id \<Rightarrow> ('l, 'w, 'a) tls_exec \<Rightarrow> (('w, 'l) tls_world, 'a) exec" where
  "in_session k = zoom (\<lambda>p. (snd p k, fst p)) (\<lambda>s p. (snd s, (snd p)(k := fst s)))"

text \<open>
  The functions that the TLS socket overrides.  \<open>place\<close> says where in memory the data of a buffer is; the memory that a
  previous, incomplete call left behind may be anything.  Of the destructor this table has the shutdown of the
  connection and the closing of the descriptor.
\<close>

definition tls_vtable ::
  "'w os \<Rightarrow> 'w netdb \<Rightarrow> 'l openssl \<Rightarrow> (string \<Rightarrow> memory \<times> nat) \<Rightarrow> sock_id \<Rightarrow> ('w, 'l) tls_world vtable" where
  "tls_vtable os nd lib place k = \<lparr>
     v_Receive_wait = (\<lambda>s n timeout. in_session k (TlsReceive_wait os lib n timeout)),
     v_Receive = (\<lambda>s n. in_session k (TlsReceive os lib n)),
     v_Send = (\<lambda>s d timeout. in_session k (TlsSend os lib (fst (place d)) (snd (place d)) (length d) timeout)),
     v_SendSome = (\<lambda>s d. in_session k (TlsSendSome os lib (fst (place d)) (snd (place d)) (length d))),
     v_Connect = (\<lambda>s a. in_session k (TlsConnect os nd lib a)),
     v_Accept = SocketImpl_Accept (beside_os os) (beside_nd nd),
     v_DriverQuery = (\<lambda>s events. in_session k (TlsDriverQuery lib events)),
     v_DriverPending = (\<lambda>s. in_session k (TlsDriverPending os lib)),
     v_destroy = (\<lambda>s p. SocketImpl_destroy (beside_os os) s (snd (in_session k (destructor_body os lib) p)))\<rparr>"

definition mixed_env ::
  "'w os \<Rightarrow> 'w netdb \<Rightarrow> 'l openssl \<Rightarrow> (string \<Rightarrow> memory \<times> nat) \<Rightarrow> (sock_id \<Rightarrow> bool) \<Rightarrow> ('w, 'l) tls_world user
    \<Rightarrow> ('w, 'l) tls_world env" where
  "mixed_env os nd lib place tls user =
     \<lparr>e_os = beside_os os, e_nd = beside_nd nd,
      e_vt = (\<lambda>k. if tls k then tls_vtable os nd lib place k else SocketImpl_vtable (beside_os os) (beside_nd nd)),
      e_user = user, e_with_tls = True\<rparr>"

section \<open>Wishes to send\<close>

text \<open>
  A plain socket is polled for writing exactly while something is queued.  A TLS socket with something queued is
  polled for writing unless it has noted that it holds the wish back.
\<close>

definition wishes :: "(sock_id \<Rightarrow> bool) \<Rightarrow> ('w, 'l) tls_world \<Rightarrow> sock_id \<Rightarrow> bool \<Rightarrow> bool \<Rightarrow> bool" where
  "wishes tls p k queued out \<longleftrightarrow>
     (if tls k then queued \<longrightarrow> out \<or> t_driverSendSuppressed (snd p k) else out = queued)"

lemma leavesD': "leaves f m \<Longrightarrow> f (snd (m s)) = f s"
  by (simp add: leaves_def)

lemma wishes_cong: "(\<And>k. t_driverSendSuppressed (snd p k) = t_driverSendSuppressed (snd p' k)) \<Longrightarrow> wishes tls p = wishes tls p'"
  by (simp add: fun_eq_iff wishes_def)

lemma leaves_wishes: "leaves suppressed m \<Longrightarrow> leaves (wishes tls) (in_session k m)"
  unfolding leaves_def by (intro allI wishes_cong) (auto simp: in_session_def suppressed_def)

lemma beside_wishes: "calm_system (wishes tls) (beside_os os) (beside_nd nd)"
  by unfold_locales (intro wishes_cong; simp add: beside.calls)+

lemma destructor_suppressed: "leaves suppressed (destructor_body os lib)"
proof -
  have "leaves suppressed (Shutdown_loop os lib n)" for n
  proof (induction n)
    case (Suc n)
    then show ?case unfolding Shutdown_loop.simps case_prod_beta
      by (intro leaves_andthen leaves_if leaves_suppressed)
  qed (unfold Shutdown_loop.simps, rule leaves_basic)
  then show ?thesis unfolding destructor_body_def Shutdown_def
    by (intro leaves_andthen leaves_if leaves_catch leaves_suppressed) simp_all
qed

section \<open>The driver keeps the wishes\<close>

lemma query_events_wish:
  assumes "query_events lib ev t = (ev', t')" and "POLLIN \<in> ev"
  shows "POLLIN \<in> ev'" and "POLLOUT \<in> ev \<or> t_driverSendSuppressed t \<Longrightarrow> POLLOUT \<in> ev' \<or> t_driverSendSuppressed t'"
  using assms by (auto simp: query_events_def split: if_splits)

lemma mixed_env_simps [simp]:
  "e_os (mixed_env os nd lib place tls user) = beside_os os" "e_nd (mixed_env os nd lib place tls user) = beside_nd nd"
  "e_user (mixed_env os nd lib place tls user) = user"
  "e_vt (mixed_env os nd lib place tls user) k =
     (if tls k then tls_vtable os nd lib place k else SocketImpl_vtable (beside_os os) (beside_nd nd))"
  by (simp_all add: mixed_env_def)

lemma tls_query_run:
  "v_DriverQuery (tls_vtable os nd lib place k) s ev p =
     (Inr (fst (query_events lib ev (snd p k))), (fst p, (snd p)(k := snd (query_events lib ev (snd p k)))))"
  by (simp add: tls_vtable_def in_session_def TlsDriverQuery_def split: prod.split)

lemmas beside_plain = calm_system.plain [OF beside_wishes]

lemma tls_leaves:
  "leaves (wishes tls) (v_SendSome (tls_vtable os nd lib place k) s d)"
  "leaves (wishes tls) (v_Receive (tls_vtable os nd lib place k) s n)"
  "leaves (wishes tls) (v_Accept (tls_vtable os nd lib place k) s)"
  "leaves (wishes tls) (v_DriverPending (tls_vtable os nd lib place k) s)"
  "wishes tls (v_destroy (tls_vtable os nd lib place k) s p) = wishes tls p"
  by (simp_all add: tls_vtable_def leaves_wishes TlsSendSome_suppressed TlsReceive_suppressed TlsDriverPending_suppressed
      calm_system.accepts [OF beside_wishes] calm_system.destroyed [OF beside_wishes] leavesD' [OF leaves_wishes [OF destructor_suppressed]])

lemma mixed_query_run:
  "v_DriverQuery (e_vt (mixed_env os nd lib place tls user) k) s ev p =
     (if tls k then (Inr (fst (query_events lib ev (snd p k))), (fst p, (snd p)(k := snd (query_events lib ev (snd p k)))))
      else (Inr ev, p))"
  by (simp add: tls_query_run SocketImpl_vtable_def SocketImpl_DriverQuery_def)

interpretation mixed: driven "wishes tls" "mixed_env os nd lib place tls user"
proof -
  let ?env = "mixed_env os nd lib place tls user"
  show "driven (wishes tls) ?env"
  proof (rule driven.intro)
    show "polling (wishes tls)" by unfold_locales (simp_all add: wishes_def)
    show "calm_system (wishes tls) (e_os ?env) (e_nd ?env)" using beside_wishes by simp
    show "driven_axioms (wishes tls) ?env"
    proof (unfold_locales, unfold mixed_query_run)
      fix k s ev p r p' j queued ev'
      let ?run = "if tls k then (Inr (fst (query_events lib ev (snd p k))),
          (fst p, (snd p)(k := snd (query_events lib ev (snd p k))))) else (Inr ev, p)"
      show "?run = (r, p') \<Longrightarrow> j \<noteq> k \<Longrightarrow> wishes tls p' j = wishes tls p j"
        by (auto simp: wishes_def fun_eq_iff split: if_splits)
      show "?run = (Inr ev', p') \<Longrightarrow> POLLIN \<in> ev \<Longrightarrow> wishes tls p k queued (POLLOUT \<in> ev)
          \<Longrightarrow> POLLIN \<in> ev' \<and> wishes tls p' k queued (POLLOUT \<in> ev')"
        using query_events_wish [of lib ev "snd p k", OF prod.collapse [symmetric]]
        by (auto simp: wishes_def split: if_splits)
    qed (auto simp: tls_leaves beside_plain split: if_splits)
  qed
qed

text \<open>
  A query of the driver takes back a wish that was held back as soon as the handshake is finished; the session
  itself stays as it is.
\<close>

definition settled :: "'l openssl \<Rightarrow> 'l tls_sock \<Rightarrow> bool" where
  "settled lib t \<longleftrightarrow> (SSL_is_init_finished lib (t_ssl t) \<longrightarrow> \<not> t_driverSendSuppressed t)"

lemma query_events_settles: "t_ssl (snd (query_events lib ev t)) = t_ssl t" "settled lib (snd (query_events lib ev t))"
  by (simp_all add: query_events_def settled_def)

lemma QuerySockets_loop_mixed:
  fixes h :: "('w, 'l) tls_world heap"
  assumes "driver_inv (wishes tls) h" and "ks = drop i (h_sockets h)"
  shows "\<exists>g. QuerySockets_loop (mixed_env os nd lib place tls user) i ks h = (Inr (), g) \<and> h_async g = h_async h \<and> h_sockets g = h_sockets h
    \<and> driver_inv (wishes tls) g
    \<and> (\<forall>k. t_ssl (snd (h_world g) k) = t_ssl (snd (h_world h) k)
        \<and> (tls k \<and> (k \<in> set ks \<or> settled lib (snd (h_world h) k)) \<longrightarrow> settled lib (snd (h_world g) k)))"
  using assms
proof (induction ks arbitrary: i h)
  case (Cons k ks)
  let ?env = "mixed_env os nd lib place tls user" and ?p = "h_pfds h ! Suc i"
  have i: "i < length (h_sockets h)" using Cons.prems(2) by (metis drop_eq_Nil list.distinct(1) not_le)
  then have k: "k = h_sockets h ! i" and ks: "ks = drop (Suc i) (h_sockets h)"
    using Cons.prems(2) by (metis Cons_nth_drop_Suc list.inject)+
  obtain ev w where run: "v_DriverQuery (e_vt ?env k) (DriverGetFd h k) (pfd_events ?p) (h_world h) = (Inr ev, w)"
    unfolding mixed_query_run by (metis prod.collapse)
  then have queried: "DriverQuery ?env k (pfd_events ?p) h = (Inr ev, h\<lparr>h_world := w\<rparr>)"
    by (simp add: DriverQuery_def andthen_def heap_world_def del: mixed_env_simps)
  let ?g = "h\<lparr>h_world := w, h_pfds := (h_pfds h)[Suc i := ?p\<lparr>pfd_events := ev\<rparr>]\<rparr>"
  have g: "driver_inv (wishes tls) ?g" using mixed.DriverQuery_keeps(2) [OF Cons.prems(1) i queried [unfolded k] refl] by simp
  have w: "t_ssl (snd w j) = t_ssl (snd (h_world h) j)"
    "tls j \<and> (j = k \<or> settled lib (snd (h_world h) j)) \<longrightarrow> settled lib (snd w j)" for j
    using run [unfolded mixed_query_run] query_events_settles [of lib] by (auto split: if_splits)
  have ks': "ks = drop (Suc i) (h_sockets ?g)" using ks by simp
  obtain t where t: "QuerySockets_loop ?env (Suc i) ks ?g = (Inr (), t)" "h_async t = h_async ?g" "h_sockets t = h_sockets ?g"
    "driver_inv (wishes tls) t"
    "\<And>j. t_ssl (snd (h_world t) j) = t_ssl (snd (h_world ?g) j)"
    "\<And>j. tls j \<and> (j \<in> set ks \<or> settled lib (snd (h_world ?g) j)) \<longrightarrow> settled lib (snd (h_world t) j)"
    using Cons.IH [OF g ks'] by auto
  have "QuerySockets_loop ?env i (k # ks) h = (Inr (), t)"
    using queried t(1) mixed.inv_fd [OF Cons.prems(1) i] k by (simp add: andthen_def)
  with t w show ?case by auto
qed (simp add: settled_def)

lemma QuerySockets_mixed:
  assumes "driver_inv (wishes tls) h"
  obtains g where "QuerySockets (mixed_env os nd lib place tls user) h = (Inr (), g)" and "h_async g = h_async h"
    and "h_sockets g = h_sockets h" and "driver_inv (wishes tls) g"
    and "\<And>k. t_ssl (snd (h_world g) k) = t_ssl (snd (h_world h) k)"
    and "\<And>k. tls k \<Longrightarrow> k \<in> set (h_sockets h) \<Longrightarrow> settled lib (snd (h_world g) k)"
proof -
  have "QuerySockets (mixed_env os nd lib place tls user) h = QuerySockets_loop (mixed_env os nd lib place tls user) 0 (h_sockets h) h"
    using mixed.inv_length [OF assms] by (simp add: QuerySockets_def mixed_env_def andthen_def)
  then show thesis using QuerySockets_loop_mixed [OF assms, of "h_sockets h" 0] that unfolding drop_0 by (metis (no_types, lifting))
qed

lemma beside_poll: "poll_only_revents os \<Longrightarrow> poll_only_revents (beside_os os)"
  unfolding poll_only_revents_def by (simp add: beside_os_def beside_def case_prod_unfold)


text \<open>
  A TLS connection that waits to read the answer of its peer when something is sent on it.
\<close>

lemma test_user_keeps: "user_keeps (driver_inv (wishes tls)) test_user"
  by (auto simp: user_keeps_def test_user_def keeps_def)

definition demo_env :: "(script, demo) tls_world env" where
  "demo_env = mixed_env script_os test_netdb_script (demo_ssl 4) (\<lambda>_. (demo_memory, 0)) (\<lambda>k. k = 7) test_user"

definition demo_connected :: "(script, demo) tls_world heap" where
  "demo_connected = snd (SocketTcpAsync demo_env 7 5 100 1
     (new_heap test_pipes (script0, \<lambda>_. (new_tls_sock 5 demo0)\<lparr>t_lastError := SSL_ERROR_WANT_READ\<rparr>)))"

definition demo_sending :: "(script, demo) tls_world heap" where
  "demo_sending = snd (Send 7 \<lparr>br_pool = 0, br_ptr = 0\<rparr> demo_connected)"

lemma demo_connected_reached: "driver_reach demo_env demo_connected"
proof -
  let ?w = "(script0, \<lambda>_. (new_tls_sock 5 demo0)\<lparr>t_lastError := SSL_ERROR_WANT_READ\<rparr>)"
  have "driver_reach demo_env (new_heap test_pipes ?w)"
    by (rule driver_reach.make) (simp add: test_pipes_def fdInvalid_def)
  moreover have "fresh (new_heap test_pipes ?w) 7 5" by (simp add: fresh_def new_heap_def test_pipes_def)
  ultimately show ?thesis unfolding demo_connected_def by (rule driver_reach.tcp)
qed

lemma demo_reached: "driver_reach demo_env demo_sending"
proof -
  have "h_sockets demo_connected = [7]" by code_simp
  then show ?thesis unfolding demo_sending_def
    by (intro driver_reach.send demo_connected_reached) (simp add: sends_clearly_def)
qed


end
