(* ===== verification/Roles.thy ===== *)
theory Roles
  imports DriverKeeps
begin

text \<open>
  \<^verbatim>\<open>SocketAsyncImpl\<close> serves three classes of the interface; its send queue is a \<^verbatim>\<open>std::variant\<close> whose alternative
  must be the one of the class.  It is, in every reachable state, so the accesses to the variant never throw.
\<close>

section \<open>The alternative of the queue\<close>

fun with_addresses :: "send_queue \<Rightarrow> bool" where
  "with_addresses (SendQ _) = False"
| "with_addresses (SendToQ _) = True"

definition kinds :: "'w heap \<Rightarrow> sock_id \<Rightarrow> bool \<times> bool" where
  "kinds h k = (as_role (h_async h k) = UdpRole, with_addresses (as_sendQ (h_async h k)))"

definition roles_ok :: "'w heap \<Rightarrow> bool" where
  "roles_ok h \<longleftrightarrow> (\<forall>k. with_addresses (as_sendQ (h_async h k)) = (as_role (h_async h k) = UdpRole))"

lemma roles_ok_kinds: "kinds g = kinds h \<Longrightarrow> roles_ok g = roles_ok h"
  by (simp add: roles_ok_def kinds_def fun_eq_iff)

lemma leaves_kinds_keeps: "leaves kinds m \<Longrightarrow> keeps roles_ok m"
  by (auto simp: leaves_def keeps_def dest: roles_ok_kinds)

lemma kinds_simps [simp]:
  "kinds (h\<lparr>h_world := w\<rparr>) = kinds h" "kinds (h\<lparr>h_pools := P\<rparr>) = kinds h" "kinds (h\<lparr>h_promises := Q\<rparr>) = kinds h"
  "kinds (h\<lparr>h_next_promise := n\<rparr>) = kinds h" "kinds (h\<lparr>h_todos := t\<rparr>) = kinds h" "kinds (h\<lparr>h_shouldStop := stop\<rparr>) = kinds h"
  "kinds (h\<lparr>h_sockets := ks\<rparr>) = kinds h" "kinds (h\<lparr>h_pfds := ps\<rparr>) = kinds h"
  "kinds (set_promise p v h) = kinds h" "kinds (buf_modify b f h) = kinds h" "kinds (buf_drop b h) = kinds h"
  by (simp_all add: kinds_def fun_eq_iff set_promise_def buf_modify_def buf_drop_def)

lemma kinds_pop [simp]: "kinds (pop_SendQ k b h) = kinds h"
  by (simp add: pop_SendQ_def) (auto simp: kinds_def fun_eq_iff upd_async_def split: send_queue.split)

lemma leaves_kinds [leaves_intros]: "leaves kinds (heap_world m)" "leaves kinds (heap_buffered p n)" "leaves kinds (lift_sum r)"
  by (simp_all add: leaves_def heap_world_def heap_buffered_def lift_sum_def kinds_def fun_eq_iff split: sum.split)

lemma leaves_kinds_lists [leaves_intros]:
  "leaves kinds (AsyncRegister k)" "leaves kinds (AsyncUnregister s)" "leaves kinds (AsyncWantSend s)"
  by (simp_all add: leaves_def AsyncRegister_def AsyncUnregister_def AsyncWantSend_def Let_def)

lemma Send_kinds: "leaves kinds (Send k b)" "leaves kinds (Async_SendTo k b a)"
proof -
  have "leaves kinds (DoSendEnqueue k p b)" "leaves kinds (DoSendEnqueue_to k p b a)" "leaves kinds new_promise" for p
    by (auto simp: leaves_def DoSendEnqueue_def DoSendEnqueue_to_def new_promise_def kinds_def fun_eq_iff upd_async_def set_promise_def
      split: send_queue.split)
  note parts = this
  show "leaves kinds (Send k b)" "leaves kinds (Async_SendTo k b a)"
    unfolding Send_def Async_SendTo_def DoSend_def by (intro leaves_intros parts)+
qed

section \<open>Every operation keeps it\<close>

lemma DriverOnWritable_kinds: "leaves kinds (DriverOnWritable env k)"
proof -
  have "leaves kinds (try_send env k p b)" "leaves kinds (try_send_to env k p b a)" for p b a
    unfolding try_send_def try_send_to_def by (intro leaves_intros; simp)+
  then have "leaves kinds (DriverSend env k q)" "leaves kinds (DriverSendTo env k q')" for q q'
    unfolding DriverSend_def DriverSendTo_def Let_def
    by (auto split: list.split prod.split intro!: leaves_intros)
  then show ?thesis unfolding DriverOnWritable_def by (auto split: send_queue.split intro!: leaves_intros)
qed

lemmas keeps_kinds [keeps_intros] = leaves_kinds [THEN leaves_kinds_keeps] leaves_kinds_lists [THEN leaves_kinds_keeps]

lemma roles_ok_simps [simp]: "roles_ok (h\<lparr>h_world := w\<rparr>) = roles_ok h" "roles_ok (h\<lparr>h_pfds := ps\<rparr>) = roles_ok h"
  "roles_ok (h\<lparr>h_todos := t\<rparr>) = roles_ok h" "roles_ok (h\<lparr>h_shouldStop := stop\<rparr>) = roles_ok h"
  "roles_ok (h\<lparr>h_pools := P\<rparr>) = roles_ok h"
  by (rule roles_ok_kinds; simp)+

lemma roles_ok_drop: "roles_ok h \<Longrightarrow> roles_ok (buf_drop b h)"
  using roles_ok_kinds [of "buf_drop b h" h] by simp

lemma serving_roles:
  assumes u: "user_keeps roles_ok (e_user env)"
  shows "keeps roles_ok (DriverOnError env k m)" "keeps roles_ok (DriverOnReadable env k)"
proof -
  note u = user_keepsD [OF u]
  have e: "keeps roles_ok (DriverOnError env k m)" for m
    unfolding DriverOnError_def DriverDisconnect_def
    by (intro keeps_intros) (auto split: role.split intro!: keeps_intros u)
  then show "keeps roles_ok (DriverOnError env k m)" .
  have c: "keeps roles_ok (catch_runtime env k m)" if "keeps roles_ok m" for m
    unfolding catch_runtime_def using that e by (intro keeps_intros)
  have "keeps roles_ok (DriverConnect env k)" "keeps roles_ok (DriverReceive env k)" "keeps roles_ok (DriverReceiveFrom env k)"
    unfolding DriverConnect_def DriverReceive_def DriverReceiveFrom_def Let_def case_prod_beta
    by (intro c keeps_intros u roles_ok_drop; assumption?)+
  then show "keeps roles_ok (DriverOnReadable env k)" unfolding DriverOnReadable_def by (intro keeps_intros) (auto split: role.split)
qed

lemma StepSockets_roles:
  assumes u: "user_keeps roles_ok (e_user env)"
  shows "keeps roles_ok (StepSockets env timeout)"
proof -
  have q: "keeps roles_ok (QuerySockets_loop env i ks)" for i ks
  proof (induction ks arbitrary: i)
    case (Cons k ks)
    then show ?case unfolding QuerySockets_loop.simps DriverQuery_def by (intro keeps_intros) simp_all
  qed simp
  have t: "keeps roles_ok (DoOneSocketTask_loop env i ks)" for i ks
  proof (induction ks arbitrary: i)
    case (Cons k ks)
    then show ?case unfolding DoOneSocketTask_loop.simps
      by (intro keeps_intros serving_roles [OF u] leaves_kinds_keeps [OF DriverOnWritable_kinds]) simp_all
  qed simp
  show ?thesis
    unfolding StepSockets_def QuerySockets_def wait_sockets_def Unbump_def DoOneSocketTask_def case_prod_beta
    by (intro keeps_intros q t) simp_all
qed

interpretation roles: stepping roles_ok env
  by unfold_locales (simp_all add: StepSockets_roles)

section \<open>Reachable states\<close>

lemma new_async_roles [keeps_intros]:
  "with_addresses q = (role = UdpRole) \<Longrightarrow> keeps roles_ok (new_async k s n pool role q)"
  by (simp add: keeps_def new_async_def roles_ok_def upd_async_def)

lemma constructors_roles:
  "keeps roles_ok (SocketUdpAsync k s n pool)" "keeps roles_ok (SocketTcpAsync env k s n pool)"
  "keeps roles_ok (SocketAcceptorAsync env' k s pool)"
  unfolding SocketUdpAsync_def SocketTcpAsync_def SocketAcceptorAsync_def case_prod_beta
  by (intro keeps_intros; simp)+

lemma kinds_drop_queue: "kinds (drop_queue q h) = kinds h"
proof -
  have b: "kinds (break_promise p h) = kinds h" for p and h :: "'w heap" by (simp add: break_promise_def)
  have "kinds (foldl (\<lambda>h (p, b). buf_drop b (break_promise p h)) h q) = kinds h" for q and h :: "'w heap"
    by (induction q arbitrary: h) (auto simp: b)
  moreover have "kinds (foldl (\<lambda>h (p, b, _). buf_drop b (break_promise p h)) h q) = kinds h"
    for q :: "(promise_id \<times> buf_ref \<times> address) list" and h :: "'w heap"
    by (induction q arbitrary: h) (auto simp: b)
  ultimately show ?thesis by (cases q) simp_all
qed

lemma destroy_roles: "keeps roles_ok (SocketAsyncImpl_destroy env k)"
  unfolding SocketAsyncImpl_destroy_def
  by (intro keeps_intros) (metis roles_ok_kinds kinds_drop_queue)

lemma Stop_roles: "keeps roles_ok (Stop env)"
  unfolding Stop_def Bump_def by (intro keeps_intros) simp

lemma reach_roles:
  assumes "user_keeps roles_ok (e_user env)" and "poll_only_revents (e_os env)" and "driver_reach env h"
  shows "roles_ok h"
  using assms(3)
proof induction
  case (make p w)
  show ?case by (simp add: roles_ok_def new_heap_def)
next
  case (udp h k s n pool)
  with constructors_roles(1) show ?case by (metis keeps_def)
next
  case (tcp h k s n pool)
  with constructors_roles(2) show ?case by (metis keeps_def)
next
  case (acceptor h k s pool)
  with constructors_roles(3) show ?case by (metis keeps_def)
next
  case (send h k b)
  with Send_kinds(1) leaves_kinds_keeps show ?case by (metis keeps_def)
next
  case (send_to h k b a)
  with Send_kinds(2) leaves_kinds_keeps show ?case by (metis keeps_def)
next
  case (destroy h k)
  with destroy_roles show ?case by (metis keeps_def)
next
  case (stop h)
  with Stop_roles show ?case by (metis keeps_def)
next
  case (step h fuel timeout r g)
  show ?case by (rule roles.Step_keeps [OF assms(1,2) step.IH step.hyps(2)])
next
  case (run h fuel n r g)
  show ?case by (rule roles.Run_keeps [OF assms(1,2) run.IH run.hyps(2)])
qed (simp_all add: Driver_ToDoInsert_def Driver_ToDoRemove_def Driver_ToDoMove_def)

end
