(* ===== verification/Public.thy ===== *)
theory Public
  imports Roles TlsWorld
begin

text \<open>
  The classes of the interface, \<^verbatim>\<open>src/socket.cpp\<close>, \<^verbatim>\<open>src/socket_buffered.cpp\<close> and \<^verbatim>\<open>src/socket_async.cpp\<close>, as far as they
  do more than to call their implementation under its own name: who owns the implementation, what the
  constructors check, and how a task gets its time.
\<close>

section \<open>Ownership\<close>

text \<open>
  Every class holds its implementation by a \<^verbatim>\<open>std::unique_ptr\<close>, empty after the object was moved from.  A constructor
  that takes an object over leaves it empty from the moment it has taken the pointer, even when it throws then;
  to use an empty object is an error of the program.
\<close>

definition taking :: "('b \<Rightarrow> ('s, 'a) exec) \<Rightarrow> ('b option \<times> 's, 'a) exec" where
  "taking f = (\<lambda>(p, s). case p of None \<Rightarrow> (Inl AssertFailed, (p, s)) | Some b \<Rightarrow> (case f b s of (r, t) \<Rightarrow> (r, (None, t))))"

lemma taking_None [simp]: "taking f (None, s) = (Inl AssertFailed, (None, s))"
  and taking_Some [simp]: "taking f (Some b, s) = (case f b s of (r, t) \<Rightarrow> (r, (None, t)))"
  by (simp_all add: taking_def)

section \<open>Basic sockets\<close>

text \<open>The functions that go through the pointer to a plain or a TLS implementation.\<close>

definition SocketUdp_ReceiveFrom :: "'w os \<Rightarrow> 'w netdb \<Rightarrow> fd \<Rightarrow> nat \<Rightarrow> duration \<Rightarrow> ('w, ((nat \<times> string) \<times> address) option) exec" where
  "SocketUdp_ReceiveFrom os nd impl n timeout = ReceiveFrom_wait os nd impl n timeout"

definition SocketTcp_Send :: "'w vtable \<Rightarrow> fd \<Rightarrow> string \<Rightarrow> duration \<Rightarrow> ('w, nat) exec" where
  "SocketTcp_Send vt impl data timeout = v_Send vt impl data timeout"

definition SocketTcp_Receive :: "'w vtable \<Rightarrow> fd \<Rightarrow> nat \<Rightarrow> duration \<Rightarrow> ('w, (nat \<times> string) option) exec" where
  "SocketTcp_Receive vt impl n timeout = v_Receive_wait vt impl n timeout"

definition ReceiveBufferSize :: "'w os \<Rightarrow> fd \<Rightarrow> ('w, nat) exec" where
  "ReceiveBufferSize os impl = GetSockOptRcvBuf os impl"

section \<open>Buffered sockets\<close>

definition SocketUdpBuffered :: "'w os \<Rightarrow> 'w vtable \<Rightarrow> 64 word \<Rightarrow> nat \<Rightarrow> (fd option \<times> 'w, nat \<times> pool) exec" where
  "SocketUdpBuffered os vt rxBufCount rxBufSize = taking (\<lambda>sock. SocketBufferedImpl os vt sock rxBufCount rxBufSize)"

definition SocketTcpBuffered :: "'w os \<Rightarrow> 'w vtable \<Rightarrow> 64 word \<Rightarrow> nat \<Rightarrow> (fd option \<times> 'w, nat \<times> pool) exec" where
  "SocketTcpBuffered os vt rxBufCount rxBufSize = taking (\<lambda>sock. SocketBufferedImpl os vt sock rxBufCount rxBufSize)"

definition SocketUdpBuffered_LocalAddress :: "'w os \<Rightarrow> 'w netdb \<Rightarrow> fd \<Rightarrow> ('w buffered, address) exec" where
  "SocketUdpBuffered_LocalAddress os nd sock = in_world (andthen (GetSockName os nd sock) (\<lambda>a. ret (Some a)))"

definition SocketTcpBuffered_LocalAddress :: "'w os \<Rightarrow> 'w netdb \<Rightarrow> fd \<Rightarrow> ('w buffered, address) exec" where
  "SocketTcpBuffered_LocalAddress os nd sock = in_world (andthen (GetSockName os nd sock) (\<lambda>a. ret (Some a)))"

definition SocketTcpBuffered_PeerAddress :: "'w os \<Rightarrow> 'w netdb \<Rightarrow> fd \<Rightarrow> ('w buffered, address) exec" where
  "SocketTcpBuffered_PeerAddress os nd sock = in_world (andthen (GetPeerName os nd sock) (\<lambda>a. ret (Some a)))"

section \<open>Asynchronous sockets\<close>

text \<open>
  A buffered socket in the heap: its descriptor, the size of its buffers and its pool.
\<close>

record buffered_impl =
  bi_sock :: fd
  bi_rxBufSize :: nat
  bi_pool :: nat

text \<open>
  A handler is a \<^verbatim>\<open>std::function\<close>, which may be empty.  Which function a handler is, is what the table of user code of the
  environment says for the new socket.
\<close>

fun checked :: "'f option \<Rightarrow> exn + 'f" where
  "checked None = Inl (LogicError ''invalid handler'')"
| "checked (Some f) = Inr f"

text \<open>The arguments are checked before \<^verbatim>\<open>make_unique\<close> is entered, which takes the pointer over.\<close>

definition new_SocketUdpAsync :: "'f option \<Rightarrow> sock_id \<Rightarrow> (buffered_impl option \<times> 'w heap, unit) exec" where
  "new_SocketUdpAsync handleReceiveFrom k =
     andthen (lift_sum (checked handleReceiveFrom)) (\<lambda>_.
       taking (\<lambda>buff. SocketUdpAsync k (bi_sock buff) (bi_rxBufSize buff) (bi_pool buff)))"

definition new_SocketTcpAsync ::
  "'w env \<Rightarrow> 'f option \<Rightarrow> 'g option \<Rightarrow> sock_id \<Rightarrow> (buffered_impl option \<times> 'w heap, unit) exec" where
  "new_SocketTcpAsync env handleReceive handleDisconnect k =
     andthen (lift_sum (checked handleReceive)) (\<lambda>_.
     andthen (lift_sum (checked handleDisconnect)) (\<lambda>_.
       taking (\<lambda>buff. SocketTcpAsync env k (bi_sock buff) (bi_rxBufSize buff) (bi_pool buff))))"

definition new_AcceptorAsync :: "'w env \<Rightarrow> 'f option \<Rightarrow> sock_id \<Rightarrow> nat \<Rightarrow> (fd option \<times> 'w heap, unit) exec" where
  "new_AcceptorAsync env handleConnect k pool =
     andthen (lift_sum (checked handleConnect)) (\<lambda>_. taking (\<lambda>sock. AcceptorAsync env k sock pool))"

definition Async_LocalAddress :: "'w env \<Rightarrow> sock_id \<Rightarrow> ('w heap, address) exec" where
  "Async_LocalAddress env k =
     andthen (get (\<lambda>h. as_fd (h_async h k))) (\<lambda>s. heap_world (LocalAddress (e_os env) (e_nd env) s))"

definition Async_PeerAddress :: "'w env \<Rightarrow> sock_id \<Rightarrow> ('w heap, address) exec" where
  "Async_PeerAddress env k =
     andthen (get (\<lambda>h. as_fd (h_async h k))) (\<lambda>s. heap_world (PeerAddress (e_os env) (e_nd env) s))"

section \<open>Driver and tasks\<close>

definition Driver_new :: "'w os \<Rightarrow> 'w netdb \<Rightarrow> 'w \<Rightarrow> (exn + 'w heap) \<times> 'w" where
  "Driver_new os nd = andthen (DriverImpl os nd) (\<lambda>impl. get (new_heap impl))"

text \<open>The implementation of a task is made first; the constructors with a time then insert it.\<close>

definition make_ToDo :: "(todos \<Rightarrow> todo_id \<times> todos) \<Rightarrow> ('w heap, todo_id) exec" where
  "make_ToDo f = call (\<lambda>h. case f (h_todos h) of (t, s) \<Rightarrow> (t, h\<lparr>h_todos := s\<rparr>))"

definition Clock_now :: "'w env \<Rightarrow> ('w heap, timepoint) exec" where
  "Clock_now env = heap_world (call (sys_now (e_os env)))"

definition ToDo_new :: "('w heap, todo_id) exec" where
  "ToDo_new = make_ToDo ToDoImpl_unscheduled"

definition ToDo_new_at :: "timepoint \<Rightarrow> ('w heap, todo_id) exec" where
  "ToDo_new_at when =
     andthen (make_ToDo (ToDoImpl_at when)) (\<lambda>impl. andthen (Driver_ToDoInsert impl) (\<lambda>_. ret impl))"

definition ToDo_new_in :: "'w env \<Rightarrow> duration \<Rightarrow> ('w heap, todo_id) exec" where
  "ToDo_new_in env delay =
     andthen (Clock_now env) (\<lambda>now.
     andthen (make_ToDo (ToDoImpl_at (add_ms now delay))) (\<lambda>impl. andthen (Driver_ToDoInsert impl) (\<lambda>_. ret impl)))"

definition ToDo_Cancel :: "todo_id \<Rightarrow> ('w heap, unit) exec" where
  "ToDo_Cancel t = andthen (get h_alive) (\<lambda>alive. if alive then Driver_ToDoRemove t else ret ())"

definition ToDo_Shift_to :: "todo_id \<Rightarrow> timepoint \<Rightarrow> ('w heap, unit) exec" where
  "ToDo_Shift_to t when = andthen (get h_alive) (\<lambda>alive. if alive then Driver_ToDoMove t when else ret ())"

definition ToDo_Shift_in :: "'w env \<Rightarrow> todo_id \<Rightarrow> duration \<Rightarrow> ('w heap, unit) exec" where
  "ToDo_Shift_in env t delay =
     andthen (Clock_now env) (\<lambda>now. ToDo_Shift_to t (add_ms now delay))"

section \<open>Type safety of sending\<close>



section \<open>Constructors that throw\<close>

lemma taking_Inl:
  assumes "taking f (p, s) = (Inl e, (q, t))"
  shows "q = None" and "p = Some b \<Longrightarrow> f b s = (Inl e, t)" and "p = None \<Longrightarrow> t = s"
  using assms by (auto simp: taking_def split: option.splits prod.splits)

lemma checked_Inl: "andthen (lift_sum (checked f)) m s = (if f = None then (Inl (LogicError ''invalid handler''), s) else m (the f) s)"
  by (cases f) (simp_all add: lift_sum_def)

lemma SocketTcpAsync_Inl:
  assumes "SocketTcpAsync env k s n pool h = (Inl e, g)"
  shows "\<exists>w. g = h\<lparr>h_world := v_destroy (e_vt env k) s w\<rparr>"
proof -
  obtain r w where n: "GetPeerName (e_os env) (e_nd env) s (h_world h) = (r, w)" by fastforce
  with assms show ?thesis
    by (cases r) (auto simp: SocketTcpAsync_def andthen_def heap_world_def new_async_def AsyncRegister_def)
qed

text \<open>Unregistering the last registered socket takes the lists back to what they were.\<close>

lemma unregister_last:
  assumes ok: "driver_ok h" and f: "fresh h k s" and a: "as_fd a = s"
  defines "g \<equiv> snd (AsyncRegister k (upd_async k (\<lambda>_. a) h))"
  shows "h_sockets (snd (AsyncUnregister s g)) = h_sockets h" and "h_pfds (snd (AsyncUnregister s g)) = h_pfds h"
proof -
  have erase: "erase_found P (xs @ [x]) = xs" if "\<And>y. y \<in> set xs \<Longrightarrow> \<not> P y" "P x" for P and xs :: "'x list" and x
  proof -
    have "find_index P (xs @ [x]) = length xs" by (rule find_index_eq) (use that in \<open>auto simp: nth_append\<close>)
    then show ?thesis by (simp add: erase_found_def)
  qed
  have fd: "DriverGetFd g k = s" "\<And>j. j \<noteq> k \<Longrightarrow> DriverGetFd g j = DriverGetFd h j"
    using a by (simp_all add: g_def AsyncRegister_def upd_async_def DriverGetFd_def)
  have k: "k \<notin> set (h_sockets h)" "s \<noteq> h_pipeTo h" "s \<notin> DriverGetFd h ` set (h_sockets h)" using f by (simp_all add: fresh_def)
  have "\<not> FdEqual_pfd s p" if "p \<in> set (h_pfds h)" for p
  proof -
    obtain p0 ps where h: "h_pfds h = p0 # ps" "pfd_fd p0 = h_pipeTo h" "list_all2 (entry_ok h) (h_sockets h) ps"
      using ok by (rule driver_okE)
    with that k show ?thesis
      by (fastforce simp: FdEqual_pfd_def entry_ok_def list_all2_conv_all_nth in_set_conv_nth)
  qed
  then have "erase_found (FdEqual_pfd s) (h_pfds g) = h_pfds h"
    using fd(1) by (simp add: g_def AsyncRegister_def upd_async_def DriverGetFd_def FdEqual_pfd_def erase)
  moreover have "erase_found (FdEqual_sock g s) (h_sockets g) = h_sockets h"
  proof -
    have "h_sockets g = h_sockets h @ [k]" by (simp add: g_def AsyncRegister_def upd_async_def)
    moreover have "\<not> FdEqual_sock g s j" if "j \<in> set (h_sockets h)" for j
      using that k fd(2) [of j] by (auto simp: FdEqual_sock_def)
    ultimately show ?thesis using fd(1) by (simp add: erase FdEqual_sock_def)
  qed
  ultimately show "h_sockets (snd (AsyncUnregister s g)) = h_sockets h" "h_pfds (snd (AsyncUnregister s g)) = h_pfds h"
    by (simp_all add: AsyncUnregister_def)
qed

lemma FdEqual_sock_world [simp]: "FdEqual_sock (h\<lparr>h_world := w\<rparr>) = FdEqual_sock h"
  by (simp add: fun_eq_iff FdEqual_sock_def DriverGetFd_def)

lemma AcceptorAsync_Inl:
  assumes "driver_ok h" and "fresh h k s" and run: "AcceptorAsync env k s pool h = (Inl e, g)"
  shows "h_sockets g = h_sockets h \<and> h_pfds g = h_pfds h \<and> (\<exists>w. h_world g = v_destroy (e_vt env k) s w)"
proof -
  let ?a = "\<lparr>as_fd = s, as_rxBufSize = 1, as_pool = pool, as_role = AcceptorRole, as_sendQ = SendQ []\<rparr>"
  let ?h = "h\<lparr>h_pools := (h_pools h)(pool := BufferPool 0 1)\<rparr>"
  let ?g = "snd (AsyncRegister k (upd_async k (\<lambda>_. ?a) ?h))"
  have made: "SocketAcceptorAsync env k s pool h = (Inr (), ?g)"
    by (simp add: SocketAcceptorAsync_def SocketBufferedImpl_def heap_world_def new_async_def AsyncRegister_def upd_async_def)
  obtain r w where l: "Listen (e_os env) s (h_world h) = (r, w)" by fastforce
  have "h_world ?g = h_world h" by (simp add: AsyncRegister_def upd_async_def)
  then have "heap_world (Listen (e_os env) s) ?g = (r, ?g\<lparr>h_world := w\<rparr>)" using l by (simp add: heap_world_def)
  with run made have g: "g = snd (SocketAsyncImpl_destroy env k (?g\<lparr>h_world := w\<rparr>))"
    by (cases r) (auto simp: AcceptorAsync_def)
  have ok: "driver_ok ?h" "fresh ?h k s" using assms(1,2) driver_ok_cong [of ?h h] by (simp_all add: fresh_def DriverGetFd_def)
  let ?u = "snd (AsyncUnregister s (?g\<lparr>h_world := w\<rparr>))"
  have "h_sockets ?u = h_sockets (snd (AsyncUnregister s ?g))" "h_pfds ?u = h_pfds (snd (AsyncUnregister s ?g))"
    by (simp_all add: AsyncUnregister_def)
  with unregister_last [OF ok, of ?a] have lists: "h_sockets ?u = h_sockets h" "h_pfds ?u = h_pfds h" by simp_all
  have "h_alive h" using assms(1) by (rule driver_okE)
  then have "SocketAsyncImpl_destroy env k (?g\<lparr>h_world := w\<rparr>) = (Inr (), ?u\<lparr>h_world := v_destroy (e_vt env k) s w\<rparr>)"
    by (simp add: SocketAsyncImpl_destroy_def andthen_def AsyncRegister_def upd_async_def AsyncUnregister_def heap_world_def BufferPool_def)
  with g lists show ?thesis by auto
qed

text \<open>
  C33. The constructors of the asynchronous sockets are safe under exceptions: when one throws, the driver has the sockets and poll entries
  it had before.  An empty handler is refused before anything happens, so the caller still owns the socket; when
  a later part throws, the socket was taken over and is closed.  The constructor for UDP throws for no other
  reason than an empty handler, or an object that was moved from.
\<close>

theorem failed_constructors_leave_driver:
  assumes "driver_ok h"
  shows "(new_SocketUdpAsync f k (p, h) = (Inl e, (q, g)) \<longrightarrow> (f = None \<or> p = None) \<and> q = p \<and> g = h)
    \<and> (new_SocketTcpAsync env f f' k (p, h) = (Inl e, (q, g)) \<longrightarrow> h_sockets g = h_sockets h \<and> h_pfds g = h_pfds h
      \<and> (if f = None \<or> f' = None \<or> p = None then q = p \<and> g = h
          else q = None \<and> (\<exists>w. h_world g = v_destroy (e_vt env k) (bi_sock (the p)) w)))
    \<and> (new_AcceptorAsync env f k pool (s, h) = (Inl e, (t, g)) \<and> (s \<noteq> None \<longrightarrow> fresh h k (the s)) \<longrightarrow>
      h_sockets g = h_sockets h \<and> h_pfds g = h_pfds h
      \<and> (if f = None \<or> s = None then t = s \<and> g = h else t = None \<and> (\<exists>w. h_world g = v_destroy (e_vt env k) (the s) w)))"
proof (rule conjI [OF impI conjI [OF impI impI]])
  assume "new_SocketUdpAsync f k (p, h) = (Inl e, (q, g))"
  then show "(f = None \<or> p = None) \<and> q = p \<and> g = h"
    by (cases p) (auto simp: new_SocketUdpAsync_def checked_Inl SocketUdpAsync_def new_async_def AsyncRegister_def split: if_splits)
next
  assume run: "new_SocketTcpAsync env f f' k (p, h) = (Inl e, (q, g))"
  show "h_sockets g = h_sockets h \<and> h_pfds g = h_pfds h \<and> (if f = None \<or> f' = None \<or> p = None then q = p \<and> g = h
      else q = None \<and> (\<exists>w. h_world g = v_destroy (e_vt env k) (bi_sock (the p)) w))"
  proof (cases "f = None \<or> f' = None \<or> p = None")
    case True
    with run show ?thesis by (auto simp: new_SocketTcpAsync_def checked_Inl split: if_splits)
  next
    case False
    then obtain b where b: "p = Some b" by blast
    with run False have "q = None" "SocketTcpAsync env k (bi_sock b) (bi_rxBufSize b) (bi_pool b) h = (Inl e, g)"
      by (auto simp: new_SocketTcpAsync_def checked_Inl split: if_splits prod.splits)
    with SocketTcpAsync_Inl [OF this(2)] False b show ?thesis by auto
  qed
next
  assume run: "new_AcceptorAsync env f k pool (s, h) = (Inl e, (t, g)) \<and> (s \<noteq> None \<longrightarrow> fresh h k (the s))"
  show "h_sockets g = h_sockets h \<and> h_pfds g = h_pfds h
      \<and> (if f = None \<or> s = None then t = s \<and> g = h else t = None \<and> (\<exists>w. h_world g = v_destroy (e_vt env k) (the s) w))"
  proof (cases "f = None \<or> s = None")
    case True
    with run show ?thesis by (auto simp: new_AcceptorAsync_def checked_Inl split: if_splits)
  next
    case False
    then obtain b where b: "s = Some b" by blast
    with run False have "t = None" "AcceptorAsync env k b pool h = (Inl e, g)" "fresh h k b"
      by (auto simp: new_AcceptorAsync_def checked_Inl split: if_splits prod.splits)
    with AcceptorAsync_Inl [OF assms this(3,2)] False b show ?thesis by simp
  qed
qed

text \<open>Here the system refuses to listen.\<close>

theorem failed_constructors_leave_driver_witness:
  "\<exists>e g. new_AcceptorAsync test_env (Some ()) 7 1 (Some 5, new_heap test_pipes (script0\<lparr>s_result := (\<lambda>_. -1)\<rparr>)) = (Inl e, (None, g))
    \<and> h_sockets g = [] \<and> h_pfds g = h_pfds (new_heap test_pipes script0)"
proof -
  let ?h = "new_heap test_pipes (script0\<lparr>s_result := (\<lambda>_. -1)\<rparr>)"
  have ok: "driver_ok ?h" using plain.new_heap_ok [of test_pipes] by (simp add: test_pipes_def fdInvalid_def)
  have "isl (fst (new_AcceptorAsync test_env (Some ()) 7 1 (Some 5, ?h)))" by code_simp
  then obtain e t g where run: "new_AcceptorAsync test_env (Some ()) 7 1 (Some 5, ?h) = (Inl e, (t, g))"
    by (metis prod.collapse sum.collapse(1))
  moreover have "fresh ?h 7 5" by (simp add: fresh_def new_heap_def test_pipes_def)
  ultimately have "h_sockets g = h_sockets ?h \<and> h_pfds g = h_pfds ?h \<and> t = None"
    using failed_constructors_leave_driver [OF ok, of "Some ()" 7 None e None g test_env "Some ()" 1 "Some 5" t] by simp
  with run show ?thesis by (simp add: new_heap_def)
qed

end
