(* ===== verification/Song.thy ===== *)
theory Song
  imports Public
begin

text \<open>
  \<^verbatim>\<open>examples/sockpuppet_silent_song.cpp\<close>: a program that uses the tasks of the driver to print the lines of a song at
  the times that are written in front of them.
\<close>

section \<open>Lines\<close>

definition is_number :: "char \<Rightarrow> bool" where
  "is_number c \<longleftrightarrow> is_digit c \<or> c = CHR ''.''"

definition lrcLineRegex :: regex where
  "lrcLineRegex =
     Sq (lit ''['') (Sq (Grp 1 (Plus (Cls is_digit))) (Sq (lit '':'') (Sq (Grp 2 (Plus (Cls is_number)))
       (Sq (lit '']'') (Grp 3 (Star (Cls is_dot)))))))"

text \<open>Minutes, seconds and text of a line that matches.\<close>

definition match_line :: "string \<Rightarrow> (string \<times> string \<times> string) option" where
  "match_line line = map_option (\<lambda>match. (group match 1, group match 2, group match 3)) (regex_match lrcLineRegex line)"

lemma in_Sq_lit: "u \<in> set (outcomes (Sq (lit [c]) b) (i, cs, k)) \<longleftrightarrow> (\<exists>r. cs = c # r \<and> u \<in> set (outcomes b (Suc i, r, k)))"
  by (auto split: list.splits)

lemma in_Sq_Plus:
  "u \<in> set (outcomes (Sq (Grp n (Plus (Cls p))) b) (i, cs, k)) \<longleftrightarrow>
     (\<exists>h r. cs = h @ r \<and> h \<noteq> [] \<and> list_all p h \<and> u \<in> set (outcomes b (i + length h, r, k(n \<mapsto> h))))"
  unfolding set_outcomes_Sq set_outcomes_Grp_Plus by blast

lemma in_Star: "u \<in> set (outcomes (Grp n (Star (Cls p))) (i, cs, k)) \<longleftrightarrow>
    (\<exists>h r. cs = h @ r \<and> list_all p h \<and> u = (i + length h, r, k(n \<mapsto> h)))"
  unfolding set_outcomes_Grp_Star by blast

definition lrc_parts :: "string \<Rightarrow> string \<Rightarrow> string \<Rightarrow> string \<Rightarrow> bool" where
  "lrc_parts line m s t \<longleftrightarrow> line = ''['' @ m @ '':'' @ s @ '']'' @ t \<and> m \<noteq> [] \<and> list_all is_digit m
     \<and> s \<noteq> [] \<and> list_all is_number s \<and> list_all is_dot t"

lemma in_lrcLine:
  "(\<exists>i. (i, [], k) \<in> set (outcomes lrcLineRegex (0, line, Map.empty))) \<longleftrightarrow>
     (\<exists>m s t. k = [1 \<mapsto> m, 2 \<mapsto> s, 3 \<mapsto> t] \<and> lrc_parts line m s t)"
proof
  assume "\<exists>i. (i, [], k) \<in> set (outcomes lrcLineRegex (0, line, Map.empty))"
  then show "\<exists>m s t. k = [1 \<mapsto> m, 2 \<mapsto> s, 3 \<mapsto> t] \<and> lrc_parts line m s t"
    unfolding lrcLineRegex_def in_Sq_lit in_Sq_Plus in_Star lrc_parts_def by auto
next
  assume "\<exists>m s t. k = [1 \<mapsto> m, 2 \<mapsto> s, 3 \<mapsto> t] \<and> lrc_parts line m s t"
  then obtain m s t where k: "k = [1 \<mapsto> m, 2 \<mapsto> s, 3 \<mapsto> t]" and p: "lrc_parts line m s t" by blast
  show "\<exists>i. (i, [], k) \<in> set (outcomes lrcLineRegex (0, line, Map.empty))"
    unfolding lrcLineRegex_def in_Sq_lit in_Sq_Plus in_Star
    by (rule exI, rule exI [of _ "m @ '':'' @ s @ '']'' @ t"], rule conjI, use p in \<open>simp add: lrc_parts_def\<close>,
      rule exI [of _ m], rule exI [of _ "'':'' @ s @ '']'' @ t"], use p in \<open>simp add: lrc_parts_def\<close>,
      rule exI [of _ s], rule exI [of _ "'']'' @ t"], use p k in \<open>simp add: lrc_parts_def\<close>)
qed

lemma lrc_parts_unique:
  assumes "lrc_parts line m s t" and "lrc_parts line m' s' t'"
  shows "m = m' \<and> s = s' \<and> t = t'"
proof -
  have m: "takeWhile is_digit (m @ CHR '':'' # r) = m" if "list_all is_digit m" for m r
    using that by (simp add: takeWhile_append2 list_all_iff is_digit_def)
  have s: "takeWhile is_number (s @ CHR '']'' # r) = s" if "list_all is_number s" for s r
    using that by (simp add: takeWhile_append2 list_all_iff is_number_def is_digit_def)
  have "m = m'" using assms m [of m "s @ '']'' @ t"] m [of m' "s' @ '']'' @ t'"] by (simp add: lrc_parts_def)
  moreover from this have "s = s'" using assms s [of s t] s [of s' t'] by (simp add: lrc_parts_def)
  ultimately show ?thesis using assms by (simp add: lrc_parts_def)
qed

lemma match_line_iff: "match_line line = Some (m, s, t) \<longleftrightarrow> lrc_parts line m s t"
proof (cases "regex_match lrcLineRegex line")
  case None
  then have "(i, [], [1 \<mapsto> m, 2 \<mapsto> s, 3 \<mapsto> t]) \<notin> set (outcomes lrcLineRegex (0, line, Map.empty))" for i
    unfolding regex_match_None_iff whole_def by fastforce
  then have "\<not> lrc_parts line m s t" using in_lrcLine [of "[1 \<mapsto> m, 2 \<mapsto> s, 3 \<mapsto> t]" line] by blast
  with None show ?thesis by (simp add: match_line_def)
next
  case (Some k)
  then obtain m' s' t' where k: "k = [1 \<mapsto> m', 2 \<mapsto> s', 3 \<mapsto> t']" "lrc_parts line m' s' t'"
    using in_lrcLine [of k line] regex_match_SomeE by blast
  then have "match_line line = Some (m', s', t')" using Some by (simp add: match_line_def group_def)
  then show ?thesis using lrc_parts_unique [OF k(2)] k(2) by (metis option.inject prod.inject)
qed

lemma match_line_None_iff: "match_line line = None \<longleftrightarrow> (\<forall>m s t. \<not> lrc_parts line m s t)"
  using match_line_iff by (metis option.exhaust option.distinct(1) prod_cases3)

text \<open>
  C34. A line is taken apart as the expression says: minutes in digits, seconds in digits and dots, and a text without line
  terminators.  In particular no line that ends in a carriage return is sung: the lines of a file with DOS
  line ends, from which \<^verbatim>\<open>getline\<close> removes the line feed only, are all skipped.
\<close>

theorem match_line_parts:
  "(match_line line = Some (m, s, t) \<longleftrightarrow> line = ''['' @ m @ '':'' @ s @ '']'' @ t \<and> m \<noteq> [] \<and> list_all is_digit m
     \<and> s \<noteq> [] \<and> list_all is_number s \<and> list_all is_dot t)
    \<and> match_line (line @ [CHR 0x0D]) = None"
proof -
  have "\<not> lrc_parts (line @ [CHR 0x0D]) m s t" for m s t
  proof
    assume p: "lrc_parts (line @ [CHR 0x0D]) m s t"
    then have e: "line @ [CHR 0x0D] = (''['' @ m @ '':'' @ s @ '']'') @ t" and t: "list_all is_dot t" by (simp_all add: lrc_parts_def)
    have "CHR 0x0D = last ((''['' @ m @ '':'' @ s @ '']'') @ t)" unfolding e [symmetric] by (rule last_snoc [symmetric])
    also have "\<dots> = (if t = [] then CHR '']'' else last t)" by (simp del: append.simps)
    finally have "t \<noteq> [] \<and> last t = CHR 0x0D" by (auto split: if_splits)
    with t show False using last_in_set [of t] by (auto simp: list_all_iff is_dot_def)
  qed
  then show ?thesis using match_line_iff [of line m s t] by (simp add: match_line_None_iff lrc_parts_def)
qed

section \<open>Times\<close>

text \<open>
  \<^verbatim>\<open>operator>>\<close> for \<^verbatim>\<open>long\<close> on the digits that the expression lets through: a value that does not fit sets the stream's
  failure state.  The arithmetic of durations is that of the integers; for times of more
  than 290 million years the 64-bit arithmetic would overflow, which is undefined.
\<close>

definition ParseMinutes :: "string \<Rightarrow> exn + duration" where
  "ParseMinutes str =
     (let min = digits_val (takeWhile is_digit str)
      in if takeWhile is_digit str = [] \<or> 2 ^ 63 \<le> min then Inl (InvalidArgument ''invalid minutes'') else Inr (min * 60000))"

text \<open>
  \<^verbatim>\<open>operator>>\<close> for \<^verbatim>\<open>float\<close> reads digits with at most one point; the value is that of the numerator over a
  power of ten.
\<close>

definition read_decimal :: "string \<Rightarrow> (nat \<times> nat) option" where
  "read_decimal str =
     (let a = takeWhile is_digit str;
          b = (case dropWhile is_digit str of [] \<Rightarrow> [] | c # r \<Rightarrow> if c = CHR ''.'' then takeWhile is_digit r else [])
      in if a @ b = [] then None else Some (nat (digits_val (a @ b)), length b))"

text \<open>
  Numbers of \<^verbatim>\<open>float\<close> (IEEE binary32) are the multiples \<open>m * 2^k\<close> of the smallest positive one, \<open>2^-149\<close>, with
  \<open>m < 2^24\<close>; a number is given here by its quotient by \<open>2^-149\<close>.  The spacing at a quotient \<open>num / den\<close>, as an exponent, and
  the nearest float, the even one of two.  The 254 exponents reach up to the largest float.
\<close>

fun spacing :: "nat \<Rightarrow> nat \<Rightarrow> nat \<Rightarrow> nat \<Rightarrow> nat" where
  "spacing 0 k num den = k"
| "spacing (Suc n) k num den = (if num < 2 ^ 24 * 2 ^ k * den then k else spacing n (Suc k) num den)"

definition nearest_even :: "nat \<Rightarrow> nat \<Rightarrow> nat" where
  "nearest_even a b =
     (let q = a div b; r = a mod b
      in if 2 * r < b then q else if b < 2 * r then q + 1 else if even q then q else q + 1)"

definition to_float :: "nat \<Rightarrow> nat \<Rightarrow> nat" where
  "to_float num den = (let k = spacing 254 0 num den in nearest_even num (den * 2 ^ k) * 2 ^ k)"

text \<open>
  \<^verbatim>\<open>duration_cast\<close> from \<^verbatim>\<open>duration<float>\<close> multiplies by 1000 in \<^verbatim>\<open>float\<close> and then drops the fraction.  A number beyond the
  largest float fails to be read.
\<close>

definition ParseSeconds :: "string \<Rightarrow> exn + duration" where
  "ParseSeconds str =
     (case read_decimal str of
        None \<Rightarrow> Inl (InvalidArgument ''invalid seconds'')
      | Some (n, d) \<Rightarrow>
          let sec = to_float (n * 2 ^ 149) (10 ^ d)
          in if 2 ^ 149 * 2 ^ 128 \<le> sec then Inl (InvalidArgument ''invalid seconds'')
             else Inr (int (to_float (sec * 1000) 1 div 2 ^ 149)))"

definition pad2 :: "nat \<Rightarrow> string" where
  "pad2 n = (if n < 10 then ''0'' @ decimal n else decimal n)"

text \<open>Times are not negative here.\<close>

definition PutTime :: "nat \<Rightarrow> string" where
  "PutTime time =
     (let min = time div 60000; sec = (time - min * 60000) div 1000; csec = (time - min * 60000 - sec * 1000) div 10
      in pad2 min @ '':'' @ pad2 sec @ ''.'' @ pad2 csec)"

text \<open>The spacing, once found.\<close>

lemma spacing_eq:
  assumes "num < 2 ^ 24 * 2 ^ (k + j) * den" and "j < n" and "\<And>i. i < j \<Longrightarrow> 2 ^ 24 * 2 ^ (k + i) * den \<le> num"
  shows "spacing n k num den = k + j"
  using assms
proof (induction n arbitrary: k j)
  case (Suc n)
  show ?case
  proof (cases j)
    case 0
    with Suc.prems(1) show ?thesis by simp
  next
    case (Suc i)
    have "2 ^ 24 * 2 ^ k * den \<le> num" using Suc.prems(3) [of 0] Suc by simp
    moreover have "spacing n (Suc k) num den = Suc k + i"
      using Suc Suc.prems(1,2) Suc.prems(3) [of "Suc l" for l] by (intro Suc.IH) auto
    ultimately show ?thesis using Suc by simp
  qed
qed simp

lemma to_float_eq:
  assumes "num < 2 ^ 24 * 2 ^ k * den" and "2 ^ 23 * 2 ^ k * den \<le> num" and "k < 254"
  shows "to_float num den = nearest_even num (den * 2 ^ k) * 2 ^ k"
proof -
  have "2 ^ 24 * 2 ^ i * den \<le> num" if "i < k" for i
  proof -
    have "(2::nat) ^ 24 * 2 ^ i * den = 2 ^ 23 * 2 ^ Suc i * den" by simp
    also have "2 ^ 23 * 2 ^ Suc i * den \<le> 2 ^ 23 * 2 ^ k * den" using that by (intro mult_right_mono mult_left_mono power_increasing) simp_all
    also note assms(2)
    finally show ?thesis .
  qed
  then have "spacing 254 0 num den = k" using spacing_eq [of num 0 k den 254] assms by simp
  then show ?thesis by (simp add: to_float_def)
qed

lemma spacing_bound: "spacing n k num den = K \<Longrightarrow> K = k \<or> 2 ^ 23 * 2 ^ K * den \<le> num"
proof (induction n arbitrary: k)
  case (Suc n)
  show ?case
  proof (cases "num < 2 ^ 24 * 2 ^ k * den")
    case True
    with Suc.prems show ?thesis by simp
  next
    case False
    then have "2 ^ 23 * 2 ^ Suc k * den \<le> num" by simp
    with Suc.IH [of "Suc k"] Suc.prems False show ?thesis by auto
  qed
qed simp

lemma nearest_even_close:
  assumes "0 < b"
  shows "2 * \<bar>int (nearest_even a b) * int b - int a\<bar> \<le> int b"
proof -
  have a: "int a = int (a div b) * int b + int (a mod b)" by (metis div_mult_mod_eq of_nat_add of_nat_mult)
  have r: "int (a mod b) < int b" using assms by simp
  have "2 * a mod b < b \<or> 2 * a mod b > b \<or> 2 * a mod b = b" by auto
  then show ?thesis using a r by (auto simp: nearest_even_def Let_def algebra_simps)
qed

text \<open>Rounding is off by at most one part in \<open>2^24\<close>, or by half the smallest number.\<close>

lemma to_float_close:
  assumes "0 < den"
  shows "2 ^ 24 * \<bar>int (to_float num den) * int den - int num\<bar> \<le> max (2 ^ 23 * int den) (int num)"
proof -
  define K where "K = spacing 254 0 num den"
  have "2 * \<bar>int (to_float num den) * int den - int num\<bar> \<le> int (den * 2 ^ K)"
    using nearest_even_close [of "den * 2 ^ K" num] assms by (simp add: to_float_def K_def Let_def ac_simps)
  then have "2 ^ 24 * \<bar>int (to_float num den) * int den - int num\<bar> \<le> int (2 ^ 23 * 2 ^ K * den)" by simp
  also have "\<dots> \<le> max (2 ^ 23 * int den) (int num)"
  proof (cases "K = 0")
    case False
    then have "2 ^ 23 * 2 ^ K * den \<le> num" using spacing_bound [of 254 0 num den K] by (simp add: K_def)
    then have "int (2 ^ 23 * 2 ^ K * den) \<le> int num" by (simp only: of_nat_le_iff)
    then show ?thesis by simp
  qed simp
  finally show ?thesis .
qed

lemma seconds_error:
  assumes "1000 * n = c * 10 ^ d" and "c < 60000"
  shows "2 ^ 24 * \<bar>1000 * int (to_float (n * 2 ^ 149) (10 ^ d)) - int c * 2 ^ 149\<bar> \<le> 60000 * 2 ^ 149"
proof -
  let ?den = "(10::nat) ^ d"
  define sec where "sec = to_float (n * 2 ^ 149) ?den"
  have c: "1000 * int n = int c * int ?den" using arg_cong [OF assms(1), of int] by simp
  have "2 ^ 24 * \<bar>int sec * int ?den - int (n * 2 ^ 149)\<bar> \<le> max (2 ^ 23 * int ?den) (int (n * 2 ^ 149))"
    unfolding sec_def by (rule to_float_close) simp
  then have "1000 * (2 ^ 24 * \<bar>int sec * int ?den - int n * 2 ^ 149\<bar>) \<le> 1000 * max (2 ^ 23 * int ?den) (int n * 2 ^ 149)" by simp
  also have "1000 * (2 ^ 24 * \<bar>int sec * int ?den - int n * 2 ^ 149\<bar>) = 2 ^ 24 * \<bar>1000 * int sec - int c * 2 ^ 149\<bar> * int ?den"
  proof -
    have "1000 * \<bar>int sec * int ?den - int n * 2 ^ 149\<bar> = \<bar>1000 * (int sec * int ?den) - (1000 * int n) * 2 ^ 149\<bar>"
      using abs_mult [of 1000 "int sec * int ?den - int n * 2 ^ 149"] by (simp only: right_diff_distrib abs_numeral mult.assoc)
    also have "\<dots> = \<bar>(1000 * int sec - int c * 2 ^ 149) * int ?den\<bar>" unfolding c by (simp add: algebra_simps)
    also have "\<dots> = \<bar>1000 * int sec - int c * 2 ^ 149\<bar> * int ?den" by (simp add: abs_mult)
    finally show ?thesis by simp
  qed
  also have "1000 * max (2 ^ 23 * int ?den) (int n * 2 ^ 149) = max (1000 * 2 ^ 23) (int c * 2 ^ 149) * int ?den"
  proof -
    have "1000 * max (2 ^ 23 * int ?den) (int n * 2 ^ 149) = max (1000 * 2 ^ 23 * int ?den) ((1000 * int n) * 2 ^ 149)"
      by (simp add: max_def)
    also have "\<dots> = max (1000 * 2 ^ 23 * int ?den) (int c * 2 ^ 149 * int ?den)" unfolding c by (simp only: ac_simps)
    also have "\<dots> = max (1000 * 2 ^ 23) (int c * 2 ^ 149) * int ?den" unfolding max_mult_distrib_right by simp
    finally show ?thesis .
  qed
  finally have "2 ^ 24 * \<bar>1000 * int sec - int c * 2 ^ 149\<bar> \<le> max (1000 * 2 ^ 23) (int c * 2 ^ 149)"
    by (rule mult_right_le_imp_le) simp
  also have "max (1000 * 2 ^ 23) (int c * 2 ^ 149) \<le> 60000 * 2 ^ 149" using assms(2) by simp
  finally show ?thesis unfolding sec_def .
qed

lemma int_div_near:
  fixes T m c :: int
  assumes "c * m - m < T" and "T < c * m + m" and "0 < m"
  shows "T div m = c \<or> T div m = c - 1"
proof (cases "c * m \<le> T")
  case True
  then have "T div m = c" using assms(2,3) by (intro int_div_pos_eq [of _ _ _ "T - c * m"]) simp_all
  then show ?thesis ..
next
  case False
  then have "T div m = c - 1" using assms(1,3) by (intro int_div_pos_eq [of _ _ _ "T - (c - 1) * m"]) (simp_all add: algebra_simps)
  then show ?thesis ..
qed

text \<open>
  C35. Seconds with up to three decimals are read as the milliseconds they say, or as one millisecond less: the detour over \<^verbatim>\<open>float\<close>
  can end just below the number that was written, and the conversion then drops the fraction.
\<close>

theorem ParseSeconds_close:
  assumes "read_decimal str = Some (n, d)" and "1000 * n = c * 10 ^ d" and "c < 60000"
  shows "\<exists>t. ParseSeconds str = Inr (int t) \<and> (t = c \<or> t + 1 = c)"
proof -
  define sec where "sec = to_float (n * 2 ^ 149) (10 ^ d)"
  define T where "T = to_float (sec * 1000) 1"
  have s: "2 ^ 24 * \<bar>1000 * int sec - int c * 2 ^ 149\<bar> \<le> 60000 * 2 ^ 149"
    unfolding sec_def by (rule seconds_error [OF assms(2,3)])
  have "2 ^ 24 * \<bar>int T * int 1 - int (sec * 1000)\<bar> \<le> max (2 ^ 23 * int 1) (int (sec * 1000))"
    unfolding T_def by (rule to_float_close) simp
  then have t: "2 ^ 24 * \<bar>int T - 1000 * int sec\<bar> \<le> max (2 ^ 23) (1000 * int sec)" by (simp add: mult.commute)
  have T: "int c * 2 ^ 149 - 2 ^ 148 < int T" "int T < int c * 2 ^ 149 + 2 ^ 148"
    using s t assms(3) by (auto simp: max_def abs_if split: if_splits)
  have "int T div 2 ^ 149 = int c \<or> int T div 2 ^ 149 = int c - 1" using T by (intro int_div_near) simp_all
  then have "T div 2 ^ 149 = c \<or> T div 2 ^ 149 + 1 = c" by (auto simp: zdiv_int [symmetric] of_nat_div [symmetric])
  moreover have "sec < 2 ^ 149 * 2 ^ 128" using s assms(3) by (auto simp: abs_if split: if_splits)
  then have "ParseSeconds str = Inr (int (T div 2 ^ 149))"
    unfolding ParseSeconds_def assms(1) Let_def option.case prod.case T_def sec_def by (simp only: linorder_not_le [symmetric] if_False)
  ultimately show ?thesis by blast
qed

theorem ParseSeconds_close_witness:
  "\<exists>t. ParseSeconds ''08.03'' = Inr (int t) \<and> (t = 8030 \<or> t + 1 = 8030)"
proof -
  have "read_decimal ''08.03'' = Some (803, 2)"
    by (simp add: read_decimal_def is_digit_def digits_val_def digit_val_def)
  from ParseSeconds_close [OF this, of 8030] show ?thesis by simp
qed

text \<open>It is the latter: eight seconds and three hundredths are sung a millisecond early, and shown as two hundredths.\<close>

definition Sing_text :: "nat \<Rightarrow> string \<Rightarrow> string" where
  "Sing_text time words = ''['' @ PutTime time @ ''] '' @ words"

lemma ParseSeconds_early: "ParseSeconds ''08.03'' = Inr 8029" "Sing_text 8029 ''la'' = ''[00:08.02] la''"
proof -
  have "to_float (803 * 2 ^ 149) (10 ^ 2) = nearest_even (803 * 2 ^ 149) (10 ^ 2 * 2 ^ 129) * 2 ^ 129"
    by (rule to_float_eq) simp_all
  also have "\<dots> = 8420065 * 2 ^ 129" by (simp add: nearest_even_def)
  finally have 1: "to_float (803 * 2 ^ 149) (10 ^ 2) = 8420065 * 2 ^ 129" .
  have "to_float (8420065 * 2 ^ 129 * 1000) 1 = nearest_even (8420065 * 2 ^ 129 * 1000) (1 * 2 ^ 138) * 2 ^ 138"
    by (rule to_float_eq) simp_all
  also have "\<dots> div 2 ^ 149 = 8029" by (simp add: nearest_even_def)
  finally have 2: "to_float (8420065 * 2 ^ 129 * 1000) 1 div 2 ^ 149 = 8029" .
  have "read_decimal ''08.03'' = Some (803, 2)"
    by (simp add: read_decimal_def is_digit_def digits_val_def digit_val_def)
  with 1 2 show "ParseSeconds ''08.03'' = Inr 8029" by (simp add: ParseSeconds_def Let_def)
  have "char_of (48 :: nat) = CHR ''0''" "char_of (50 :: nat) = CHR ''2''" "char_of (56 :: nat) = CHR ''8''" by code_simp+
  then show "Sing_text 8029 ''la'' = ''[00:08.02] la''" by (simp add: Sing_text_def PutTime_def pad2_def decimal.simps)
qed

section \<open>The schedule\<close>

datatype song_task = Sing duration string | Fin

text \<open>The state while the file is read: the heap, and what the tasks made so far do.\<close>

type_synonym 'w song_state = "'w heap \<times> (todo_id \<Rightarrow> song_task option)"

definition on_heap :: "('w heap, 'a) exec \<Rightarrow> ('w heap \<times> 's, 'a) exec" where
  "on_heap = zoom fst (\<lambda>h p. (h, snd p))"

definition bind_task :: "todo_id \<Rightarrow> song_task \<Rightarrow> ('w song_state, unit) exec" where
  "bind_task t task = modify (\<lambda>(h, tasks). (h, tasks(t \<mapsto> task)))"

text \<open>Time and text of a line, nothing for a line that does not match.\<close>

definition parse_line :: "string \<Rightarrow> exn + (duration \<times> string) option" where
  "parse_line line =
     (case match_line line of
        None \<Rightarrow> Inr None
      | Some (minutes, seconds, text) \<Rightarrow>
          (case ParseMinutes minutes of
             Inl e \<Rightarrow> Inl e
           | Inr m \<Rightarrow> (case ParseSeconds seconds of Inl e \<Rightarrow> Inl e | Inr s \<Rightarrow> Inr (Some (m + s, text)))))"

definition schedule_line :: "'w env \<Rightarrow> todo_id \<Rightarrow> string \<Rightarrow> ('w song_state, unit) exec" where
  "schedule_line env finale line =
     andthen (lift_sum (parse_line line)) (\<lambda>parsed.
       case parsed of
         None \<Rightarrow> ret ()
       | Some (time, text) \<Rightarrow>
           andthen (on_heap (ToDo_new_in env time)) (\<lambda>t.
           andthen (bind_task t (Sing time text)) (\<lambda>_.
             on_heap (ToDo_Shift_in env finale time))))"

fun schedule_lines :: "'w env \<Rightarrow> todo_id \<Rightarrow> string list \<Rightarrow> ('w song_state, unit) exec" where
  "schedule_lines env finale [] = ret ()"
| "schedule_lines env finale (line # lines) =
     andthen (schedule_line env finale line) (\<lambda>_. schedule_lines env finale lines)"

definition ParseAndSchedule :: "'w env \<Rightarrow> string list \<Rightarrow> ('w song_state, unit) exec" where
  "ParseAndSchedule env lines =
     andthen (on_heap (ToDo_new_in env 0)) (\<lambda>finale.
     andthen (bind_task finale Fin) (\<lambda>_. schedule_lines env finale lines))"

text \<open>The lines that are sung, in the order of the file.\<close>

definition song :: "string list \<Rightarrow> (duration \<times> string) list" where
  "song lines = List.map_filter (\<lambda>line. case parse_line line of Inl _ \<Rightarrow> None | Inr p \<Rightarrow> p) lines"

lemma song_simps: "song [] = []"
  "parse_line line = Inr None \<Longrightarrow> song (line # lines) = song lines"
  "parse_line line = Inr (Some p) \<Longrightarrow> song (line # lines) = p # song lines"
  by (simp_all add: song_def List.map_filter_simps)

section \<open>The finale comes last\<close>

lemma Insert_last:
  assumes "\<And>u. u \<in> set (pending s) \<Longrightarrow> when_of s u \<le> when_of s t"
  shows "ToDos_Insert t s = s\<lparr>pending := pending s @ [t]\<rparr>"
proof -
  have "ToDos_Find (WhenBefore s (when_of s t)) (pending s) = length (pending s)"
    using assms by (auto simp: ToDos_Find_def WhenBefore_def not_less)
  then show ?thesis by (simp add: ToDos_Insert_def)
qed

lemma Move_to_end:
  assumes "pending s = us @ fin # vs" and "fin \<notin> set us" and "fin \<notin> set vs" and "\<And>u. u \<in> set us \<union> set vs \<Longrightarrow> when_of s u \<le> w"
  shows "ToDos_Move fin w s = s\<lparr>pending := us @ vs @ [fin], when_of := (when_of s)(fin := w)\<rparr>"
proof -
  have "ToDos_Remove fin s = s\<lparr>pending := us @ vs\<rparr>"
  proof -
    have "takeWhile (\<lambda>x. x \<noteq> fin) (us @ fin # vs) = us" using assms(2) by (induction us) auto
    then have "ToDos_Find (IsSame fin) (pending s) = length us" using assms(1) by (simp add: ToDos_Find_def IsSame_def)
    then show ?thesis using assms(1) by (simp add: ToDos_Remove_def)
  qed
  moreover have "ToDos_Insert fin (s\<lparr>pending := us @ vs, when_of := (when_of s)(fin := w)\<rparr>) =
      s\<lparr>pending := us @ vs @ [fin], when_of := (when_of s)(fin := w)\<rparr>"
    by (subst Insert_last) (use assms(2-4) in \<open>auto simp: fun_upd_def\<close>)
  ultimately show ?thesis by (simp add: ToDos_Move_def)
qed

text \<open>One line: its task ends up before the finale and behind all others.\<close>

definition song_inv :: "('w \<Rightarrow> timepoint) \<Rightarrow> todo_id \<Rightarrow> todo_id list \<Rightarrow> duration \<Rightarrow> 'w heap \<Rightarrow> bool" where
  "song_inv clock fin ts T h \<longleftrightarrow> h_alive h \<and> pending (h_todos h) = ts @ [fin] \<and> fin \<notin> set ts
     \<and> (\<forall>t \<in> set (ts @ [fin]). t < next_todo (h_todos h) \<and> when_of (h_todos h) t \<le> when_of (h_todos h) fin)
     \<and> when_of (h_todos h) fin \<le> add_ms (clock (h_world h)) T"

lemma schedule_one:
  assumes clock: "steady (e_os env) clock" and inv: "song_inv clock fin ts T h" and T: "T \<le> time"
  defines "t \<equiv> next_todo (h_todos h)"
  shows "\<exists>g. andthen (ToDo_new_in env time) (\<lambda>t. andthen (ToDo_Shift_in env fin time) (\<lambda>_. ret t)) h = (Inr t, g)
    \<and> song_inv clock fin (ts @ [t]) time g \<and> clock (h_world h) \<le> clock (h_world g)
    \<and> add_ms (clock (h_world h)) time \<le> when_of (h_todos g) t \<and> (\<forall>u \<in> set ts. when_of (h_todos g) u = when_of (h_todos h) u)
    \<and> next_todo (h_todos g) = Suc t"
proof -
  obtain now w where now: "sys_now (e_os env) (h_world h) = (now, w)" by fastforce
  obtain now' w' where now': "sys_now (e_os env) w = (now', w')" by fastforce
  have c: "clock (h_world h) \<le> now" "now \<le> clock w" "clock w \<le> now'" "now' \<le> clock w'"
    using clock now now' by (auto simp: steady_def)
  have mono: "add_ms a x \<le> add_ms b y" if "a \<le> b" "x \<le> y" for a b x y using that by (simp add: add_ms_def ns_per_ms_def)
  let ?s = "h_todos h"
  have i: "h_alive h" "pending ?s = ts @ [fin]" "fin \<notin> set ts" "\<And>u. u \<in> set (ts @ [fin]) \<Longrightarrow> u < t"
    "\<And>u. u \<in> set (ts @ [fin]) \<Longrightarrow> when_of ?s u \<le> when_of ?s fin" "when_of ?s fin \<le> add_ms (clock (h_world h)) T"
    using inv by (auto simp: song_inv_def t_def)
  have fin: "when_of ?s fin \<le> add_ms now time" using i(6) mono [OF c(1) T] by linarith
  have t: "t \<notin> set (ts @ [fin])" using i(4) by blast
  let ?s1 = "?s\<lparr>next_todo := Suc t, when_of := (when_of ?s)(t := add_ms now time)\<rparr>"
  have made: "ToDos_Insert t ?s1 = ?s1\<lparr>pending := ts @ [fin, t]\<rparr>"
    by (subst Insert_last) (use i(2,5) fin t in \<open>force+\<close>)
  have moved: "ToDos_Move fin (add_ms now' time) (?s1\<lparr>pending := ts @ [fin, t]\<rparr>) =
      ?s1\<lparr>pending := ts @ [t, fin], when_of := (when_of ?s1)(fin := add_ms now' time)\<rparr>"
  proof (subst Move_to_end [where us = ts and vs = "[t]"])
    fix u assume "u \<in> set ts \<union> set [t]"
    then have "when_of ?s1 u \<le> add_ms now time" using i(5) [of u] fin t by auto
    then show "when_of (?s1\<lparr>pending := ts @ [fin, t]\<rparr>) u \<le> add_ms now' time" using mono [of now now' time time] c by simp
  qed (use i(3) t in auto)
  let ?g = "h\<lparr>h_world := w', h_todos := ?s1\<lparr>pending := ts @ [t, fin], when_of := (when_of ?s1)(fin := add_ms now' time)\<rparr>\<rparr>"
  have "andthen (ToDo_new_in env time) (\<lambda>t. andthen (ToDo_Shift_in env fin time) (\<lambda>_. ret t)) h = (Inr t, ?g)"
    using now now' i(1) made moved
    by (simp add: ToDo_new_in_def ToDo_Shift_in_def ToDo_Shift_to_def Clock_now_def heap_world_def make_ToDo_def ToDoImpl_at_def
        Driver_ToDoInsert_def Driver_ToDoMove_def andthen_def t_def)
  moreover have "song_inv clock fin (ts @ [t]) time ?g"
    unfolding song_inv_def using i t c fin mono [of now now' time time] mono [of now' "clock w'" time time]
    by (auto simp: less_Suc_eq) (metis UnCI fin order_trans)+
  ultimately show ?thesis
    using c t mono [of "clock (h_world h)" now time time] i(3) by (intro exI [of _ ?g]) auto
qed

lemma schedule_line_run:
  assumes "parse_line line = Inr (Some (time, text))"
    and "andthen (ToDo_new_in env time) (\<lambda>t. andthen (ToDo_Shift_in env fin time) (\<lambda>_. ret t)) h = (Inr t, g)"
  shows "schedule_line env fin line (h, tasks) = (Inr (), (g, tasks(t \<mapsto> Sing time text)))"
proof -
  obtain h1 where 1: "ToDo_new_in env time h = (Inr t, h1)" and 2: "ToDo_Shift_in env fin time h1 = (Inr (), g)"
    using assms(2) by (auto simp: andthen_eq_Inr)
  have "on_heap (ToDo_new_in env time) (h, tasks) = (Inr t, (h1, tasks))" using 1 by (simp add: on_heap_def)
  moreover have "on_heap (ToDo_Shift_in env fin time) (h1, x) = (Inr (), (g, x))" for x :: "todo_id \<Rightarrow> song_task option"
    using 2 by (simp add: on_heap_def)
  ultimately show ?thesis using assms(1) by (simp add: schedule_line_def lift_sum_def bind_task_def)
qed

text \<open>The task of a line and its time.\<close>

definition sung :: "timepoint \<Rightarrow> 'w heap \<Rightarrow> (todo_id \<Rightarrow> song_task option) \<Rightarrow> todo_id \<Rightarrow> duration \<times> string \<Rightarrow> bool" where
  "sung start h tasks t line \<longleftrightarrow> tasks t = Some (Sing (fst line) (snd line)) \<and> add_ms start (fst line) \<le> when_of (h_todos h) t"

lemma schedule_lines_run:
  assumes "steady (e_os env) clock"
  shows "song_inv clock fin ts T h \<Longrightarrow> \<forall>line \<in> set lines. \<not> isl (parse_line line) \<Longrightarrow> sorted (map fst (song lines))
    \<Longrightarrow> \<forall>p \<in> set (song lines). T \<le> fst p \<Longrightarrow>
    \<exists>g tasks' new T'. schedule_lines env fin lines (h, tasks) = (Inr (), (g, tasks')) \<and> song_inv clock fin (ts @ new) T' g
      \<and> (\<forall>u < next_todo (h_todos h). tasks' u = tasks u) \<and> (\<forall>u \<in> set ts. when_of (h_todos g) u = when_of (h_todos h) u)
      \<and> list_all2 (sung (clock (h_world h)) g tasks') new (song lines)"
proof (induction lines arbitrary: ts T h tasks)
  case Nil
  then show ?case by (intro exI [of _ h] exI [of _ tasks] exI [of _ "[]"]) (auto simp: song_simps)
next
  case (Cons line lines)
  obtain parsed where parsed: "parse_line line = Inr parsed" using Cons.prems(2) by (cases "parse_line line") auto
  show ?case
  proof (cases parsed)
    case None
    with parsed have "schedule_line env fin line (h, tasks) = (Inr (), (h, tasks))" by (simp add: schedule_line_def lift_sum_def)
    with parsed None Cons show ?thesis by (simp add: song_simps)
  next
    case (Some p)
    obtain time verse where p: "p = (time, verse)" by fastforce
    let ?t = "next_todo (h_todos h)"
    have song: "song (line # lines) = (time, verse) # song lines" using song_simps(3) parsed Some p by simp
    then have T: "T \<le> time" using Cons.prems(4) by simp
    obtain g where g: "andthen (ToDo_new_in env time) (\<lambda>t. andthen (ToDo_Shift_in env fin time) (\<lambda>_. ret t)) h = (Inr ?t, g)"
      "song_inv clock fin (ts @ [?t]) time g" "clock (h_world h) \<le> clock (h_world g)"
      "add_ms (clock (h_world h)) time \<le> when_of (h_todos g) ?t" "\<forall>u \<in> set ts. when_of (h_todos g) u = when_of (h_todos h) u"
      "next_todo (h_todos g) = Suc ?t" using schedule_one [OF assms Cons.prems(1) T] by blast
    note line = schedule_line_run [OF _ g(1), of line verse tasks]
    let ?tasks = "tasks(?t \<mapsto> Sing time verse)"
    have rest: "\<forall>line \<in> set lines. \<not> isl (parse_line line)" "sorted (map fst (song lines))" "\<forall>p \<in> set (song lines). time \<le> fst p"
      using Cons.prems(2,3) song by auto
    obtain g' tasks' new T' where r: "schedule_lines env fin lines (g, ?tasks) = (Inr (), (g', tasks'))"
      "song_inv clock fin ((ts @ [?t]) @ new) T' g'" "\<forall>u < next_todo (h_todos g). tasks' u = ?tasks u"
      "\<forall>u \<in> set (ts @ [?t]). when_of (h_todos g') u = when_of (h_todos g) u"
      "list_all2 (sung (clock (h_world g)) g' tasks') new (song lines)"
      using Cons.IH [OF g(2) rest, of ?tasks] by blast
    have "list_all2 (sung (clock (h_world h)) g' tasks') new (song lines)"
      using r(5) by (rule list_all2_mono) (use g(3) in \<open>auto simp: sung_def add_ms_def\<close>)
    moreover have "sung (clock (h_world h)) g' tasks' ?t (time, verse)" using r(3,4) g(4,6) by (simp add: sung_def)
    ultimately show ?thesis using line parsed Some p r g(5,6) song
      by (intro exI [of _ g'] exI [of _ tasks'] exI [of _ "?t # new"] exI [of _ T']) auto
  qed
qed

lemma song_scheduled:
  assumes "steady (e_os env) clock" and "h_alive h" and "pending (h_todos h) = []"
    and "\<forall>line \<in> set lines. \<not> isl (parse_line line)" and "sorted (0 # map fst (song lines))"
  shows "\<exists>g tasks' ts fin. ParseAndSchedule env lines (h, tasks) = (Inr (), (g, tasks')) \<and> pending (h_todos g) = ts @ [fin]
    \<and> list_all2 (sung (clock (h_world h)) g tasks') ts (song lines)
    \<and> tasks' fin = Some Fin \<and> (\<forall>t \<in> set ts. t \<noteq> fin \<and> when_of (h_todos g) t \<le> when_of (h_todos g) fin)"
proof -
  obtain now w where now: "sys_now (e_os env) (h_world h) = (now, w)" by fastforce
  have c: "clock (h_world h) \<le> now" "now \<le> clock w" using assms(1) now by (auto simp: steady_def)
  let ?s = "h_todos h" and ?fin = "next_todo (h_todos h)"
  let ?g = "h\<lparr>h_world := w, h_todos := ?s\<lparr>next_todo := Suc ?fin, pending := [?fin], when_of := (when_of ?s)(?fin := add_ms now 0)\<rparr>\<rparr>"
  have "ToDo_new_in env 0 h = (Inr ?fin, ?g)"
    using now assms(3) by (simp add: ToDo_new_in_def Clock_now_def heap_world_def make_ToDo_def ToDoImpl_at_def Driver_ToDoInsert_def
        andthen_def ToDos_Insert_def ToDos_Find_def)
  then have start: "ParseAndSchedule env lines (h, tasks) = schedule_lines env ?fin lines (?g, tasks(?fin \<mapsto> Fin))"
    by (simp add: ParseAndSchedule_def on_heap_def bind_task_def andthen_def)
  have inv: "song_inv clock ?fin [] 0 ?g" using assms(2) c by (simp add: song_inv_def add_ms_def)
  obtain g tasks' new T' where r: "schedule_lines env ?fin lines (?g, tasks(?fin \<mapsto> Fin)) = (Inr (), (g, tasks'))"
    "song_inv clock ?fin new T' g" "tasks' ?fin = Some Fin" "list_all2 (sung (clock w) g tasks') new (song lines)"
    using schedule_lines_run [OF assms(1) inv assms(4), of "tasks(?fin \<mapsto> Fin)"] assms(5)
    by (simp del: fun_upd_apply) (metis append_Nil fun_upd_same lessI)
  have "list_all2 (sung (clock (h_world h)) g tasks') new (song lines)"
    using r(4) by (rule list_all2_mono) (use c in \<open>auto simp: sung_def add_ms_def\<close>)
  with r start show ?thesis
    by (intro exI [of _ g] exI [of _ tasks'] exI [of _ new] exI [of _ ?fin]) (auto simp: song_inv_def)
qed

text \<open>
  C36. When the lines of a file stand in the order of their times, reading it queues one task for every line that matches, in the
  order of the file, each not before its time after the start, and behind all of them the finale that
  stops the driver; nothing is lost and nothing else is queued.
\<close>

theorem song_in_order:
  assumes "steady (e_os env) clock" and "h_alive h" and "pending (h_todos h) = []"
    and "\<forall>line \<in> set lines. \<not> isl (parse_line line)" and "sorted (0 # map fst (song lines))"
  shows "\<exists>g tasks' ts fin. ParseAndSchedule env lines (h, tasks) = (Inr (), (g, tasks')) \<and> pending (h_todos g) = ts @ [fin]
    \<and> list_all2 (sung (clock (h_world h)) g tasks') ts (song lines)
    \<and> tasks' fin = Some Fin \<and> (\<forall>t \<in> set ts. t \<noteq> fin \<and> when_of (h_todos g) t \<le> when_of (h_todos g) fin)"
  by (rule song_scheduled [OF assms])

lemma demo_line: "parse_line ''[01:30]la'' = Inr (Some (90000, ''la''))" "parse_line ''by nobody'' = Inr None"
proof -
  have "match_line ''[01:30]la'' = Some (''01'', ''30'', ''la'')"
    unfolding match_line_iff by (simp add: lrc_parts_def is_digit_def is_number_def is_dot_def)
  moreover have "ParseMinutes ''01'' = Inr 60000" by (simp add: ParseMinutes_def is_digit_def digits_val_def digit_val_def)
  moreover have "ParseSeconds ''30'' = Inr 30000"
  proof -
    have "to_float (30 * 2 ^ 149) (10 ^ 0) = nearest_even (30 * 2 ^ 149) (10 ^ 0 * 2 ^ 130) * 2 ^ 130"
      by (rule to_float_eq) simp_all
    also have "\<dots> = 30 * 2 ^ 149" by (simp add: nearest_even_def)
    finally have 1: "to_float (30 * 2 ^ 149) (10 ^ 0) = 30 * 2 ^ 149" .
    have "to_float (30 * 2 ^ 149 * 1000) 1 = nearest_even (30 * 2 ^ 149 * 1000) (1 * 2 ^ 140) * 2 ^ 140"
      by (rule to_float_eq) simp_all
    also have "\<dots> div 2 ^ 149 = 30000" by (simp add: nearest_even_def)
    finally have 2: "to_float (30 * 2 ^ 149 * 1000) 1 div 2 ^ 149 = 30000" .
    have "read_decimal ''30'' = Some (30, 0)" by (simp add: read_decimal_def is_digit_def digits_val_def digit_val_def)
    with 1 2 show ?thesis by (simp add: ParseSeconds_def Let_def)
  qed
  ultimately show "parse_line ''[01:30]la'' = Inr (Some (90000, ''la''))" by (simp add: parse_line_def)
  have "match_line ''by nobody'' = None" unfolding match_line_None_iff by (simp add: lrc_parts_def)
  then show "parse_line ''by nobody'' = Inr None" by (simp add: parse_line_def)
qed

theorem song_in_order_witness:
  "\<exists>g tasks' t fin. ParseAndSchedule test_env [''by nobody'', ''[01:30]la''] (new_heap test_pipes script0, Map.empty) = (Inr (), (g, tasks'))
    \<and> pending (h_todos g) = [t, fin] \<and> tasks' t = Some (Sing 90000 ''la'') \<and> tasks' fin = Some Fin"
proof -
  have song: "song [''by nobody'', ''[01:30]la''] = [(90000, ''la'')]"
    using demo_line by (simp add: song_simps)
  have "steady (e_os test_env) s_clock" by simp
  moreover have "h_alive (new_heap test_pipes script0)" "pending (h_todos (new_heap test_pipes script0)) = []"
    by (simp_all add: new_heap_def no_todos_def)
  moreover have "\<forall>line \<in> set [''by nobody'', ''[01:30]la'']. \<not> isl (parse_line line)" using demo_line by simp
  ultimately obtain g tasks' ts fin where
    "ParseAndSchedule test_env [''by nobody'', ''[01:30]la''] (new_heap test_pipes script0, Map.empty) = (Inr (), (g, tasks'))"
    "pending (h_todos g) = ts @ [fin]" "tasks' fin = Some Fin"
    "list_all2 (sung (s_clock (h_world (new_heap test_pipes script0))) g tasks') ts [(90000, ''la'')]"
    using song_in_order [of test_env s_clock "new_heap test_pipes script0" "[''by nobody'', ''[01:30]la'']" Map.empty] song by auto
  then show ?thesis by (auto simp: sung_def list_all2_Cons2)
qed

end
