(* ===== verification/SongRun.thy ===== *)
theory SongRun
  imports Song
begin

text \<open>
  The silent song from its file to its end: what the tasks do when the driver runs them, and what has been
  printed when the program ends.
\<close>

section \<open>The tasks\<close>

text \<open>The lines printed so far stand beside the world of the system.\<close>

type_synonym 'w singer = "('w \<times> string list) heap"

definition sing_line :: "string \<Rightarrow> ('w singer, unit) exec" where
  "sing_line line = modify (\<lambda>h. h\<lparr>h_world := (fst (h_world h), snd (h_world h) @ [line])\<rparr>)"

definition fin_line :: string where
  "fin_line = ''~~FIN~~''"

definition no_user :: "'w user" where
  "no_user = \<lparr>u_task = (\<lambda>_. ret ()), u_receive = (\<lambda>_ _. ret ()), u_receive_from = (\<lambda>_ _ _. ret ()),
     u_connect = (\<lambda>_ _ _. ret ()), u_disconnect = (\<lambda>_ _ _. ret ())\<rparr>"

definition run_song_task ::
  "('w \<times> string list) os \<Rightarrow> ('w \<times> string list) netdb \<Rightarrow> (todo_id \<Rightarrow> song_task option) \<Rightarrow> todo_id \<Rightarrow> ('w singer, unit) exec" where
  "run_song_task os nd tasks t =
     (case tasks t of
        None \<Rightarrow> ret ()
      | Some (Sing time words) \<Rightarrow> sing_line (Sing_text (nat time) words)
      | Some Fin \<Rightarrow> andthen (sing_line fin_line) (\<lambda>_. Stop (plain_of os nd no_user False)))"

definition song_env :: "('w \<times> string list) os \<Rightarrow> ('w \<times> string list) netdb \<Rightarrow> (todo_id \<Rightarrow> song_task option) \<Rightarrow> ('w \<times> string list) env" where
  "song_env os nd tasks = plain_of os nd (no_user\<lparr>u_task := run_song_task os nd tasks\<rparr>) False"

text \<open>The file is read, then the driver runs; an exception while reading ends the program.\<close>

definition song_Run ::
  "('w \<times> string list) os \<Rightarrow> ('w \<times> string list) netdb \<Rightarrow> nat \<Rightarrow> nat \<Rightarrow> string list \<Rightarrow> 'w singer \<Rightarrow> ((exn + unit) \<times> 'w singer) option" where
  "song_Run os nd fuel n lines h =
     (case ParseAndSchedule (plain_of os nd no_user False) lines (h, Map.empty) of
        (Inl e, (g, _)) \<Rightarrow> Some (Inl e, g)
      | (Inr _, (g, tasks)) \<Rightarrow> Run (song_env os nd tasks) fuel n g)"

lemma song_env_simps [simp]: "e_os (song_env os nd tasks) = os" "u_task (e_user (song_env os nd tasks)) = run_song_task os nd tasks"
  by (simp_all add: song_env_def)

section \<open>What the driver leaves alone\<close>

text \<open>A driver without sockets: waiting and its signalling pipe touch nothing of this.\<close>

definition stage :: "'w singer \<Rightarrow> sock_id list \<times> todos \<times> bool \<times> string list" where
  "stage h = (h_sockets h, h_todos h, h_shouldStop h, snd (h_world h))"

lemma plain_of_with_tls [simp]: "e_with_tls (plain_of os nd user tls) = tls"
  by (simp add: plain_of_def)

lemma leaves_stage_world [leaves_intros]: "leaves snd m \<Longrightarrow> leaves stage (heap_world m)"
  by (simp add: leaves_def stage_def heap_world_def del: split_paired_All)

lemma leaves_stage_pfds: "leaves stage (modify (\<lambda>h. h\<lparr>h_pfds := ps\<rparr>))"
  by (simp add: leaves_def stage_def)

lemma Bump_stage: "leaves stage (Bump (plain_of (beside_os os) (beside_nd nd) user tls))"
  unfolding Bump_def plain_of_simps by (intro leaves_intros beside.sends)

lemma Unbump_stage: "leaves stage (Unbump (plain_of (beside_os os) (beside_nd nd) user tls))"
  unfolding Unbump_def plain_of_simps by (intro leaves_intros beside.receives)

lemma wait_stage: "leaves stage (wait_sockets (plain_of (beside_os os) (beside_nd nd) user tls) timeout)"
  unfolding wait_sockets_def plain_of_simps case_prod_beta by (intro leaves_intros leaves_stage_pfds beside.waits)

lemma StepSockets_stage:
  assumes "h_sockets h = []" and "StepSockets (plain_of (beside_os os) (beside_nd nd) user False) timeout h = (r, g)"
  shows "stage g = stage h"
proof -
  let ?env = "plain_of (beside_os os) (beside_nd nd) user False"
  obtain r1 h1 where wait: "wait_sockets ?env timeout h = (r1, h1)" by fastforce
  then have h1: "stage h1 = stage h" using wait_stage leavesD by fast
  then have none: "DoOneSocketTask ?env h1 = (x, y) \<Longrightarrow> y = h1" for x y
    using assms(1) by (auto simp: DoOneSocketTask_def stage_def throw_def split: if_splits)
  have unbump: "Unbump ?env h1 = (x, y) \<Longrightarrow> stage y = stage h1" for x y
    using leavesD [OF Unbump_stage] by fast
  show ?thesis
  proof (cases r1)
    case (Inl e)
    with assms(2) wait h1 show ?thesis by (simp add: StepSockets_def QuerySockets_def)
  next
    case (Inr ready)
    with assms(2) wait h1 none unbump show ?thesis
      by (auto simp: StepSockets_def QuerySockets_def throw_def ret_def split: if_splits)
  qed
qed

section \<open>The song as a state machine\<close>

text \<open>
  Of the tasks \<open>ts\<close>, which print \<open>texts\<close>, the first have run, in their order, and the finale is still to come; or it has run,
  and then it was the last.
\<close>

definition song_state :: "todo_id list \<Rightarrow> todo_id \<Rightarrow> string list \<Rightarrow> 'w singer \<Rightarrow> bool" where
  "song_state ts fin texts h \<longleftrightarrow> h_sockets h = [] \<and>
     (if h_shouldStop h then pending (h_todos h) = [] \<and> snd (h_world h) = texts @ [fin_line]
      else \<exists>m \<le> length ts. pending (h_todos h) = drop m ts @ [fin] \<and> snd (h_world h) = take m texts)"

lemma song_state_stage: "stage g = stage h \<Longrightarrow> song_state ts fin texts g = song_state ts fin texts h"
  by (simp add: stage_def song_state_def)

lemma song_task:
  assumes "song_state ts fin texts h" and "list_all2 (\<lambda>t x. \<exists>time words. tasks t = Some (Sing time words) \<and> x = Sing_text (nat time) words) ts texts"
    and "tasks fin = Some Fin" and "pending (h_todos h) = front # rest"
    and "run_song_task (beside_os os) (beside_nd nd) tasks front (h\<lparr>h_todos := ToDos_pop_front (h_todos h)\<rparr>) = (r, g)"
  shows "song_state ts fin texts g"
proof -
  let ?h = "h\<lparr>h_todos := ToDos_pop_front (h_todos h)\<rparr>"
  have "\<not> h_shouldStop h" using assms(1,4) by (auto simp: song_state_def)
  with assms(1) obtain m where m: "m \<le> length ts" "pending (h_todos h) = drop m ts @ [fin]" "snd (h_world h) = take m texts" "h_sockets h = []"
    by (auto simp: song_state_def)
  have len: "length texts = length ts" using assms(2) by (simp add: list_all2_lengthD)
  have pop: "pending (h_todos ?h) = rest" using assms(4) by (simp add: ToDos_pop_front_def)
  show ?thesis
  proof (cases "m < length ts")
    case True
    then have front: "front = ts ! m" "rest = drop (Suc m) ts @ [fin]" using m(2) assms(4) by (simp_all add: Cons_nth_drop_Suc [symmetric])
    obtain time words where "tasks (ts ! m) = Some (Sing time words)" "texts ! m = Sing_text (nat time) words"
      using list_all2_nthD [OF assms(2) True] by blast
    with assms(5) front have "g = ?h\<lparr>h_world := (fst (h_world h), snd (h_world h) @ [texts ! m])\<rparr>"
      by (simp add: run_song_task_def sing_line_def)
    with True m front pop len \<open>\<not> h_shouldStop h\<close> show ?thesis
      by (auto simp: song_state_def take_Suc_conv_app_nth intro!: exI [of _ "Suc m"])
  next
    case False
    with m(1,2) assms(4) have front: "front = fin" "rest = []" "m = length ts" by simp_all
    let ?s = "?h\<lparr>h_world := (fst (h_world h), snd (h_world h) @ [fin_line]), h_shouldStop := True\<rparr>"
    have "Bump (plain_of (beside_os os) (beside_nd nd) no_user False) ?s = (r, g)"
      using assms(3,5) front(1) by (simp add: run_song_task_def sing_line_def Stop_def)
    then have "stage g = stage ?s" using Bump_stage leavesD by fast
    moreover have "song_state ts fin texts ?s" using m front pop len by (simp add: song_state_def)
    ultimately show ?thesis using song_state_stage by blast
  qed
qed

lemma song_todos:
  assumes "list_all2 (\<lambda>t x. \<exists>time words. tasks t = Some (Sing time words) \<and> x = Sing_text (nat time) words) ts texts"
    and "tasks fin = Some Fin" and tick: "\<And>d w. snd (snd (p_tick p d w)) = snd w"
  shows "StepTodos (song_env (beside_os os) (beside_nd nd) tasks) p n d h = Some (r, g) \<Longrightarrow> song_state ts fin texts h \<Longrightarrow> song_state ts fin texts g"
proof (induction n arbitrary: d h)
  case (Suc n)
  show ?case
  proof (cases "pending (h_todos h)")
    case Nil
    with Suc.prems show ?thesis by simp
  next
    case (Cons front rest)
    obtain s t where t: "run_song_task (beside_os os) (beside_nd nd) tasks front (h\<lparr>h_todos := ToDos_pop_front (h_todos h)\<rparr>) = (s, t)" by fastforce
    have state: "song_state ts fin texts t" by (rule song_task [OF Suc.prems(2) assms(1,2) Cons t])
    obtain d' w where e: "p_tick p d (h_world t) = (d', w)" by (cases "p_tick p d (h_world t)")
    have "song_state ts fin texts (t\<lparr>h_world := w\<rparr>)"
      using state tick [of d "h_world t"] e song_state_stage [of "t\<lparr>h_world := w\<rparr>" t] by (simp add: stage_def)
    then show ?thesis using Suc.prems Cons t e state Suc.IH
      by (auto simp: Let_def song_env_def split: if_splits sum.splits)
  qed
qed simp

lemma song_step:
  assumes "list_all2 (\<lambda>t x. \<exists>time words. tasks t = Some (Sing time words) \<and> x = Sing_text (nat time) words) ts texts"
    and "tasks fin = Some Fin" and "song_state ts fin texts h"
    and "Step (song_env (beside_os os) (beside_nd nd) tasks) fuel timeout h = Some (r, g)"
  shows "song_state ts fin texts g"
proof -
  let ?env = "song_env (beside_os os) (beside_nd nd) tasks"
  note world = beside.clocks
  have tick: "snd (snd (p_tick (policy_unlimited (beside_os os)) d w)) = snd w" "snd (snd (p_tick (policy_zero (beside_os os)) d w)) = snd w"
    "snd (snd (p_tick (policy_limited (beside_os os)) d' w)) = snd w" for d d' and w :: "_ \<times> string list"
    by (simp_all add: policy_unlimited_def policy_zero_def policy_limited_def world)
  have start: "song_state ts fin texts (h\<lparr>h_world := snd (Clocked (beside_os os) (h_world h))\<rparr>)"
    "song_state ts fin texts (h\<lparr>h_world := snd (DeadlineLimited (beside_os os) timeout (h_world h))\<rparr>)"
    using assms(3) song_state_stage [of "h\<lparr>h_world := snd (Clocked (beside_os os) (h_world h))\<rparr>" h]
      song_state_stage [of "h\<lparr>h_world := snd (DeadlineLimited (beside_os os) timeout (h_world h))\<rparr>" h] by (simp_all add: stage_def world)
  have todos: "song_state ts fin texts u" if "step_todos ?env fuel timeout h = Some (x, u)" for x u
    using that start song_todos [OF assms(1,2) tick(1)] song_todos [OF assms(1,2) tick(2)] song_todos [OF assms(1,2) tick(3)]
    by (auto simp: step_todos_def Let_def case_prod_unfold split: if_splits)
  have sockets: "song_state ts fin texts v" if "StepSockets ?env d u = (x, v)" "song_state ts fin texts u" for d u x v
    using StepSockets_stage [of u os nd _ d x v] that song_state_stage unfolding song_env_def song_state_def by metis
  show ?thesis using assms(3,4) todos sockets by (auto simp: Step_def split: if_splits option.splits sum.splits)
qed

lemma song_loop:
  assumes "list_all2 (\<lambda>t x. \<exists>time words. tasks t = Some (Sing time words) \<and> x = Sing_text (nat time) words) ts texts"
    and "tasks fin = Some Fin"
  shows "Run_loop (song_env (beside_os os) (beside_nd nd) tasks) fuel n h = Some (r, g) \<Longrightarrow> song_state ts fin texts h \<Longrightarrow>
    song_state ts fin texts g \<and> (r = Inr () \<longrightarrow> h_shouldStop g)"
proof (induction n arbitrary: h)
  case (Suc n)
  show ?case
  proof (cases "h_shouldStop h")
    case False
    with Suc.prems(1) obtain s t where t: "Step (song_env (beside_os os) (beside_nd nd) tasks) fuel (-1) h = Some (s, t)"
      by (auto split: option.splits)
    have "song_state ts fin texts t" by (rule song_step [OF assms Suc.prems(2) t])
    with Suc False t show ?thesis by (auto split: sum.splits)
  qed (use Suc.prems in simp)
qed (auto split: if_splits)

section \<open>Reading the file\<close>

definition scene :: "'w singer \<times> (todo_id \<Rightarrow> song_task option) \<Rightarrow> sock_id list \<times> string list" where
  "scene p = (h_sockets (fst p), snd (h_world (fst p)))"

lemma steady_beside: "steady os clock \<Longrightarrow> steady (beside_os os) (clock \<circ> fst)"
  by (simp add: steady_def beside_os_def beside_def case_prod_unfold) (metis prod.collapse)

lemma leaves_scene_heap: "leaves (\<lambda>h. (h_sockets h, snd (h_world h))) m \<Longrightarrow> leaves scene (on_heap m)"
  by (simp add: leaves_def scene_def on_heap_def)

lemma clock_silent: "leaves (\<lambda>h. (h_sockets h, snd (h_world h))) (Clock_now (plain_of (beside_os os) nd user tls))"
  by (simp add: leaves_def Clock_now_def heap_world_def call_def Let_def case_prod_unfold beside.calls)

lemma todos_silent:
  "leaves (\<lambda>h. (h_sockets h, snd (h_world h))) (make_ToDo f)" "leaves (\<lambda>h. (h_sockets h, snd (h_world h))) (Driver_ToDoInsert t)"
  "leaves (\<lambda>h. (h_sockets h, snd (h_world h))) (Driver_ToDoMove t when)"
  by (simp_all add: leaves_def make_ToDo_def Driver_ToDoInsert_def Driver_ToDoMove_def call_def case_prod_unfold Let_def)

lemma scene_new_task: "leaves scene (on_heap (ToDo_new_in (plain_of (beside_os os) nd user tls) time))"
  unfolding ToDo_new_in_def by (intro leaves_scene_heap leaves_intros clock_silent todos_silent)

lemma scene_shift: "leaves scene (on_heap (ToDo_Shift_in (plain_of (beside_os os) nd user tls) t time))"
  unfolding ToDo_Shift_in_def ToDo_Shift_to_def by (intro leaves_scene_heap leaves_intros clock_silent todos_silent)

lemma scene_bind: "leaves scene (bind_task t task)"
  by (simp add: leaves_def scene_def bind_task_def)

lemma scene_line: "leaves scene (schedule_line (plain_of (beside_os os) nd user tls) finale line)"
  unfolding schedule_line_def
  by (intro leaves_intros) (auto split: option.split intro!: leaves_intros scene_new_task scene_shift scene_bind)

lemma scene_lines: "leaves scene (schedule_lines (plain_of (beside_os os) nd user tls) finale lines)"
proof (induction lines)
  case (Cons line lines)
  show ?case unfolding schedule_lines.simps by (intro leaves_intros scene_line Cons)
qed (unfold schedule_lines.simps, rule leaves_basic)

lemma scene_file: "leaves scene (ParseAndSchedule (plain_of (beside_os os) nd user tls) lines)"
  unfolding ParseAndSchedule_def by (intro leaves_intros scene_new_task scene_bind scene_lines)

section \<open>The whole program\<close>

definition lyrics :: "string list \<Rightarrow> string list" where
  "lyrics lines = map (\<lambda>(time, words). Sing_text (nat time) words) (song lines)"


text \<open>One line at the very beginning; the driver is woken up by its own stop.\<close>

definition demo_singer :: "script singer" where
  "demo_singer = new_heap test_pipes (script0\<lparr>s_polls := [(1, [{POLLOUT}]), (1, [{POLLIN}])], s_sendtos := [1],
     s_recvfroms := [(1, ''1'', [])]\<rparr>, [])"

lemma early_line: "parse_line ''[00:00]la'' = Inr (Some (0, ''la''))" "parse_line ''by nobody'' = Inr None"
proof -
  have "match_line ''[00:00]la'' = Some (''00'', ''00'', ''la'')"
    unfolding match_line_iff by (simp add: lrc_parts_def is_digit_def is_number_def is_dot_def)
  moreover have "ParseMinutes ''00'' = Inr 0" by (simp add: ParseMinutes_def is_digit_def digits_val_def digit_val_def)
  moreover have "ParseSeconds ''00'' = Inr 0"
  proof -
    have "spacing 254 0 0 1 = 0" using spacing_eq [of 0 0 0 1 254] by simp
    then have "to_float 0 1 = 0" by (simp add: to_float_def nearest_even_def)
    moreover have "read_decimal ''00'' = Some (0, 0)" by (simp add: read_decimal_def is_digit_def digits_val_def digit_val_def)
    ultimately show ?thesis by (simp add: ParseSeconds_def Let_def)
  qed
  ultimately show "parse_line ''[00:00]la'' = Inr (Some (0, ''la''))" by (simp add: parse_line_def)
qed (rule demo_line)

text \<open>The state after the file was read.\<close>

definition demo_scheduled :: "script singer" where
  "demo_scheduled = demo_singer\<lparr>h_todos := \<lparr>pending = [1, 0], when_of = (\<lambda>_. 0), next_todo = 2\<rparr>\<rparr>"

lemma demo_read:
  "ParseAndSchedule (plain_of (beside_os script_os) nd user tls) [''by nobody'', ''[00:00]la''] (demo_singer, Map.empty)
     = (Inr (), (demo_scheduled, [0 \<mapsto> Fin, 1 \<mapsto> Sing 0 ''la'']))"
  by (simp add: ParseAndSchedule_def schedule_line_def early_line lift_sum_def on_heap_def bind_task_def ToDo_new_in_def ToDo_Shift_in_def
     ToDo_Shift_to_def Clock_now_def heap_world_def make_ToDo_def ToDoImpl_at_def Driver_ToDoInsert_def Driver_ToDoMove_def ToDos_Insert_def
     ToDos_Move_def ToDos_Remove_def ToDos_Find_def demo_singer_def new_heap_def no_todos_def andthen_def call_def beside_os_def beside_def
     script_os_def script_now_def script0_def WhenBefore_def IsSame_def add_ms_def ns_per_ms_def demo_scheduled_def numeral_2_eq_2 fun_eq_iff)


end
