(* ===== verification/Chat.thy ===== *)
theory Chat
  imports Public
begin

text \<open>
  \<^verbatim>\<open>examples/sockpuppet_chat_server.cpp\<close>: a server that forwards what one client says to all others.  It is user code of
  the library: its handlers run inside the driver and use sockets, buffers and addresses.
\<close>

section \<open>State\<close>

text \<open>
  The members of \<^verbatim>\<open>ChatServer\<close> and the lines printed so far, beside the world of the system.  A line is printed as a whole
  or, when one of its parts throws, not at all, where the source has printed the parts in front.  The map of
  clients is a list in the order of its iteration, which the standard leaves open.  Socket objects made later have
  higher numbers; the receive buffers of a socket are in the pool with its number, the send buffers
  in the pool 0.
\<close>

record chat =
  ch_clients :: "(address \<times> sock_id) list"
  ch_server :: sock_id
  ch_next :: sock_id
  ch_out :: "string list"

type_synonym 'w chat_heap = "('w \<times> chat) heap"

definition get_chat :: "(chat \<Rightarrow> 'a) \<Rightarrow> ('w chat_heap, 'a) exec" where
  "get_chat f = get (\<lambda>h. f (snd (h_world h)))"

definition on_chat :: "(chat \<Rightarrow> chat) \<Rightarrow> ('w chat_heap, unit) exec" where
  "on_chat f = modify (\<lambda>h. h\<lparr>h_world := (fst (h_world h), f (snd (h_world h)))\<rparr>)"

definition println :: "string \<Rightarrow> ('w chat_heap, unit) exec" where
  "println line = on_chat (\<lambda>c. c\<lparr>ch_out := ch_out c @ [line]\<rparr>)"

definition show_address :: "('w \<times> chat) env \<Rightarrow> address \<Rightarrow> ('w chat_heap, string) exec" where
  "show_address env a = heap_world (Address_to_string (e_nd env) a)"

text \<open>The lookup of \<^verbatim>\<open>std::unordered_map\<close>: by equality of addresses.\<close>

definition same_key :: "address \<Rightarrow> address \<times> sock_id \<Rightarrow> bool" where
  "same_key a = (\<lambda>(c, _). Address_equal c a = Inr True)"

section \<open>Handlers\<close>

text \<open>
  A client is accepted: its socket becomes asynchronous and is stored.  When the address is in the map already,
  \<^verbatim>\<open>emplace\<close> stores nothing and the socket is closed again.
\<close>

definition HandleConnect :: "('w \<times> chat) env \<Rightarrow> fd \<Rightarrow> address \<Rightarrow> ('w chat_heap, unit) exec" where
  "HandleConnect env clientSock clientAddr =
     andthen (on_throw
       (andthen (show_address env clientAddr) (\<lambda>peer.
        andthen (heap_world (LocalAddress (e_os env) (e_nd env) clientSock)) (\<lambda>localAddr.
        andthen (show_address env localAddr) (\<lambda>self.
          println (''connection '' @ peer @ '' <- '' @ self @ '' accepted'')))))
       (\<lambda>h. h\<lparr>h_world := SocketImpl_destroy (e_os env) clientSock (h_world h)\<rparr>)) (\<lambda>_.
     andthen (get_chat ch_next) (\<lambda>k.
     andthen (on_chat (\<lambda>c. c\<lparr>ch_next := Suc k\<rparr>)) (\<lambda>_.
     andthen (heap_world (SocketBufferedImpl (e_os env) (e_vt env k) clientSock 0 0)) (\<lambda>(sz, p).
     andthen (modify (\<lambda>h. h\<lparr>h_pools := (h_pools h)(k := p)\<rparr>)) (\<lambda>_.
     andthen (SocketTcpAsync env k clientSock sz k) (\<lambda>_.
     andthen (get_chat ch_clients) (\<lambda>clients.
       if list_ex (same_key clientAddr) clients then SocketAsyncImpl_destroy env k
       else on_chat (\<lambda>c. c\<lparr>ch_clients := ch_clients c @ [(clientAddr, k)]\<rparr>))))))))"

definition Get_send_buffer :: "('w heap, buf_ref) exec" where
  "Get_send_buffer =
     andthen (zoom (\<lambda>h. h_pools h 0) (\<lambda>p h. h\<lparr>h_pools := (h_pools h)(0 := p)\<rparr>) BufferPool_Get) (\<lambda>b.
       ret \<lparr>br_pool = 0, br_ptr = b\<rparr>)"

text \<open>The loop over the clients; the future of each send is dropped.\<close>

fun forward :: "address \<Rightarrow> string \<Rightarrow> (address \<times> sock_id) list \<Rightarrow> ('w chat_heap, unit) exec" where
  "forward clientAddr prefixed [] = ret ()"
| "forward clientAddr prefixed ((a, k) # clients) =
     andthen (lift_sum (Address_not_equal a clientAddr)) (\<lambda>other.
     andthen
       (if \<not> other then ret ()
        else
          andthen Get_send_buffer (\<lambda>sendBuffer.
          andthen (modify (buf_modify sendBuffer (\<lambda>_. prefixed))) (\<lambda>_.
          andthen (Send k sendBuffer) (\<lambda>_. ret ())))) (\<lambda>_.
     forward clientAddr prefixed clients))"

text \<open>The received buffer goes back to its pool when the handler is left.\<close>

definition HandleReceive :: "('w \<times> chat) env \<Rightarrow> address \<Rightarrow> buf_ref \<Rightarrow> ('w chat_heap, unit) exec" where
  "HandleReceive env clientAddr receiveBuffer =
     andthen (on_throw
       (andthen (show_address env clientAddr) (\<lambda>peer.
        andthen (get (buf_content receiveBuffer)) (\<lambda>received.
        let prefixed = peer @ '' says: '' @ received
        in andthen (println prefixed) (\<lambda>_.
           andthen (get_chat ch_clients) (forward clientAddr prefixed)))))
       (buf_drop receiveBuffer)) (\<lambda>_. modify (buf_drop receiveBuffer))"

text \<open>\<^verbatim>\<open>at\<close> throws for an address that is not in the map; \<^verbatim>\<open>erase\<close> destroys the socket.\<close>

definition HandleDisconnect :: "('w \<times> chat) env \<Rightarrow> address \<Rightarrow> ('w chat_heap, unit) exec" where
  "HandleDisconnect env clientAddr =
     andthen (show_address env clientAddr) (\<lambda>peer.
     andthen (get_chat ch_clients) (\<lambda>clients.
       case find (same_key clientAddr) clients of
         None \<Rightarrow> throw (OutOfRange ''unordered_map::at'')
       | Some (_, k) \<Rightarrow>
           andthen (Async_LocalAddress env k) (\<lambda>localAddr.
           andthen (show_address env localAddr) (\<lambda>self.
           andthen (println (''connection '' @ peer @ '' <- '' @ self @ '' disconnected'')) (\<lambda>_.
           andthen (on_chat (\<lambda>c. c\<lparr>ch_clients := filter (\<lambda>x. \<not> same_key clientAddr x) (ch_clients c)\<rparr>)) (\<lambda>_.
             SocketAsyncImpl_destroy env k))))))"

section \<open>Destruction\<close>

fun destroy_all :: "'w env \<Rightarrow> sock_id list \<Rightarrow> ('w heap, unit) exec" where
  "destroy_all env [] = ret ()"
| "destroy_all env (k # ks) = andthen (SocketAsyncImpl_destroy env k) (\<lambda>_. destroy_all env ks)"

text \<open>The members go in reverse order of their declaration: the pool before the clients, then the server.\<close>

definition ChatServer_destroy :: "('w \<times> chat) env \<Rightarrow> ('w chat_heap, unit) exec" where
  "ChatServer_destroy env =
     andthen (zoom (\<lambda>h. h_pools h 0) (\<lambda>p h. h\<lparr>h_pools := (h_pools h)(0 := p)\<rparr>) BufferPool_destroy) (\<lambda>_.
     andthen (get_chat (map snd \<circ> ch_clients)) (\<lambda>ks.
     andthen (destroy_all env ks) (\<lambda>_.
     andthen (get_chat ch_server) (SocketAsyncImpl_destroy env))))"

section \<open>Construction and running\<close>

text \<open>The socket object of the server takes the next number, which must not be that of the send buffers.\<close>

definition new_ChatServer :: "('w \<times> chat) env \<Rightarrow> address \<Rightarrow> ('w chat_heap, unit) exec" where
  "new_ChatServer env bindAddress =
     andthen (heap_world (Acceptor (e_os env) (e_nd env) bindAddress)) (\<lambda>sock.
     andthen (get_chat ch_next) (\<lambda>k.
     andthen (on_chat (\<lambda>c. c\<lparr>ch_next := Suc k, ch_server := k\<rparr>)) (\<lambda>_.
     andthen (AcceptorAsync env k sock k) (\<lambda>_.
       on_throw
         (andthen (Async_LocalAddress env k) (\<lambda>localAddr.
          andthen (show_address env localAddr) (\<lambda>self. println (''listening at '' @ self))))
         (\<lambda>h. snd (ChatServer_destroy env h))))))"

definition Server :: "('w \<times> chat) env \<Rightarrow> nat \<Rightarrow> nat \<Rightarrow> address \<Rightarrow> 'w chat_heap \<Rightarrow> ((exn + unit) \<times> 'w chat_heap) option" where
  "Server env fuel n bindAddress h =
     (case new_ChatServer env bindAddress h of
        (Inl e, g) \<Rightarrow> Some (Inl e, g)
      | (Inr _, g) \<Rightarrow>
          (case Run env fuel n g of
             None \<Rightarrow> None
           | Some (Inl e, g) \<Rightarrow> Some (Inl e, snd (ChatServer_destroy env g))
           | Some (Inr _, g) \<Rightarrow> Some (ChatServer_destroy env g)))"

section \<open>What a client says reaches all others\<close>

text \<open>The texts in the send queue of a socket.\<close>

fun queue_refs :: "send_queue \<Rightarrow> buf_ref list" where
  "queue_refs (SendQ q) = map snd q"
| "queue_refs (SendToQ q) = map (fst \<circ> snd) q"

definition queued :: "'w heap \<Rightarrow> sock_id \<Rightarrow> string list" where
  "queued h k = map (\<lambda>b. buf_content b h) (queue_refs (as_sendQ (h_async h k)))"

text \<open>
  The driver's invariant; the pool of send buffers is unlimited, and what is queued of it is lent; and every client is a registered
  TCP socket of its own.
\<close>

definition chat_ok :: "'w heap \<Rightarrow> bool" where
  "chat_ok h \<longleftrightarrow> driver_ok h \<and> pool_inv (h_pools h 0) \<and> m_maxCount (h_pools h 0) = -1
     \<and> (\<forall>k. \<forall>b \<in> set (queue_refs (as_sendQ (h_async h k))). br_pool b = 0 \<longrightarrow> br_ptr b \<in> set (m_busy (h_pools h 0)))"

definition clients_ok :: "'w heap \<Rightarrow> (address \<times> sock_id) list \<Rightarrow> bool" where
  "clients_ok h clients \<longleftrightarrow> distinct (map snd clients)
     \<and> (\<forall>(a, k) \<in> set clients. k \<in> set (h_sockets h) \<and> \<not> with_addresses (as_sendQ (h_async h k)))"

lemma Get_unlimited:
  assumes "pool_inv p" and "m_maxCount p = -1"
  obtains b q where "BufferPool_Get p = (Inr b, q)" and "b \<notin> set (m_busy p)" and "set (m_busy q) = insert b (set (m_busy p))"
    and "pool_inv q" and "m_maxCount q = -1" and "\<And>c. c \<noteq> b \<Longrightarrow> buf_at q c = buf_at p c"
proof -
  obtain r q where g: "BufferPool_Get p = (r, q)" by fastforce
  from g show thesis
  proof (cases rule: Get_cases)
    case (fresh b)
    with g pool.acquire_ok [OF assms(1), of b q] assms(2) that [of b q] show thesis by auto
  next
    case (idle b bs)
    with g pool.acquire_ok [OF assms(1), of b q] assms(2) that [of b q] show thesis by auto
  next
    case empty
    with assms(2) show thesis by (simp add: word_n1_ge)
  qed
qed

definition say_to :: "string \<Rightarrow> sock_id \<Rightarrow> ('w chat_heap, unit) exec" where
  "say_to prefixed k =
     andthen Get_send_buffer (\<lambda>sendBuffer.
     andthen (modify (buf_modify sendBuffer (\<lambda>_. prefixed))) (\<lambda>_.
     andthen (Send k sendBuffer) (\<lambda>_. ret ())))"

lemma say_to_run:
  assumes ok: "chat_ok h" and k: "k \<in> set (h_sockets h)" and q: "\<not> with_addresses (as_sendQ (h_async h k))"
  shows "\<exists>g. say_to t k h = (Inr (), g) \<and> chat_ok g \<and> h_sockets g = h_sockets h \<and> h_world g = h_world h
    \<and> (\<forall>j. with_addresses (as_sendQ (h_async g j)) = with_addresses (as_sendQ (h_async h j)))
    \<and> (\<forall>j. queued g j = queued h j @ (if j = k then [t] else [])) \<and> (\<forall>i. i \<noteq> 0 \<longrightarrow> h_pools g i = h_pools h i)"
proof -
  obtain q0 where q0: "as_sendQ (h_async h k) = SendQ q0" using q by (cases "as_sendQ (h_async h k)") auto
  have c: "driver_ok h" "pool_inv (h_pools h 0)" "m_maxCount (h_pools h 0) = -1"
    "\<And>j b. b \<in> set (queue_refs (as_sendQ (h_async h j))) \<Longrightarrow> br_pool b = 0 \<Longrightarrow> br_ptr b \<in> set (m_busy (h_pools h 0))"
    using ok by (auto simp: chat_ok_def)
  obtain b p where g: "BufferPool_Get (h_pools h 0) = (Inr b, p)" "b \<notin> set (m_busy (h_pools h 0))"
    "set (m_busy p) = insert b (set (m_busy (h_pools h 0)))" "pool_inv p" "m_maxCount p = -1"
    "\<And>c. c \<noteq> b \<Longrightarrow> buf_at p c = buf_at (h_pools h 0) c" using Get_unlimited [OF c(2,3)] by metis
  let ?b = "\<lparr>br_pool = 0, br_ptr = b\<rparr>"
  let ?p = "pool_write b (\<lambda>x. x\<lparr>content := t\<rparr>) p"
  let ?h = "h\<lparr>h_pools := (h_pools h)(0 := ?p)\<rparr>"
  have "driver_ok ?h" using c(1) driver_ok_cong [of ?h h] by simp
  from exact.Send_registered [OF this, of k q0 ?b] k q0
  obtain ps where sent: "Send k ?b ?h = (Inr (h_next_promise h),
      (grown k (SendQ (q0 @ [(h_next_promise h, ?b)])) (snd (new_promise ?h)))\<lparr>h_pfds := ps\<rparr>)"
    "driver_ok ((grown k (SendQ (q0 @ [(h_next_promise h, ?b)])) (snd (new_promise ?h)))\<lparr>h_pfds := ps\<rparr>)" by auto
  let ?g = "(grown k (SendQ (q0 @ [(h_next_promise h, ?b)])) (snd (new_promise ?h)))\<lparr>h_pfds := ps\<rparr>"
  have run: "say_to t k h = (Inr (), ?g)"
    using g(1) sent(1) by (simp add: say_to_def Get_send_buffer_def andthen_def buf_modify_def)
  have g_simps: "h_pools ?g = (h_pools h)(0 := ?p)" "h_sockets ?g = h_sockets h" "h_world ?g = h_world h"
    "as_sendQ (h_async ?g j) = (if j = k then SendQ (q0 @ [(h_next_promise h, ?b)]) else as_sendQ (h_async h j))" for j
    by (simp_all add: grown_def upd_async_def new_promise_def set_promise_def)
  have kept: "buf_content c' ?g = buf_content c' h" if "c' \<in> set (queue_refs (as_sendQ (h_async h j)))" for c' j
    using c(4) [OF that] g(2,6) by (cases "br_pool c' = 0") (auto simp: buf_content_def g_simps(1))
  have new: "buf_content ?b ?g = t" by (simp add: buf_content_def g_simps(1))
  have "queued ?g j = queued h j @ (if j = k then [t] else [])" for j
    using kept [of _ j] kept [of _ k] new q0 unfolding queued_def g_simps(4) by (auto simp: o_def)
  moreover have "chat_ok ?g"
    unfolding chat_ok_def g_simps(1,4) using sent(2) g(3-5) c(4) [of _ k] c(4) q0 by (auto split: if_splits)
  ultimately show ?thesis using run q0 g_simps by (intro exI [of _ ?g]) auto
qed

definition said :: "address \<Rightarrow> (address \<times> sock_id) list \<Rightarrow> sock_id \<Rightarrow> bool" where
  "said from clients k \<longleftrightarrow> (\<exists>a. (a, k) \<in> set clients \<and> Address_not_equal a from = Inr True)"

lemma forward_run:
  "chat_ok h \<Longrightarrow> clients_ok h clients \<Longrightarrow> \<forall>(a, k) \<in> set clients. \<not> isl (Address_not_equal a from) \<Longrightarrow>
    \<exists>g. forward from t clients h = (Inr (), g) \<and> chat_ok g \<and> h_sockets g = h_sockets h \<and> h_world g = h_world h
    \<and> (\<forall>j. with_addresses (as_sendQ (h_async g j)) = with_addresses (as_sendQ (h_async h j)))
    \<and> (\<forall>j. queued g j = queued h j @ (if said from clients j then [t] else [])) \<and> (\<forall>i. i \<noteq> 0 \<longrightarrow> h_pools g i = h_pools h i)"
proof (induction clients arbitrary: h)
  case (Cons x clients)
  obtain a k where x: "x = (a, k)" by fastforce
  obtain other where other: "Address_not_equal a from = Inr other" using Cons.prems(3) x by (cases "Address_not_equal a from") auto
  have ok: "clients_ok h clients" "k \<in> set (h_sockets h)" "\<not> with_addresses (as_sendQ (h_async h k))" "k \<notin> snd ` set clients"
    using Cons.prems(2) x by (auto simp: clients_ok_def)
  have once: "\<not> said from clients k" using ok(4) by (force simp: said_def)
  have cons: "said from (x # clients) j \<longleftrightarrow> other \<and> j = k \<or> said from clients j" for j
    using other x by (auto simp: said_def)
  have unfold: "forward from t (x # clients) h = andthen (if \<not> other then ret () else say_to t k) (\<lambda>_. forward from t clients) h"
    using other x by (simp add: lift_sum_def say_to_def)
  have all: "\<forall>(a, k) \<in> set clients. \<not> isl (Address_not_equal a from)" using Cons.prems(3) by simp
  show ?case
  proof (cases other)
    case False
    from Cons.IH [OF Cons.prems(1) ok(1) all] False unfold cons show ?thesis by simp
  next
    case True
    obtain g where g: "say_to t k h = (Inr (), g)" "chat_ok g" "h_sockets g = h_sockets h" "h_world g = h_world h"
      "\<And>j. with_addresses (as_sendQ (h_async g j)) = with_addresses (as_sendQ (h_async h j))"
      "\<And>j. queued g j = queued h j @ (if j = k then [t] else [])" "\<And>i. i \<noteq> 0 \<Longrightarrow> h_pools g i = h_pools h i" using say_to_run [OF Cons.prems(1) ok(2,3)] by blast
    have "clients_ok g clients" using ok(1) g(3,5) by (simp add: clients_ok_def)
    from Cons.IH [OF g(2) this all] obtain g' where g': "forward from t clients g = (Inr (), g')" "chat_ok g'" "h_sockets g' = h_sockets g"
      "h_world g' = h_world g" "\<And>j. with_addresses (as_sendQ (h_async g' j)) = with_addresses (as_sendQ (h_async g j))"
      "\<And>j. queued g' j = queued g j @ (if said from clients j then [t] else [])" "\<And>i. i \<noteq> 0 \<Longrightarrow> h_pools g' i = h_pools g i" by blast
    have "queued g' j = queued h j @ (if said from (x # clients) j then [t] else [])" for j
      using g(6) [of j] g'(6) [of j] once True unfolding cons by auto
    with unfold True g(1,3-5,7) g'(1-5,7) show ?thesis by (intro exI [of _ g']) simp
  qed
qed (simp add: said_def)

lemma chat_ok_cong:
  fixes g h :: "'w heap"
  assumes "lists_of g = lists_of h" and "h_pools g 0 = h_pools h 0"
  shows "chat_ok g = chat_ok h"
proof -
  have "h_async g = h_async h" using assms(1) by (simp add: lists_of_def)
  with driver_ok_cong [OF assms(1)] assms(2) show ?thesis by (simp add: chat_ok_def)
qed

text \<open>
  C37. Whatever a client says is queued, with its address in front, for every other client, once and behind what was queued before, and
  for nobody else; the line is printed; the received buffer is back in its pool; and the driver is
  ready for more.
\<close>

theorem chat_broadcast:
  assumes "chat_ok h" and "clients_ok h (ch_clients (snd (h_world h)))"
    and "\<forall>(a, k) \<in> set (ch_clients (snd (h_world h))). \<not> isl (Address_not_equal a from)"
    and "Address_to_string (e_nd env) from (h_world h) = (Inr peer, (w, snd (h_world h)))"
    and "br_pool b \<noteq> 0" and "pool_inv (h_pools h (br_pool b))" and "br_ptr b \<in> set (m_busy (h_pools h (br_pool b)))"
  defines "line \<equiv> peer @ '' says: '' @ buf_content b h"
  shows "\<exists>g. HandleReceive env from b h = (Inr (), g) \<and> chat_ok g
    \<and> (\<forall>j. queued g j = queued h j @ (if said from (ch_clients (snd (h_world h))) j then [line] else []))
    \<and> clients_ok g (ch_clients (snd (h_world g))) \<and> ch_out (snd (h_world g)) = ch_out (snd (h_world h)) @ [line] \<and> br_ptr b \<notin> set (m_busy (h_pools g (br_pool b)))"
proof -
  let ?clients = "ch_clients (snd (h_world h))"
  let ?h = "h\<lparr>h_world := (w, (snd (h_world h))\<lparr>ch_out := ch_out (snd (h_world h)) @ [line]\<rparr>)\<rparr>"
  have same: "chat_ok ?h = chat_ok h" "clients_ok ?h ?clients = clients_ok h ?clients" "queued ?h j = queued h j" for j
    using chat_ok_cong [of ?h h] by (simp_all add: clients_ok_def queued_def buf_content_def)
  then obtain g where g: "forward from line ?clients ?h = (Inr (), g)" "chat_ok g" "h_world g = h_world ?h"
    "h_sockets g = h_sockets h" "\<And>j. with_addresses (as_sendQ (h_async g j)) = with_addresses (as_sendQ (h_async h j))"
    "\<And>j. queued g j = queued h j @ (if said from ?clients j then [line] else [])" "\<And>i. i \<noteq> 0 \<Longrightarrow> h_pools g i = h_pools h i"
    using forward_run [of ?h ?clients "from" line] assms(1-3) by auto
  let ?body = "andthen (show_address env from) (\<lambda>peer. andthen (get (buf_content b)) (\<lambda>received.
      let prefixed = peer @ '' says: '' @ received
      in andthen (println prefixed) (\<lambda>_. andthen (get_chat ch_clients) (forward from prefixed))))"
  have "show_address env from h = (Inr peer, h\<lparr>h_world := (w, snd (h_world h))\<rparr>)"
    using assms(4) by (simp add: show_address_def heap_world_def)
  moreover have "buf_content b (h\<lparr>h_world := v\<rparr>) = buf_content b h" for v by (simp add: buf_content_def)
  moreover have "println line (h\<lparr>h_world := (w, snd (h_world h))\<rparr>) = (Inr (), ?h)" by (simp add: println_def on_chat_def)
  ultimately have "?body h = (Inr (), g)" using g(1)
    by (simp add: get_chat_def Let_def line_def [symmetric] del: append.simps append_Cons append_Nil append_assoc)
  then have run: "HandleReceive env from b h = (Inr (), buf_drop b g)" by (simp add: HandleReceive_def)
  have p: "h_pools (buf_drop b g) (br_pool b) = snd (Recycler (Some (br_ptr b)) (h_pools h (br_pool b)))"
    "\<And>i. i \<noteq> br_pool b \<Longrightarrow> h_pools (buf_drop b g) i = h_pools g i"
    using g(7) assms(5) by (simp_all add: buf_drop_def)
  have "distinct (m_busy (h_pools h (br_pool b)))" using assms(6) by (simp add: pool_inv_def)
  then have returned: "br_ptr b \<notin> set (m_busy (h_pools (buf_drop b g) (br_pool b)))"
    unfolding p(1) using assms(7) by (simp add: Recycler_def Recycle_busy)
  have content: "buf_content c (buf_drop b g) = buf_content c g" for c
  proof -
    have "buf_at (snd (Recycler (Some x) q)) = buf_at q" for x q
      by (cases "x \<in> set (m_busy q)") (simp_all add: Recycler_def Recycle_busy Recycle_unknown)
    then show ?thesis by (simp add: buf_content_def buf_drop_def)
  qed
  have "lists_of (buf_drop b g) = lists_of g" "h_pools (buf_drop b g) 0 = h_pools g 0" using p(2) assms(5) by simp_all
  then have "chat_ok (buf_drop b g)" using g(2) chat_ok_cong by blast
  moreover have "queued (buf_drop b g) j = queued g j" for j using content by (simp add: queued_def buf_drop_def)
  moreover have "h_world (buf_drop b g) = h_world g" by (simp add: buf_drop_def)
  moreover have "clients_ok (buf_drop b g) ?clients" using assms(2) g(4,5) by (simp add: clients_ok_def buf_drop_def)
  ultimately show ?thesis using run g(3,6) returned by (intro exI [of _ "buf_drop b g"]) simp
qed

text \<open>Two clients; the first has said hello.\<close>

definition demo_peer :: "byte \<Rightarrow> address" where
  "demo_peer n = Some (SockAddrStorage [2, n, 0, 0] 4)"

definition demo_chat :: "script chat_heap" where
  "demo_chat = (new_heap test_pipes (script0,
       \<lparr>ch_clients = [(demo_peer 1, 1), (demo_peer 2, 2)], ch_server = 0, ch_next = 3, ch_out = []\<rparr>))
     \<lparr>h_sockets := [1, 2],
      h_async := (\<lambda>k. \<lparr>as_fd = int k + 10, as_rxBufSize = 100, as_pool = k, as_role = TcpRole None, as_sendQ = SendQ []\<rparr>),
      h_pfds := map (\<lambda>s. \<lparr>pfd_fd = s, pfd_events = {POLLIN}, pfd_revents = {}\<rparr>) [3, 11, 12],
      h_pools := (\<lambda>k. if k = 1 then pool_write 0 (\<lambda>x. x\<lparr>content := ''hello''\<rparr>) (snd (BufferPool_Get (BufferPool 0 0))) else BufferPool 0 0)\<rparr>"

definition demo_chat_env :: "(script \<times> chat) env" where
  "demo_chat_env = plain_of (beside_os script_os) (beside_nd (test_netdb_script\<lparr>nd_getnameinfo := (\<lambda>a bh bs w. ((0, ''10.0.0.1'' @ [NUL], ''8554'' @ [NUL]), w))\<rparr>))
     test_user False"

theorem chat_broadcast_witness:
  "\<exists>g. HandleReceive demo_chat_env (demo_peer 1) \<lparr>br_pool = 1, br_ptr = 0\<rparr> demo_chat = (Inr (), g)
    \<and> queued g 1 = [] \<and> queued g 2 = [''10.0.0.1:8554 says: hello'']"
proof -
  let ?clients = "ch_clients (snd (h_world demo_chat))"
  have clients: "?clients = [(demo_peer 1, 1), (demo_peer 2, 2)]" by (simp add: demo_chat_def new_heap_def)
  have "driver_ok demo_chat"
    by (simp add: demo_chat_def driver_ok_def entry_ok_def DriverGetFd_def new_heap_def test_pipes_def)
  then have ok: "chat_ok demo_chat" by (simp add: chat_ok_def demo_chat_def BufferPool_new)
  have reg: "clients_ok demo_chat ?clients" unfolding clients_ok_def clients by (simp add: demo_chat_def)
  have cmp: "Address_not_equal (demo_peer 1) (demo_peer 1) = Inr False" "Address_not_equal (demo_peer 2) (demo_peer 1) = Inr True"
    by code_simp+
  have peer: "fst (Address_to_string (e_nd demo_chat_env) (demo_peer 1) (h_world demo_chat)) = Inr ''10.0.0.1:8554''"
    "snd (snd (Address_to_string (e_nd demo_chat_env) (demo_peer 1) (h_world demo_chat))) = snd (h_world demo_chat)"
    by code_simp+
  obtain w where "Address_to_string (e_nd demo_chat_env) (demo_peer 1) (h_world demo_chat) = (Inr ''10.0.0.1:8554'', (w, snd (h_world demo_chat)))"
    using peer by (metis prod.collapse)
  moreover have "pool_inv (h_pools demo_chat 1)" "0 \<in> set (m_busy (h_pools demo_chat 1))" "buf_content \<lparr>br_pool = 1, br_ptr = 0\<rparr> demo_chat = ''hello''"
    by (simp_all add: demo_chat_def BufferPool_def BufferPool_Get_def pool_inv_def buf_content_def)
  moreover have "queued demo_chat k = []" for k by (simp add: queued_def demo_chat_def)
  moreover have "said (demo_peer 1) ?clients 2" "\<not> said (demo_peer 1) ?clients 1" using cmp by (simp_all add: said_def clients)
  ultimately show ?thesis
    using chat_broadcast [OF ok reg, of "demo_peer 1" demo_chat_env "''10.0.0.1:8554''" w "\<lparr>br_pool = 1, br_ptr = 0\<rparr>"] cmp clients
    by (auto simp del: append.simps)
qed

section \<open>Stopping with something to send\<close>

text \<open>
  The pool is declared behind the clients, so it is destroyed while their queues still hold its buffers: a server that is stopped
  before everything was sent fails the assertion of the pool, and without assertions the queues return their
  buffers to a pool that is gone.
\<close>

lemma ChatServer_destroy_unsent:
  assumes "chat_ok h" and "b \<in> set (queue_refs (as_sendQ (h_async h k)))" and "br_pool b = 0"
  shows "fst (ChatServer_destroy env h) = Inl AssertFailed"
proof -
  have "m_busy (h_pools h 0) \<noteq> []" using assms unfolding chat_ok_def by fastforce
  then show ?thesis by (simp add: ChatServer_destroy_def andthen_def BufferPool_destroy_def)
qed

end
