(* ===== verification/ChatClient.thy ===== *)
theory ChatClient
  imports Chat Song
begin

text \<open>
  \<^verbatim>\<open>examples/sockpuppet_chat_io_print.h\<close> and \<^verbatim>\<open>examples/sockpuppet_chat_client.cpp\<close>: a buffer of the last messages that is
  redrawn above the input line, and a client that reconnects with growing delays.
\<close>

section \<open>The buffer of printed lines\<close>

text \<open>The vector of lines and everything written to the terminal, on a system other than Windows.\<close>

record io_buffer =
  io_lines :: "string list"
  io_out :: string

abbreviation ESC :: char where
  "ESC \<equiv> CHR 0x1B"

abbreviation newline :: char where
  "newline \<equiv> CHR 0x0A"

definition clearLine :: string where
  "clearLine = ESC # ''[2K''"

definition cursorUpFront :: string where
  "cursorUpFront = ESC # ''[1F''"

definition CursorUpFrontGuard :: "nat \<Rightarrow> string" where
  "CursorUpFrontGuard n = (ESC # ''[s'') @ (ESC # ''['') @ decimal n @ ''F''"

definition CursorUpFrontGuard_destroy :: string where
  "CursorUpFrontGuard_destroy = ESC # ''[u''"

definition write_io :: "string \<Rightarrow> io_buffer \<Rightarrow> io_buffer" where
  "write_io s io = io\<lparr>io_out := io_out io @ s\<rparr>"

definition IOPrintBuffer :: "nat \<Rightarrow> io_buffer" where
  "IOPrintBuffer n =
     \<lparr>io_lines = replicate n [], io_out = replicate (n + 1) newline @ cursorUpFront @ clearLine\<rparr>"

definition redraw :: "io_buffer \<Rightarrow> io_buffer" where
  "redraw io = write_io (CursorUpFrontGuard (length (io_lines io))
     @ concat (map (\<lambda>line. clearLine @ line @ [newline]) (io_lines io)) @ CursorUpFrontGuard_destroy) io"

text \<open>Erasing the first line of an empty buffer is an error of the program.\<close>

definition Print :: "string \<Rightarrow> (io_buffer, unit) exec" where
  "Print message io =
     (case io_lines io of
        [] \<Rightarrow> (Inl AssertFailed, io)
      | _ # rest \<Rightarrow> (Inr (), redraw (io\<lparr>io_lines := rest @ [message]\<rparr>)))"

text \<open>\<open>getline\<close> is what the user enters.\<close>

definition Query :: "string \<Rightarrow> string \<Rightarrow> io_buffer \<Rightarrow> string \<times> io_buffer" where
  "Query prompt getline io = (getline, write_io (cursorUpFront @ clearLine) (write_io prompt io))"

fun Print_all :: "string list \<Rightarrow> (io_buffer, unit) exec" where
  "Print_all [] = ret ()"
| "Print_all (m # ms) = andthen (Print m) (\<lambda>_. Print_all ms)"

lemma Print_run: "io_lines io \<noteq> [] \<Longrightarrow> Print m io = (Inr (), redraw (io\<lparr>io_lines := tl (io_lines io) @ [m]\<rparr>))"
  by (cases "io_lines io") (simp_all add: Print_def)

lemma redraw_lines [simp]: "io_lines (redraw io) = io_lines io"
  by (simp add: redraw_def write_io_def)

lemma Print_all_run:
  "io_lines io \<noteq> [] \<Longrightarrow> \<exists>t. Print_all ms io = (Inr (), t) \<and> io_lines t = drop (length ms) (io_lines io @ ms)"
proof (induction ms arbitrary: io)
  case (Cons m ms)
  let ?io = "redraw (io\<lparr>io_lines := tl (io_lines io) @ [m]\<rparr>)"
  have "io_lines ?io \<noteq> []" by simp
  then obtain t where "Print_all ms ?io = (Inr (), t)" "io_lines t = drop (length ms) (io_lines ?io @ ms)" using Cons.IH by blast
  moreover have "drop (length (m # ms)) (io_lines io @ m # ms) = drop (length ms) (io_lines ?io @ ms)"
    using Cons.prems by (cases "io_lines io") simp_all
  ultimately show ?case using Print_run [OF Cons.prems, of m] by simp
qed simp

text \<open>
  The buffer shows the last messages: after any number of prints it holds as many lines as it was made for, and these are the
  latest ones in their order, with empty lines in front as long as there were fewer; and one more print goes
  up by just that number of lines and writes each of them on a cleared line, before the cursor returns.
\<close>

theorem io_print_history:
  assumes "0 < n"
  shows "\<exists>io. Print_all ms (IOPrintBuffer n) = (Inr (), io) \<and> io_lines io = drop (length ms) (replicate n [] @ ms)
    \<and> length (io_lines io) = n
    \<and> Print m io = (Inr (), \<lparr>io_lines = tl (io_lines io) @ [m],
        io_out = io_out io @ (ESC # ''[s'') @ (ESC # ''['') @ decimal n @ ''F''
          @ concat (map (\<lambda>line. (ESC # ''[2K'') @ line @ [newline]) (tl (io_lines io) @ [m])) @ (ESC # ''[u'')\<rparr>)"
proof -
  have "io_lines (IOPrintBuffer n) \<noteq> []" using assms by (simp add: IOPrintBuffer_def)
  then obtain io where io: "Print_all ms (IOPrintBuffer n) = (Inr (), io)" "io_lines io = drop (length ms) (replicate n [] @ ms)"
    using Print_all_run [of "IOPrintBuffer n" ms] by (auto simp: IOPrintBuffer_def)
  then have len: "length (io_lines io) = n" by simp
  then have "io_lines io \<noteq> []" using assms by auto
  then have "Print m io = (Inr (), redraw (io\<lparr>io_lines := tl (io_lines io) @ [m]\<rparr>))" by (rule Print_run)
  moreover have "length (tl (io_lines io) @ [m]) = n" using len assms by simp
  ultimately have "Print m io = (Inr (), \<lparr>io_lines = tl (io_lines io) @ [m],
        io_out = io_out io @ (ESC # ''[s'') @ (ESC # ''['') @ decimal n @ ''F''
          @ concat (map (\<lambda>line. (ESC # ''[2K'') @ line @ [newline]) (tl (io_lines io) @ [m])) @ (ESC # ''[u'')\<rparr>)"
    by (simp add: redraw_def write_io_def CursorUpFrontGuard_def CursorUpFrontGuard_destroy_def clearLine_def)
  with io len show ?thesis by blast
qed

theorem io_print_history_witness:
  "\<exists>io. Print_all [''a'', ''b'', ''c''] (IOPrintBuffer 2) = (Inr (), io) \<and> io_lines io = [''b'', ''c'']"
  using io_print_history [of 2 "[''a'', ''b'', ''c'']" "''d''"] by (auto simp: numeral_eq_Suc)

section \<open>The client\<close>

text \<open>
  The members of \<^verbatim>\<open>ReconnectClient\<close> and the arguments bound in its tasks, beside the world of the system.  The number of the next
  socket object is also that of its receive pool.
\<close>

record client =
  rc_client :: "sock_id option"
  rc_next :: sock_id
  rc_io :: io_buffer
  rc_tasks :: "todo_id \<Rightarrow> (address \<times> duration) option"

type_synonym 'w client_heap = "('w \<times> client) heap"

definition get_client :: "(client \<Rightarrow> 'a) \<Rightarrow> ('w client_heap, 'a) exec" where
  "get_client f = get (\<lambda>h. f (snd (h_world h)))"

definition on_client :: "(client \<Rightarrow> client) \<Rightarrow> ('w client_heap, unit) exec" where
  "on_client f = modify (\<lambda>h. h\<lparr>h_world := (fst (h_world h), f (snd (h_world h)))\<rparr>)"

definition io_Print :: "string \<Rightarrow> ('w client_heap, unit) exec" where
  "io_Print message = zoom (\<lambda>h. rc_io (snd (h_world h)))
     (\<lambda>io h. h\<lparr>h_world := (fst (h_world h), (snd (h_world h))\<lparr>rc_io := io\<rparr>)\<rparr>) (Print message)"

definition client_address :: "('w \<times> client) env \<Rightarrow> address \<Rightarrow> ('w client_heap, string) exec" where
  "client_address env a = heap_world (Address_to_string (e_nd env) a)"

text \<open>\<^verbatim>\<open>std::optional\<close>: \<^verbatim>\<open>reset\<close> destroys what is in it; \<^verbatim>\<open>emplace\<close> does so too, and then makes the new object.\<close>

definition reset_client :: "('w \<times> client) env \<Rightarrow> ('w client_heap, unit) exec" where
  "reset_client env =
     andthen (get_client rc_client) (\<lambda>old.
     andthen (on_client (\<lambda>c. c\<lparr>rc_client := None\<rparr>)) (\<lambda>_.
       case old of None \<Rightarrow> ret () | Some k \<Rightarrow> SocketAsyncImpl_destroy env k))"

definition emplace_client :: "('w \<times> client) env \<Rightarrow> fd \<Rightarrow> ('w client_heap, unit) exec" where
  "emplace_client env sock =
     andthen (reset_client env) (\<lambda>_.
     andthen (get_client rc_next) (\<lambda>k.
     andthen (on_client (\<lambda>c. c\<lparr>rc_next := Suc k\<rparr>)) (\<lambda>_.
     andthen (heap_world (SocketBufferedImpl (e_os env) (e_vt env k) sock 0 0)) (\<lambda>(sz, p).
     andthen (modify (\<lambda>h. h\<lparr>h_pools := (h_pools h)(k := p)\<rparr>)) (\<lambda>_.
     andthen (SocketTcpAsync env k sock sz k) (\<lambda>_.
       on_client (\<lambda>c. c\<lparr>rc_client := Some k\<rparr>)))))))"

text \<open>What is thrown after the socket was made, before the \<^verbatim>\<open>optional\<close> owns it, closes it.\<close>

definition try_connect :: "('w \<times> client) env \<Rightarrow> address \<Rightarrow> ('w client_heap, unit) exec" where
  "try_connect env remoteAddress =
     andthen (heap_world (SocketTcp (e_os env) (e_nd env) remoteAddress)) (\<lambda>sock.
     andthen (emplace_client env sock) (\<lambda>_.
     andthen (get_client rc_client) (\<lambda>client.
       case client of
         None \<Rightarrow> throw AssertFailed
       | Some k \<Rightarrow>
           andthen (Async_LocalAddress env k) (\<lambda>localAddr.
           andthen (client_address env localAddr) (\<lambda>self.
           andthen (client_address env remoteAddress) (\<lambda>remote.
             io_Print (''(re)established connection '' @ self @ '' -> '' @ remote)))))))"

text \<open>\<^verbatim>\<open>catch(std::exception const &)\<close> takes everything but a failed assertion, which ends the program.\<close>

definition is_exception :: "exn \<Rightarrow> bool" where
  "is_exception e \<longleftrightarrow> e \<noteq> AssertFailed"

definition retry_message :: "string \<Rightarrow> string \<Rightarrow> duration \<Rightarrow> string" where
  "retry_message remote what delay =
     ''failed to (re)connect to '' @ remote @ '' ('' @ what @ '')'' @ '' will retry in '' @ decimal (nat delay) @ ''s''"

definition schedule_retry :: "('w \<times> client) env \<Rightarrow> address \<Rightarrow> duration \<Rightarrow> exn \<Rightarrow> ('w client_heap, unit) exec" where
  "schedule_retry env remoteAddress delay e =
     andthen (client_address env remoteAddress) (\<lambda>remote.
     andthen (io_Print (retry_message remote (sys_what (e_os env) e) delay)) (\<lambda>_.
     andthen (ToDo_new_in env delay) (\<lambda>t.
       on_client (\<lambda>c. c\<lparr>rc_tasks := (rc_tasks c)(t \<mapsto> (remoteAddress, delay * 2))\<rparr>))))"

definition Reconnect :: "('w \<times> client) env \<Rightarrow> address \<Rightarrow> duration \<Rightarrow> ('w client_heap, unit) exec" where
  "Reconnect env remoteAddress delay =
     catch (try_connect env remoteAddress) is_exception (schedule_retry env remoteAddress delay)"

definition first_delay :: duration where
  "first_delay = 1000"

text \<open>The constructor delays the first attempt.\<close>

definition ReconnectClient :: "('w \<times> client) env \<Rightarrow> address \<Rightarrow> ('w client_heap, unit) exec" where
  "ReconnectClient env remoteAddress =
     andthen (ToDo_new_in env 500) (\<lambda>t.
       on_client (\<lambda>c. c\<lparr>rc_tasks := (rc_tasks c)(t \<mapsto> (remoteAddress, first_delay))\<rparr>))"

text \<open>What a task of the client does when the driver runs it.\<close>

definition client_task :: "('w \<times> client) env \<Rightarrow> todo_id \<Rightarrow> ('w client_heap, unit) exec" where
  "client_task env t =
     andthen (get_client (\<lambda>c. rc_tasks c t)) (\<lambda>bound.
       case bound of None \<Rightarrow> ret () | Some (remoteAddress, delay) \<Rightarrow> Reconnect env remoteAddress delay)"

definition client_Send :: "buf_ref \<Rightarrow> ('w client_heap, unit) exec" where
  "client_Send buffer =
     andthen (get_client rc_client) (\<lambda>client.
       case client of
         None \<Rightarrow> modify (buf_drop buffer)
       | Some k \<Rightarrow> andthen (Send k buffer) (\<lambda>_. ret ()))"

definition client_HandleReceive :: "buf_ref \<Rightarrow> ('w client_heap, unit) exec" where
  "client_HandleReceive buffer =
     andthen (get (buf_content buffer)) (\<lambda>received.
     andthen (io_Print received) (\<lambda>_. modify (buf_drop buffer)))"

definition client_HandleDisconnect :: "('w \<times> client) env \<Rightarrow> address \<Rightarrow> ('w client_heap, unit) exec" where
  "client_HandleDisconnect env remoteAddress =
     andthen (get_client rc_client) (\<lambda>client.
       case client of
         None \<Rightarrow> throw AssertFailed
       | Some k \<Rightarrow>
           andthen (Async_LocalAddress env k) (\<lambda>localAddr.
           andthen (client_address env localAddr) (\<lambda>self.
           andthen (client_address env remoteAddress) (\<lambda>remote.
           andthen (io_Print (''closing connection '' @ self @ '' -> '' @ remote)) (\<lambda>_.
           andthen (reset_client env) (\<lambda>_. Reconnect env remoteAddress first_delay))))))"

text \<open>
  One round of the loop that reads from the console; the result is whether it was the last.  An empty line, which is also what
  the end of the input yields, ends the loop.  The buffers are those of the pool 0, and the
  driver's thread runs between the rounds.
\<close>

definition io_Query :: "string \<Rightarrow> string \<Rightarrow> ('w client_heap, string) exec" where
  "io_Query prompt getline = zoom (\<lambda>h. rc_io (snd (h_world h)))
     (\<lambda>io h. h\<lparr>h_world := (fst (h_world h), (snd (h_world h))\<lparr>rc_io := io\<rparr>)\<rparr>) (call (Query prompt getline))"

definition client_round :: "string \<Rightarrow> ('w client_heap, bool) exec" where
  "client_round getline =
     andthen Get_send_buffer (\<lambda>line.
     andthen (io_Query ''message to send? (empty for exit) - '' getline) (\<lambda>entered.
     andthen (modify (buf_modify line (\<lambda>_. entered))) (\<lambda>_.
       if entered = [] then andthen (modify (buf_drop line)) (\<lambda>_. ret True)
       else
         andthen (io_Print (''you said: '' @ entered)) (\<lambda>_.
         andthen (client_Send line) (\<lambda>_. ret False)))))"

section \<open>Retries\<close>

text \<open>
  C38. An attempt to connect that fails is reported and tried again: exactly one task is queued, for the delay from now on, which
  will try the same address with twice the delay, and the last line of the buffer says why it failed; the client
  object is left as the attempt left it.
\<close>

theorem reconnect_backoff:
  assumes "e_os env = beside_os os" and "try_connect env remote h = (Inl e, h1)" and "e \<noteq> AssertFailed"
    and "Address_to_string (e_nd env) remote (h_world h1) = (Inr name, (w, snd (h_world h1)))"
    and "io_lines (rc_io (snd (h_world h1))) \<noteq> []"
  defines "t \<equiv> next_todo (h_todos h1)"
  shows "\<exists>g now. Reconnect env remote delay h = (Inr (), g)
    \<and> set (pending (h_todos g)) = insert t (set (pending (h_todos h1))) \<and> when_of (h_todos g) t = add_ms now delay
    \<and> now = fst (sys_now os w)
    \<and> (\<forall>g'. rc_tasks (snd (h_world g')) t = rc_tasks (snd (h_world g)) t \<longrightarrow> client_task env t g' = Reconnect env remote (2 * delay) g')
    \<and> last (io_lines (rc_io (snd (h_world g)))) = retry_message name (sys_what (e_os env) e) delay
    \<and> rc_client (snd (h_world g)) = rc_client (snd (h_world h1))"
proof -
  let ?m = "retry_message name (sys_what (e_os env) e) delay" and ?c = "snd (h_world h1)"
  let ?io = "redraw (rc_io ?c\<lparr>io_lines := tl (io_lines (rc_io ?c)) @ [?m]\<rparr>)"
  obtain now w' where now: "sys_now os w = (now, w')" by fastforce
  let ?s = "h_todos h1"
  let ?s' = "ToDos_Insert t (?s\<lparr>next_todo := Suc t, when_of := (when_of ?s)(t := add_ms now delay)\<rparr>)"
  let ?h2 = "h1\<lparr>h_world := (w, ?c\<lparr>rc_io := ?io\<rparr>)\<rparr>"
  let ?h3 = "h1\<lparr>h_world := (w', ?c\<lparr>rc_io := ?io\<rparr>), h_todos := ?s'\<rparr>"
  let ?g = "h1\<lparr>h_world := (w', ?c\<lparr>rc_io := ?io, rc_tasks := (rc_tasks ?c)(t \<mapsto> (remote, delay * 2))\<rparr>), h_todos := ?s'\<rparr>"
  have 1: "client_address env remote h1 = (Inr name, h1\<lparr>h_world := (w, ?c)\<rparr>)"
    using assms(4) by (simp add: client_address_def heap_world_def)
  have 2: "io_Print ?m (h1\<lparr>h_world := (w, ?c)\<rparr>) = (Inr (), ?h2)"
    using Print_run [OF assms(5), of ?m] by (simp add: io_Print_def)
  have 3: "ToDo_new_in env delay ?h2 = (Inr t, ?h3)"
    using now by (simp add: ToDo_new_in_def Clock_now_def heap_world_def make_ToDo_def ToDoImpl_at_def Driver_ToDoInsert_def andthen_def
        assms(1) beside_os_def beside_def t_def)
  have "schedule_retry env remote delay e h1 = (Inr (), ?g)"
    unfolding schedule_retry_def using 1 2 3 by (simp add: on_client_def)
  with assms(2,3) have "Reconnect env remote delay h = (Inr (), ?g)" by (simp add: Reconnect_def is_exception_def)
  moreover have "client_task env t g' = Reconnect env remote (2 * delay) g'"
    if "rc_tasks (snd (h_world g')) t = Some (remote, delay * 2)" for g'
    using that by (simp add: client_task_def get_client_def andthen_def mult.commute)
  ultimately show ?thesis using now by (intro exI [of _ ?g] exI [of _ now]) simp
qed

text \<open>The first failure is said to be retried in a thousand seconds: the delay is printed in milliseconds.\<close>

lemma first_delay_digits: "decimal (nat first_delay) = ''1000''"
proof -
  have "char_of (48 :: nat) = CHR ''0''" "char_of (49 :: nat) = CHR ''1''" by code_simp+
  then show ?thesis by (simp add: first_delay_def decimal.simps)
qed

lemma retry_message_first: "retry_message ''host'' ''refused'' first_delay = ''failed to (re)connect to host (refused) will retry in 1000s''"
  by (simp add: retry_message_def first_delay_digits)

definition demo_client :: "script client_heap" where
  "demo_client = new_heap test_pipes (script0\<lparr>s_result := (\<lambda>_. -1)\<rparr>,
     \<lparr>rc_client = None, rc_next = 1, rc_io = IOPrintBuffer 10, rc_tasks = Map.empty\<rparr>)"

definition demo_client_env :: "(script \<times> client) env" where
  "demo_client_env = plain_of (beside_os script_os)
     (beside_nd (test_netdb_script\<lparr>nd_getnameinfo := (\<lambda>a bh bs w. ((0, ''10.0.0.1'' @ [NUL], ''8554'' @ [NUL]), w))\<rparr>))
     test_user False"

text \<open>Here no socket can be made at all.\<close>

theorem reconnect_backoff_witness:
  "\<exists>g. Reconnect demo_client_env (demo_peer 1) first_delay demo_client = (Inr (), g)
    \<and> set (pending (h_todos g)) = {0} \<and> when_of (h_todos g) 0 = 1000000000 \<and> rc_client (snd (h_world g)) = None
    \<and> last (io_lines (rc_io (snd (h_world g))))
        = ''failed to (re)connect to 10.0.0.1:8554 (failed to create socket) will retry in 1000s''"
proof -
  let ?e = "SystemError (SystemCategory, 11) ''failed to create socket''"
  obtain e1 h1 where run: "try_connect demo_client_env (demo_peer 1) demo_client = (e1, h1)" by fastforce
  have "fst (try_connect demo_client_env (demo_peer 1) demo_client) = Inl ?e" by code_simp
  with run have e: "e1 = Inl ?e" by simp
  have "(let h1 = snd (try_connect demo_client_env (demo_peer 1) demo_client)
     in (next_todo (h_todos h1), pending (h_todos h1), rc_client (snd (h_world h1)), io_lines (rc_io (snd (h_world h1))))) = (0, [], None, replicate 10 [])"
    by code_simp
  with run have parts: "next_todo (h_todos h1) = 0" "pending (h_todos h1) = []" "rc_client (snd (h_world h1)) = None"
    "io_lines (rc_io (snd (h_world h1))) = replicate 10 []" by simp_all
  let ?r = "Address_to_string (e_nd demo_client_env) (demo_peer 1) (h_world h1)"
  have "(let r = Address_to_string (e_nd demo_client_env) (demo_peer 1) (h_world (snd (try_connect demo_client_env (demo_peer 1) demo_client)))
     in (fst r, fst (sys_now script_os (fst (snd r))))) = (Inr ''10.0.0.1:8554'', 0)"
    by code_simp
  then have name: "fst ?r = Inr ''10.0.0.1:8554''" "fst (sys_now script_os (fst (snd ?r))) = 0"
    by (simp_all only: run Let_def snd_conv prod.inject)
  have nd: "e_nd demo_client_env = beside_nd (test_netdb_script\<lparr>nd_getnameinfo := (\<lambda>a bh bs w. ((0, ''10.0.0.1'' @ [NUL], ''8554'' @ [NUL]), w))\<rparr>)"
    by (simp add: demo_client_env_def)
  have kept: "snd (snd ?r) = snd (h_world h1)"
    unfolding nd by (rule beside.printed_addresses(2) [unfolded leaves_def, rule_format])
  define w where "w = fst (snd ?r)"
  have named: "?r = (Inr ''10.0.0.1:8554'', (w, snd (h_world h1)))" by (simp only: prod_eq_iff fst_conv snd_conv name kept w_def)
  have os: "e_os demo_client_env = beside_os script_os" by (simp add: demo_client_env_def)
  have "io_lines (rc_io (snd (h_world h1))) \<noteq> []" by (simp add: parts)
  note backoff = reconnect_backoff [OF os run [unfolded e] exn.distinct(9) named this, of first_delay]
  from backoff [unfolded parts(1-3)] obtain g now where g:
    "Reconnect demo_client_env (demo_peer 1) first_delay demo_client = (Inr (), g)" "set (pending (h_todos g)) = insert 0 (set [])"
    "when_of (h_todos g) 0 = add_ms now first_delay" "now = fst (sys_now script_os w)" "rc_client (snd (h_world g)) = None"
    "last (io_lines (rc_io (snd (h_world g)))) = retry_message ''10.0.0.1:8554'' (sys_what (e_os demo_client_env) ?e) first_delay"
    by blast
  have "sys_what (e_os demo_client_env) ?e = ''failed to create socket''"
    by (simp add: os beside_os_def script_os_def script_what_def)
  moreover have "retry_message ''10.0.0.1:8554'' ''failed to create socket'' first_delay
      = ''failed to (re)connect to 10.0.0.1:8554 (failed to create socket) will retry in 1000s''"
    by (simp add: retry_message_def first_delay_digits)
  moreover have "add_ms now first_delay = 1000000000"
    unfolding g(4) w_def name add_ms_def first_delay_def ns_per_ms_def by simp
  ultimately show ?thesis using g by (intro exI [of _ g]) simp
qed

end
