(* ===== verification/Basic.thy ===== *)
theory Basic
  imports ChatClient
begin

text \<open>
  The small examples: \<^verbatim>\<open>examples/sockpuppet_tcp_client.cpp\<close>, \<^verbatim>\<open>sockpuppet_tcp_server.cpp\<close>, \<^verbatim>\<open>sockpuppet_udp_client.cpp\<close>,
  \<^verbatim>\<open>sockpuppet_udp_server.cpp\<close>, \<^verbatim>\<open>sockpuppet_http_client.cpp\<close> and \<^verbatim>\<open>sockpuppet_http_server.cpp\<close>.  They use the library with
  blocking calls; what they print is collected beside the world of the system, and what they read from the
  standard input is a list of lines.  Their endless loops take a number of rounds.
\<close>

section \<open>Console\<close>

record console =
  co_out :: string
  co_err :: string

definition cout :: "string \<Rightarrow> ('w \<times> console, unit) exec" where
  "cout s = modify (\<lambda>(w, c). (w, c\<lparr>co_out := co_out c @ s\<rparr>))"

definition cerr :: "string \<Rightarrow> ('w \<times> console, unit) exec" where
  "cerr s = modify (\<lambda>(w, c). (w, c\<lparr>co_err := co_err c @ s\<rparr>))"

definition EXIT_SUCCESS :: int where "EXIT_SUCCESS = 0"
definition EXIT_FAILURE :: int where "EXIT_FAILURE = 1"

text \<open>A local variable whose destructor runs however its scope is left.\<close>

definition scoped :: "('s, 'a) exec \<Rightarrow> ('s \<Rightarrow> 's) \<Rightarrow> ('s, 'a) exec" where
  "scoped m destroy s = (case m s of (r, t) \<Rightarrow> (r, destroy t))"

text \<open>\<open>n\<close> rounds of an endless loop.\<close>

fun rounds :: "nat \<Rightarrow> ('s, unit) exec \<Rightarrow> ('s, unit) exec" where
  "rounds 0 m = ret ()"
| "rounds (Suc n) m = andthen m (\<lambda>_. rounds n m)"

text \<open>The \<^verbatim>\<open>catch\<close> clause around each \<^verbatim>\<open>main\<close>.\<close>

definition main_catch :: "('w \<times> console) os \<Rightarrow> ('w \<times> console, int) exec \<Rightarrow> ('w \<times> console, int) exec" where
  "main_catch os m =
     catch m is_exception (\<lambda>e. andthen (cerr (sys_what os e @ [newline])) (\<lambda>_. ret EXIT_FAILURE))"

text \<open>The parts of \<^verbatim>\<open>std::cout << text << to_string(address) << more\<close>, one after the other.\<close>

definition put_address :: "(string \<Rightarrow> ('w \<times> console, unit) exec) \<Rightarrow> ('w \<times> console) netdb \<Rightarrow> string \<Rightarrow> address \<Rightarrow> ('w \<times> console, unit) exec" where
  "put_address put nd before a =
     andthen (put before) (\<lambda>_. andthen (Address_to_string nd a) put)"

definition put_local :: "(string \<Rightarrow> ('w \<times> console, unit) exec) \<Rightarrow> ('w \<times> console) os \<Rightarrow> ('w \<times> console) netdb \<Rightarrow> string \<Rightarrow> fd \<Rightarrow> ('w \<times> console, unit) exec" where
  "put_local put os nd before s =
     andthen (put before) (\<lambda>_. andthen (LocalAddress os nd s) (\<lambda>a. andthen (Address_to_string nd a) put))"

text \<open>What a received count selects of the local array of 256 bytes.\<close>

definition received_part :: "nat \<Rightarrow> string \<Rightarrow> string" where
  "received_part n data = take n (overwrite (replicate 256 NUL) 0 data)"

section \<open>TCP\<close>

fun tcp_client_lines :: "('w \<times> console) os \<Rightarrow> ('w \<times> console) netdb \<Rightarrow> fd \<Rightarrow> string list \<Rightarrow> ('w \<times> console, unit) exec" where
  "tcp_client_lines os nd client [] = ret ()"
| "tcp_client_lines os nd client (line # input) =
     andthen (SocketTcp_Send (SocketImpl_vtable os nd) client (line @ [newline]) (-1)) (\<lambda>_.
       tcp_client_lines os nd client input)"

definition tcp_client_session ::
  "('w \<times> console) os \<Rightarrow> ('w \<times> console) netdb \<Rightarrow> string list \<Rightarrow> address \<Rightarrow> fd \<Rightarrow> ('w \<times> console, unit) exec" where
  "tcp_client_session os nd input remoteAddress client =
     andthen (put_local cout os nd ''established connection '' client) (\<lambda>_.
     andthen (put_address cout nd '' -> '' remoteAddress) (\<lambda>_.
     andthen (cout [newline]) (\<lambda>_.
     andthen (cerr (''message(s) to send? (Ctrl-C for exit)'' @ [newline])) (\<lambda>_.
     andthen (tcp_client_lines os nd client input) (\<lambda>_.
     andthen (put_local cout os nd ''closing connection '' client) (\<lambda>_.
     andthen (put_address cout nd '' -> '' remoteAddress) (\<lambda>_.
       cout [newline])))))))"

definition tcp_Client :: "('w \<times> console) os \<Rightarrow> ('w \<times> console) netdb \<Rightarrow> string list \<Rightarrow> address \<Rightarrow> ('w \<times> console, unit) exec" where
  "tcp_Client os nd input remoteAddress =
     andthen (SocketTcp os nd remoteAddress) (\<lambda>client.
       scoped (tcp_client_session os nd input remoteAddress client) (SocketImpl_destroy os client))"

definition tcp_client_usage :: "string \<Rightarrow> string" where
  "tcp_client_usage prog = ''Usage: '' @ prog @ '' DESTINATION'' @ [newline, newline, CHR 0x09]
     @ ''DESTINATION is an address string to connect to, e.g. \"localhost:8554\"'' @ [newline]"

definition tcp_client_main ::
  "('w \<times> console) os \<Rightarrow> ('w \<times> console) netdb \<Rightarrow> string list \<Rightarrow> string list \<Rightarrow> ('w \<times> console, int) exec" where
  "tcp_client_main os nd input argv = main_catch os
     (case argv of
        _ # uri # _ \<Rightarrow>
          andthen (Address_uri nd uri) (\<lambda>remoteAddress.
          andthen (tcp_Client os nd input remoteAddress) (\<lambda>_. ret EXIT_SUCCESS))
      | _ \<Rightarrow> andthen (cerr (tcp_client_usage (concat (take 1 argv)))) (\<lambda>_. ret EXIT_FAILURE))"

text \<open>
  The server deals with one client after the other.  A connection ends by an exception, as a rule the
  \<^verbatim>\<open>connection closed\<close> of the receive call; the result is whether it ended within the rounds.
\<close>

definition tcp_receive_print :: "('w \<times> console) os \<Rightarrow> ('w \<times> console) netdb \<Rightarrow> fd \<Rightarrow> ('w \<times> console, unit) exec" where
  "tcp_receive_print os nd clientSock =
     andthen (SocketTcp_Receive (SocketImpl_vtable os nd) clientSock 256 (-1)) (\<lambda>r.
       case r of
         None \<Rightarrow> throw AssertFailed
       | Some (received, data) \<Rightarrow> cout (received_part received data))"

definition tcp_HandleConnect ::
  "('w \<times> console) os \<Rightarrow> ('w \<times> console) netdb \<Rightarrow> nat \<Rightarrow> fd \<times> address \<Rightarrow> ('w \<times> console, bool) exec" where
  "tcp_HandleConnect os nd n p =
     (let (clientSock, clientAddr) = p
      in andthen
        (catch
          (andthen (put_address cerr nd ''connection '' clientAddr) (\<lambda>_.
           andthen (put_local cerr os nd '' <- '' clientSock) (\<lambda>_.
           andthen (cerr ('' accepted'' @ [newline])) (\<lambda>_.
           andthen (rounds n (tcp_receive_print os nd clientSock)) (\<lambda>_. ret False)))))
          is_exception
          (\<lambda>e. andthen (cerr (sys_what os e @ [newline])) (\<lambda>_. ret True)))
        (\<lambda>ended. if ended then andthen (modify (SocketImpl_destroy os clientSock)) (\<lambda>_. ret True) else ret False))"

fun tcp_server_loop ::
  "('w \<times> console) os \<Rightarrow> ('w \<times> console) netdb \<Rightarrow> nat \<Rightarrow> nat \<Rightarrow> fd \<Rightarrow> ('w \<times> console, bool) exec" where
  "tcp_server_loop os nd n 0 server = ret True"
| "tcp_server_loop os nd n (Suc m) server =
     andthen (put_local cerr os nd ''listening at '' server) (\<lambda>_.
     andthen (cerr [newline]) (\<lambda>_.
     andthen (Acceptor_Listen os nd server (-1)) (\<lambda>client.
       case client of
         None \<Rightarrow> throw AssertFailed
       | Some p \<Rightarrow>
           andthen (tcp_HandleConnect os nd n p) (\<lambda>ended.
             if ended then tcp_server_loop os nd n m server else ret False))))"

text \<open>The server never returns; an exception closes the acceptor.\<close>

definition tcp_Server ::
  "('w \<times> console) os \<Rightarrow> ('w \<times> console) netdb \<Rightarrow> nat \<Rightarrow> nat \<Rightarrow> address \<Rightarrow> ('w \<times> console, bool) exec" where
  "tcp_Server os nd n m bindAddress =
     andthen (Acceptor os nd bindAddress) (\<lambda>server.
       on_throw (tcp_server_loop os nd n m server) (SocketImpl_destroy os server))"

section \<open>UDP\<close>

fun udp_client_lines ::
  "('w \<times> console) os \<Rightarrow> ('w \<times> console) netdb \<Rightarrow> fd \<Rightarrow> address \<Rightarrow> string list \<Rightarrow> ('w \<times> console, unit) exec" where
  "udp_client_lines os nd sock remoteAddress [] = ret ()"
| "udp_client_lines os nd sock remoteAddress (line # input) =
     andthen (SocketUdp_SendTo os nd sock line remoteAddress (-1)) (\<lambda>_.
       udp_client_lines os nd sock remoteAddress input)"

definition udp_Client ::
  "('w \<times> console) os \<Rightarrow> ('w \<times> console) netdb \<Rightarrow> string list \<Rightarrow> address \<Rightarrow> address \<Rightarrow> ('w \<times> console, unit) exec" where
  "udp_Client os nd input bindAddress remoteAddress =
     andthen (SocketUdp os nd bindAddress) (\<lambda>sock.
     scoped
       (andthen (put_local cout os nd ''sending from '' sock) (\<lambda>_.
        andthen (put_address cout nd '' to '' remoteAddress) (\<lambda>_.
        andthen (cout [newline]) (\<lambda>_.
        andthen (cerr (''message(s) to send? (Ctrl-C for exit)'' @ [newline])) (\<lambda>_.
          udp_client_lines os nd sock remoteAddress input)))))
       (SocketImpl_destroy os sock))"

definition udp_client_main ::
  "('w \<times> console) os \<Rightarrow> ('w \<times> console) netdb \<Rightarrow> string list \<Rightarrow> string list \<Rightarrow> ('w \<times> console, int) exec" where
  "udp_client_main os nd input argv = main_catch os
     (case argv of
        _ # uri # more_args \<Rightarrow>
          andthen (Address_uri nd uri) (\<lambda>remoteAddress.
          andthen (Address_port nd 0) (\<lambda>unbound.
          andthen (case more_args of [] \<Rightarrow> ret unbound | source # _ \<Rightarrow> Address_uri nd source) (\<lambda>bindAddress.
          andthen (udp_Client os nd input bindAddress remoteAddress) (\<lambda>_. ret EXIT_SUCCESS))))
      | _ \<Rightarrow> andthen (cerr (''Usage: '' @ concat (take 1 argv) @ '' DESTINATION [SOURCE]'' @ [newline, newline, CHR 0x09]
            @ ''DESTINATION is an address string to send to'' @ [newline, CHR 0x09]
            @ ''SOURCE is an address string to bind to, e.g. \"localhost:8554\"'' @ [newline])) (\<lambda>_. ret EXIT_FAILURE))"

definition udp_receive_print :: "('w \<times> console) os \<Rightarrow> ('w \<times> console) netdb \<Rightarrow> fd \<Rightarrow> ('w \<times> console, unit) exec" where
  "udp_receive_print os nd sock =
     andthen (SocketUdp_ReceiveFrom os nd sock 256 (-1)) (\<lambda>r.
       case r of
         None \<Rightarrow> throw AssertFailed
       | Some ((receiveSize, data), fromAddr) \<Rightarrow>
           andthen (if 0 < receiveSize then cout (received_part receiveSize data) else cerr ''<empty>'') (\<lambda>_.
           andthen (put_address cerr nd '' <- from '' fromAddr) (\<lambda>_.
             cout [newline])))"

definition udp_Server ::
  "('w \<times> console) os \<Rightarrow> ('w \<times> console) netdb \<Rightarrow> nat \<Rightarrow> address \<Rightarrow> ('w \<times> console, unit) exec" where
  "udp_Server os nd n bindAddress =
     andthen (SocketUdp os nd bindAddress) (\<lambda>sock.
     on_throw
       (andthen (put_local cerr os nd ''receiving at '' sock) (\<lambda>_.
        andthen (cerr [newline]) (\<lambda>_. rounds n (udp_receive_print os nd sock))))
       (SocketImpl_destroy os sock))"

definition server_main ::
  "('w \<times> console) os \<Rightarrow> ('w \<times> console) netdb \<Rightarrow> (address \<Rightarrow> ('w \<times> console, 'a) exec) \<Rightarrow> string list \<Rightarrow> ('w \<times> console, int) exec" where
  "server_main os nd server argv = main_catch os
     (case argv of
        _ # uri # _ \<Rightarrow>
          andthen (Address_uri nd uri) (\<lambda>bindAddress.
          andthen (server bindAddress) (\<lambda>_. ret EXIT_SUCCESS))
      | _ \<Rightarrow> andthen (cerr (''Usage: '' @ concat (take 1 argv) @ '' SOURCE'' @ [newline, newline, CHR 0x09]
            @ ''SOURCE is an address string to bind to, e.g. \"localhost:8554\"'' @ [newline])) (\<lambda>_. ret EXIT_FAILURE))"

section \<open>HTTP client\<close>

definition HttpGet :: "string \<Rightarrow> string \<Rightarrow> string" where
  "HttpGet host path = ''GET '' @ path @ '' HTTP/1.1'' @ [newline] @ ''Host: '' @ host @ [newline, newline]"

text \<open>\<^verbatim>\<open>std::string::find\<close>: the position of the first occurrence, if there is one.\<close>

fun find_string :: "string \<Rightarrow> string \<Rightarrow> nat option" where
  "find_string pat [] = (if pat = [] then Some 0 else None)"
| "find_string pat (c # cs) =
     (if take (length pat) (c # cs) = pat then Some 0 else map_option Suc (find_string pat cs))"

definition IsHtmlEnd :: "string \<Rightarrow> bool" where
  "IsHtmlEnd response \<longleftrightarrow> find_string ''</html>'' response \<noteq> None"

text \<open>The loop of \<^verbatim>\<open>main\<close>; a buffer goes back to its pool at the end of each round.\<close>

fun http_receive ::
  "('w \<times> console) os \<Rightarrow> ('w \<times> console) netdb \<Rightarrow> nat \<Rightarrow> fd \<Rightarrow> nat \<Rightarrow> nat list \<Rightarrow> (('w \<times> console) buffered, nat list option) exec" where
  "http_receive os nd 0 sock sz sizes = ret None"
| "http_receive os nd (Suc n) sock sz sizes =
     andthen (Buffered_Receive_wait (SocketImpl_vtable os nd) sock sz 30000) (\<lambda>rx.
       case rx of
         None \<Rightarrow> ret (Some sizes)
       | Some response \<Rightarrow>
           andthen (get (\<lambda>s. content (buf_at (bw_pool s) response))) (\<lambda>characters.
           andthen (in_world (cout characters)) (\<lambda>_.
           andthen (modify (drop_buffer response)) (\<lambda>_.
             if IsHtmlEnd characters then ret (Some (sizes @ [length characters]))
             else http_receive os nd n sock sz (sizes @ [length characters])))))"

definition http_session ::
  "('w \<times> console) os \<Rightarrow> ('w \<times> console) netdb \<Rightarrow> nat \<Rightarrow> string \<Rightarrow> string \<Rightarrow> fd \<Rightarrow> nat \<Rightarrow> (('w \<times> console) buffered, int option) exec" where
  "http_session os nd n host path sock sz =
     andthen (in_world (SocketTcp_Send (SocketImpl_vtable os nd) sock (HttpGet host path) (-1))) (\<lambda>_.
     andthen (http_receive os nd n sock sz []) (\<lambda>r.
       case r of
         None \<Rightarrow> ret None
       | Some sizes \<Rightarrow>
           andthen (in_world (cout ([newline, newline] @ ''received '' @ decimal (sum_list sizes) @ '' bytes in ''
              @ decimal (length sizes) @ '' buffers'' @ [newline]))) (\<lambda>_. ret (Some EXIT_SUCCESS))))"

definition http_client_main :: "('w \<times> console) os \<Rightarrow> ('w \<times> console) netdb \<Rightarrow> nat \<Rightarrow> ('w \<times> console, int option) exec" where
  "http_client_main os nd n =
     (let serv = ''http://''; host = ''www.google.com''; path = ''/''
      in catch
        (andthen (Address_uri nd (serv @ host)) (\<lambda>addr.
         andthen (SocketTcp os nd addr) (\<lambda>sock.
         andthen (SocketBufferedImpl os (SocketImpl_vtable os nd) sock 0 0) (\<lambda>(sz, p).
         scoped
           (\<lambda>w. case http_session os nd n host path sock sz \<lparr>bw_pool = p, bw_world = w\<rparr> of (r, s) \<Rightarrow> (r, bw_world s))
           (SocketImpl_destroy os sock)))))
        is_exception
        (\<lambda>e. andthen (cerr (sys_what os e @ [newline])) (\<lambda>_. ret (Some EXIT_FAILURE))))"

section \<open>HTTP server\<close>

abbreviation quote :: char where
  "quote \<equiv> CHR 0x22"

definition http_response :: string where
  "http_response = concat (map (\<lambda>line. line @ [CHR 0x0D, newline]) [''HTTP/1.1 200'', ''Content-Type: text/html'', []])
     @ concat (map (\<lambda>line. line @ [newline])
         [''<!DOCTYPE html>'',
          ''<html lang='' @ [quote] @ ''en'' @ [quote] @ ''>'',
          ''  <head>'',
          ''    <meta charset='' @ [quote] @ ''utf-8'' @ [quote] @ ''>'',
          ''    <title>It works!</title>'',
          ''  </head>'',
          ''  <body>'',
          ''    <br>What did you expect?</br>'',
          ''  </body>''])
     @ ''</html>''"

text \<open>Whether the client was silent for ten milliseconds within the rounds.\<close>

fun http_drain :: "('w \<times> console) os \<Rightarrow> ('w \<times> console) netdb \<Rightarrow> nat \<Rightarrow> fd \<Rightarrow> ('w \<times> console, bool) exec" where
  "http_drain os nd 0 clientSock = ret False"
| "http_drain os nd (Suc n) clientSock =
     andthen (SocketTcp_Receive (SocketImpl_vtable os nd) clientSock 256 10) (\<lambda>r.
       if r \<noteq> None then http_drain os nd n clientSock else ret True)"

definition http_serve ::
  "('w \<times> console) os \<Rightarrow> ('w \<times> console) netdb \<Rightarrow> nat \<Rightarrow> fd \<Rightarrow> address \<Rightarrow> ('w \<times> console, bool) exec" where
  "http_serve os nd n clientSock clientAddr =
     andthen (http_drain os nd n clientSock) (\<lambda>silent.
       if \<not> silent then ret False
       else
         andthen (put_address cout nd ''sending HTTP response to '' clientAddr) (\<lambda>_.
         andthen (cout [newline]) (\<lambda>_.
         andthen (SocketTcp_Send (SocketImpl_vtable os nd) clientSock http_response (-1)) (\<lambda>_. ret True))))"

definition http_HandleConnect ::
  "('w \<times> console) os \<Rightarrow> ('w \<times> console) netdb \<Rightarrow> nat \<Rightarrow> fd \<Rightarrow> address \<Rightarrow> ('w \<times> console, bool) exec" where
  "http_HandleConnect os nd n clientSock clientAddr =
     andthen
       (catch (http_serve os nd n clientSock clientAddr) is_exception
         (\<lambda>e. andthen (cerr (sys_what os e @ [newline])) (\<lambda>_. ret True)))
       (\<lambda>ended. if ended then andthen (modify (SocketImpl_destroy os clientSock)) (\<lambda>_. ret True) else ret False)"

fun http_addresses :: "('w \<times> console) netdb \<Rightarrow> address list \<Rightarrow> ('w \<times> console, address list) exec" where
  "http_addresses nd [] = ret []"
| "http_addresses nd (addr # addrs) =
     andthen (Address_Host nd addr) (\<lambda>host.
     andthen (Address_host_serv nd host ''8080'') (\<lambda>a.
     andthen (http_addresses nd addrs) (\<lambda>as. ret (a # as))))"

text \<open>
  The handlers of the servers: a client is served at once, inside the driver.  Acceptors receive nothing, so the handlers for
  received buffers and lost peers are never called; a buffer would go back to its pool.
\<close>

definition http_user :: "('w \<times> console) os \<Rightarrow> ('w \<times> console) netdb \<Rightarrow> nat \<Rightarrow> ('w \<times> console) user" where
  "http_user os nd n = \<lparr>
     u_task = (\<lambda>_. ret ()),
     u_receive = (\<lambda>_ b. modify (buf_drop b)),
     u_receive_from = (\<lambda>_ b _. modify (buf_drop b)),
     u_connect = (\<lambda>_ clientSock clientAddr.
       heap_world (andthen (http_HandleConnect os nd n clientSock clientAddr) (\<lambda>_. ret ()))),
     u_disconnect = (\<lambda>_ _ _. ret ())\<rparr>"

text \<open>Socket objects are numbered by the addresses they are for; their buffers are in the pool of the same number.\<close>

fun http_bind :: "('w \<times> console) env \<Rightarrow> sock_id \<Rightarrow> address list \<Rightarrow> (('w \<times> console) heap, sock_id list) exec" where
  "http_bind env k [] = ret []"
| "http_bind env k (addr # addrs) =
     andthen
       (catch
         (andthen (heap_world (Acceptor (e_os env) (e_nd env) addr)) (\<lambda>sock.
          andthen (AcceptorAsync env k sock k) (\<lambda>_. ret [k])))
         is_exception
         (\<lambda>e. andthen (heap_world (cerr (sys_what (e_os env) e @ [newline]))) (\<lambda>_. ret []))) (\<lambda>made.
     andthen (http_bind env (Suc k) addrs) (\<lambda>servers. ret (made @ servers)))"

fun http_announce :: "('w \<times> console) env \<Rightarrow> sock_id list \<Rightarrow> (('w \<times> console) heap, unit) exec" where
  "http_announce env [] = ret ()"
| "http_announce env (server # servers) =
     andthen (heap_world (cout ''  '')) (\<lambda>_.
     andthen (Async_LocalAddress env server) (\<lambda>a.
     andthen (heap_world (Address_to_string (e_nd env) a)) (\<lambda>text_of_a.
     andthen (heap_world (cout (text_of_a @ [newline]))) (\<lambda>_.
       http_announce env servers))))"

text \<open>
  \<^verbatim>\<open>main\<close> after the driver was made and the signal handler installed.  An exception from \<^verbatim>\<open>Run\<close> or in front of it
  destroys the servers.
\<close>

definition http_servers :: "('w \<times> console) env \<Rightarrow> (('w \<times> console) heap, sock_id list) exec" where
  "http_servers env =
     andthen (heap_world (LocalAddresses (e_os env) (e_nd env))) (\<lambda>local.
     andthen (heap_world (http_addresses (e_nd env) local)) (\<lambda>addrs.
     andthen (http_bind env 0 addrs) (\<lambda>servers.
       if servers = [] then throw (RuntimeError ''failed to bind any server socket'') else ret servers)))"

definition http_run :: "('w \<times> console) env \<Rightarrow> nat \<Rightarrow> nat \<Rightarrow> sock_id list \<Rightarrow> ('w \<times> console) heap \<Rightarrow> ((exn + int) \<times> ('w \<times> console) heap) option" where
  "http_run env fuel n servers h =
     (case andthen (heap_world (cout (''listening for HTTP requests at:'' @ [newline]))) (\<lambda>_.
           andthen (http_announce env servers) (\<lambda>_.
             heap_world (cout (''open any of these URLs in your web browser'' @ [newline])))) h of
        (Inl e, g) \<Rightarrow> Some (Inl e, snd (destroy_all env servers g))
      | (Inr _, g) \<Rightarrow>
          (case Run env fuel n g of
             None \<Rightarrow> None
           | Some (Inl e, g) \<Rightarrow> Some (Inl e, snd (destroy_all env servers g))
           | Some (Inr _, g) \<Rightarrow> Some (andthen (destroy_all env servers) (\<lambda>_. ret EXIT_SUCCESS) g)))"

definition http_server_main :: "('w \<times> console) env \<Rightarrow> nat \<Rightarrow> nat \<Rightarrow> ('w \<times> console) heap \<Rightarrow> ((exn + int) \<times> ('w \<times> console) heap) option" where
  "http_server_main env fuel n h =
     (case (case http_servers env h of (Inl e, g) \<Rightarrow> Some (Inl e, g) | (Inr servers, g) \<Rightarrow> http_run env fuel n servers g) of
        None \<Rightarrow> None
      | Some r \<Rightarrow> Some (catch (\<lambda>_. r) is_exception
          (\<lambda>e. andthen (heap_world (cerr (sys_what (e_os env) e @ [newline]))) (\<lambda>_. ret EXIT_FAILURE)) h))"

section \<open>Unlimited calls\<close>

lemma unlimited_wait:
  assumes "poll_blocks os" and "WaitReadable os s (-1) w = (Inr ready, w')"
  shows ready
proof -
  have "ToMsec (-1) < 0" by (simp add: ToMsec_eq_iff [THEN iffD2])
  moreover obtain v w' where "sys_poll os [\<lparr>pfd_fd = s, pfd_events = {POLLIN}, pfd_revents = {}\<rparr>] (ToMsec (-1)) w = (v, w')" by fastforce
  ultimately have "fst v \<noteq> 0" using assms(1) unfolding poll_blocks_def by (metis fst_conv)
  with \<open>sys_poll _ _ _ _ = _\<close> show ?thesis
    using assms(2) by (simp add: WaitReadable_def Wait_fd_def DoPoll_def andthen_def call_def throw_system_def split: prod.splits if_splits)
qed

lemma unlimited_yields:
  assumes "poll_blocks os"
  shows "fst (andthen (WaitReadable os s (-1)) (\<lambda>ready. if \<not> ready then ret None else andthen m (\<lambda>x. ret (Some x))) w) \<noteq> Inr None"
proof -
  obtain r w' where wait: "WaitReadable os s (-1) w = (r, w')" by fastforce
  obtain r2 w2 where m: "m w' = (r2, w2)" by fastforce
  show ?thesis
  proof (cases r)
    case (Inr ready)
    with unlimited_wait [OF assms] wait have ready by simp
    with Inr wait m show ?thesis by (cases r2) (simp_all add: andthen_def)
  qed (simp add: wait andthen_def)
qed

text \<open>
  A receive or accept without a time limit yields something or throws; it does not come back empty-handed.  So the
  examples, which take the value out of the result of such a call without looking, never take it out of an empty one.
\<close>

theorem unlimited_calls_yield:
  assumes "poll_blocks os"
  shows "fst (SocketUdp_ReceiveFrom os nd s n (-1) w) \<noteq> Inr None
    \<and> fst (SocketTcp_Receive (SocketImpl_vtable os nd) s n (-1) w) \<noteq> Inr None
    \<and> fst (Acceptor_Listen os nd s (-1) w) \<noteq> Inr None"
proof (intro conjI)
  show "fst (SocketUdp_ReceiveFrom os nd s n (-1) w) \<noteq> Inr None"
    unfolding SocketUdp_ReceiveFrom_def ReceiveFrom_wait_def by (rule unlimited_yields [OF assms])
  show "fst (SocketTcp_Receive (SocketImpl_vtable os nd) s n (-1) w) \<noteq> Inr None"
    by (simp add: SocketTcp_Receive_def SocketImpl_vtable_def Receive_def unlimited_yields [OF assms] del: if_not_P)
  obtain r w' where "Listen os s w = (r, w')" by fastforce
  then show "fst (Acceptor_Listen os nd s (-1) w) \<noteq> Inr None"
    using unlimited_yields [OF assms] unfolding Acceptor_Listen_def SocketImpl_Accept_wait_def by (cases r) simp_all
qed

text \<open>Here two bytes are waiting.\<close>

theorem unlimited_calls_yield_witness:
  "fst (SocketTcp_Receive (SocketImpl_vtable script_os test_netdb_script) 3 256 (-1) (script0\<lparr>s_polls := [(1, [{POLLIN}])], s_recvs := [(2, ''hi'')]\<rparr>))
    = Inr (Some (2, ''hi''))
   \<and> fst (SocketUdp_ReceiveFrom script_os test_netdb_script 3 256 (-1) script0) \<noteq> Inr None"
proof
  show "fst (SocketUdp_ReceiveFrom script_os test_netdb_script 3 256 (-1) script0) \<noteq> Inr None"
    using unlimited_calls_yield [OF script_os_poll_blocks] by blast
qed code_simp

section \<open>What the examples send\<close>

text \<open>Asking for names and closing a descriptor does not change what was sent.\<close>

definition stream_stays :: "'w os \<Rightarrow> 'w netdb \<Rightarrow> ('w \<Rightarrow> fd \<Rightarrow> string) \<Rightarrow> bool" where
  "stream_stays os nd stream \<longleftrightarrow>
     (\<forall>s w. stream (snd (sys_getsockname os s w)) = stream w) \<and> (\<forall>s w. stream (sys_close os s w) = stream w)
   \<and> (\<forall>a host serv w. stream (snd (nd_getnameinfo nd a host serv w)) = stream w)
   \<and> (\<forall>ps t w. stream (snd (sys_poll os ps t w)) = stream w) \<and> (\<forall>s n w. stream (snd (sys_recv os s n w)) = stream w)"

lemma stream_beside: "stream_send os stream \<Longrightarrow> stream_send (beside_os os) (\<lambda>w. stream (fst w))"
  unfolding stream_send_def beside_os_def os.simps
proof (elim conjE, intro conjI allI impI)
  fix s d w r w'
  assume all: "\<forall>s d w r w'. sys_send os s d w = (r, w') \<longrightarrow>
      (if r < 0 then stream w' s = stream w s else nat r \<le> length d \<and> stream w' s = stream w s @ take (nat r) d)"
    and "beside (sys_send os s d) w = (r, w')"
  then have "sys_send os s d (fst w) = (r, fst w')" by (auto simp: beside_def split: prod.splits)
  with all show "if r < 0 then stream (fst w') s = stream (fst w) s
      else nat r \<le> length d \<and> stream (fst w') s = stream (fst w) s @ take (nat r) d" by blast
qed (simp_all add: beside_def split: prod.split, metis snd_conv, metis snd_conv)

text \<open>
  \<open>appends f str m\<close>: running \<open>m\<close> puts a prefix of \<open>str\<close> behind the observation \<open>f\<close>, and all of it unless it throws.
\<close>

definition appends :: "('s \<Rightarrow> string) \<Rightarrow> string \<Rightarrow> ('s, 'a) exec \<Rightarrow> bool" where
  "appends f str m \<longleftrightarrow>
     (\<forall>s r t. m s = (r, t) \<longrightarrow> (\<exists>k. f t = f s @ take k str \<and> (\<forall>a. r = Inr a \<longrightarrow> length str \<le> k)))"

lemma appends_leaves: "leaves f m \<Longrightarrow> appends f [] m"
  unfolding appends_def leaves_def by (metis append_Nil2 list.size(3) snd_conv take_Nil zero_le)

lemma appends_andthen:
  assumes "appends f str m" and "\<And>a. appends f rest (m' a)"
  shows "appends f (str @ rest) (andthen m m')"
  unfolding appends_def
proof (intro allI impI)
  fix s r t
  assume run: "andthen m m' s = (r, t)"
  obtain r1 s1 where m: "m s = (r1, s1)" by fastforce
  then obtain k where k: "f s1 = f s @ take k str" "\<forall>a. r1 = Inr a \<longrightarrow> length str \<le> k"
    using assms(1) unfolding appends_def by blast
  show "\<exists>k. f t = f s @ take k (str @ rest) \<and> (\<forall>a. r = Inr a \<longrightarrow> length (str @ rest) \<le> k)"
  proof (cases r1)
    case (Inl e)
    with run m have "r = Inl e" "t = s1" by simp_all
    with k show ?thesis by (intro exI [of _ "min k (length str)"]) (simp add: min_def)
  next
    case (Inr a)
    with run m have "m' a s1 = (r, t)" by simp
    then obtain j where "f t = f s1 @ take j rest" "\<forall>b. r = Inr b \<longrightarrow> length rest \<le> j"
      using assms(2) unfolding appends_def by blast
    with k Inr show ?thesis by (intro exI [of _ "length str + j"]) auto
  qed
qed

lemma appends_silent: "leaves f m \<Longrightarrow> (\<And>a. appends f str (m' a)) \<Longrightarrow> appends f str (andthen m m')"
  using appends_andthen [OF appends_leaves, where rest = str] by auto

lemma appends_last: "appends f str m \<Longrightarrow> (\<And>a. leaves f (m' a)) \<Longrightarrow> appends f str (andthen m m')"
  using appends_andthen [of f str m "[]" m'] by (simp add: appends_leaves)

lemma appends_scoped: "appends f str m \<Longrightarrow> (\<And>s. f (d s) = f s) \<Longrightarrow> appends f str (scoped m d)"
  unfolding appends_def scoped_def by (auto split: prod.splits)

text \<open>What was sent on a socket, of a world with a console.\<close>

abbreviation sent :: "('w \<Rightarrow> fd \<Rightarrow> string) \<Rightarrow> fd \<Rightarrow> 'w \<times> console \<Rightarrow> string" where
  "sent stream s w \<equiv> stream (fst w) s"

lemma console_silent: "leaves (sent stream s) (cout text_out)" "leaves (sent stream s) (cerr text_out)"
  by (simp_all add: cout_def cerr_def leaves_def case_prod_unfold)

lemma sent_calls:
  assumes "stream_stays os nd stream"
  shows "sent stream s (snd (sys_getsockname (beside_os os) client w)) = sent stream s w" "sent stream s (snd (nd_getnameinfo (beside_nd nd) a b1 b2 w)) = sent stream s w"
  "sent stream s (snd (sys_poll (beside_os os) ps t w)) = sent stream s w" "sent stream s (snd (sys_recv (beside_os os) client n w)) = sent stream s w"
  using assms by (simp_all add: stream_stays_def beside_os_def beside_nd_def beside_def case_prod_unfold)

lemma addresses_silent:
  assumes "stream_stays os nd stream"
  shows "leaves (sent stream s) (LocalAddress (beside_os os) (beside_nd nd) client)"
    and "leaves (sent stream s) (Address_to_string (beside_nd nd) a)"
proof -
  show "leaves (sent stream s) (LocalAddress (beside_os os) (beside_nd nd) client)"
    unfolding LocalAddress_def GetSockName_def case_prod_beta by (intro leaves_intros sent_calls [OF assms])
  have view: "leaves (sent stream s) (to_string_view (beside_nd nd) v)" for v
    unfolding to_string_view_def Let_def case_prod_beta by (intro leaves_intros sent_calls [OF assms])
  show "leaves (sent stream s) (Address_to_string (beside_nd nd) a)"
    unfolding Address_to_string_def to_string_impl_def by (cases a) (simp_all, intro leaves_intros view)
qed

lemma puts_silent:
  assumes "stream_stays os nd stream" and "\<And>str. leaves (sent stream s) (put str)"
  shows "leaves (sent stream s) (put_address put (beside_nd nd) before a)"
    and "leaves (sent stream s) (put_local put (beside_os os) (beside_nd nd) before client)"
  unfolding put_address_def put_local_def by (intro leaves_intros assms(2) addresses_silent [OF assms(1)])+

lemma send_appends:
  assumes "stream_send os stream"
  shows "appends (sent stream s) data (SocketTcp_Send (SocketImpl_vtable (beside_os os) (beside_nd nd)) s data (-1))"
  unfolding appends_def SocketTcp_Send_def SocketImpl_vtable_def vtable.simps
proof (intro allI impI)
  fix w w' :: "_ \<times> console" and r
  assume "SocketImpl_Send (beside_os os) s data (-1) w = (r, w')"
  from SocketImpl_Send_stream [OF stream_beside [OF assms] this]
  obtain k where "sent stream s w' = sent stream s w @ take k data" "\<forall>n. r = Inr n \<longrightarrow> n = k \<and> n = length data" by auto
  then show "\<exists>k. sent stream s w' = sent stream s w @ take k data \<and> (\<forall>a. r = Inr a \<longrightarrow> length data \<le> k)" by auto
qed

lemma drain_silent:
  assumes "stream_stays os nd stream"
  shows "leaves (sent stream s) (http_drain (beside_os os) (beside_nd nd) n s)"
proof (induction n)
  case (Suc n)
  have "leaves (sent stream s) (SocketTcp_Receive (SocketImpl_vtable (beside_os os) (beside_nd nd)) s 256 10)"
    unfolding SocketTcp_Receive_def SocketImpl_vtable_def vtable.simps Receive_def WaitReadable_def Wait_fd_def DoPoll_def ReceiveNow_def case_prod_beta
    by (intro leaves_intros sent_calls [OF assms])
  then show ?case unfolding http_drain.simps by (intro leaves_intros Suc)
next
  case 0
  show ?case unfolding http_drain.simps by (rule leaves_basic)
qed

lemma close_silent:
  assumes "stream_stays os nd stream"
  shows "sent stream s (SocketImpl_destroy (beside_os os) client w) = sent stream s w"
  using assms by (simp add: SocketImpl_destroy_def stream_stays_def beside_os_def)

lemma lines_appends:
  assumes "stream_send os stream"
  shows "appends (sent stream s) (concat (map (\<lambda>line. line @ [newline]) input)) (tcp_client_lines (beside_os os) (beside_nd nd) s input)"
proof (induction input)
  case Nil
  show ?case unfolding tcp_client_lines.simps list.map concat.simps by (intro appends_leaves leaves_basic)
next
  case (Cons line input)
  show ?case unfolding tcp_client_lines.simps list.map concat.simps by (intro appends_andthen send_appends assms Cons)
qed

lemma session_appends:
  assumes "stream_send os stream" and "stream_stays os nd stream"
  shows "appends (sent stream s) (concat (map (\<lambda>line. line @ [newline]) input))
    (scoped (tcp_client_session (beside_os os) (beside_nd nd) input remote s) (SocketImpl_destroy (beside_os os) s))"
  unfolding tcp_client_session_def
  by (intro appends_scoped close_silent [OF assms(2)] appends_silent appends_last lines_appends [OF assms(1)]
    puts_silent [OF assms(2)] console_silent leaves_intros)

lemma serve_appends:
  assumes "stream_send os stream" and stays: "stream_stays os nd stream"
    and run: "http_serve (beside_os os) (beside_nd nd) n s a w = (r, w')"
  shows "\<exists>k. sent stream s w' = sent stream s w @ take k http_response \<and> (r = Inr True \<longrightarrow> length http_response \<le> k)"
proof -
  let ?reply = "andthen (put_address cout (beside_nd nd) ''sending HTTP response to '' a) (\<lambda>_. andthen (cout [newline]) (\<lambda>_.
     andthen (SocketTcp_Send (SocketImpl_vtable (beside_os os) (beside_nd nd)) s http_response (-1)) (\<lambda>_. ret True)))"
  obtain r1 w1 where d: "http_drain (beside_os os) (beside_nd nd) n s w = (r1, w1)"
    by (cases "http_drain (beside_os os) (beside_nd nd) n s w")
  then have w1: "sent stream s w1 = sent stream s w" using drain_silent [OF stays, of s n] by (metis leaves_def snd_conv)
  show ?thesis
  proof (cases "r1 = Inr True")
    case True
    with run d have "?reply w1 = (r, w')" by (simp add: http_serve_def)
    moreover have "appends (sent stream s) http_response ?reply"
      by (intro appends_silent appends_last puts_silent [OF stays] console_silent send_appends assms(1) leaves_intros)
    ultimately show ?thesis using w1 unfolding appends_def by metis
  next
    case False
    with run d w1 show ?thesis by (cases r1) (auto simp: http_serve_def intro!: exI [of _ 0])
  qed
qed

text \<open>
  C40. The client of the TCP example: however the system splits its sends up, the server gets the lines that were entered, each with a
  line feed, in their order; when the program ends regularly, all of them, and when it ends by an exception, a prefix.
\<close>

theorem tcp_client_sends:
  assumes "stream_send os stream" and "stream_stays os nd stream"
    and "SocketTcp (beside_os os) (beside_nd nd) remote w = (Inr client, w1)"
    and "tcp_Client (beside_os os) (beside_nd nd) input remote w = (r, w2)"
  shows "\<exists>k. stream (fst w2) client = stream (fst w1) client @ take k (concat (map (\<lambda>line. line @ [newline]) input))
    \<and> (r = Inr () \<longrightarrow> length (concat (map (\<lambda>line. line @ [newline]) input)) \<le> k)"
proof -
  have "scoped (tcp_client_session (beside_os os) (beside_nd nd) input remote client) (SocketImpl_destroy (beside_os os) client) w1 = (r, w2)"
    using assms(3,4) by (simp add: tcp_Client_def)
  with session_appends [OF assms(1,2), of client input remote] show ?thesis unfolding appends_def by blast
qed

definition demo_names :: "script netdb" where
  "demo_names = test_netdb_script\<lparr>nd_getnameinfo := (\<lambda>a bh bs w. ((0, ''10.0.0.1'' @ [NUL], ''8554'' @ [NUL]), w))\<rparr>"

definition demo_console :: "script \<times> console" where
  "demo_console = (script0\<lparr>s_polls := replicate 4 (1, [{POLLOUT}]), s_sends := [2, 1, 3], s_name := [2, 0, 0, 7]\<rparr>, \<lparr>co_out = [], co_err = []\<rparr>)"

text \<open>The first line goes out in two parts.\<close>

theorem tcp_client_sends_witness:
  "\<exists>w. tcp_Client (beside_os script_os) (beside_nd demo_names) [''hi'', ''yo''] (demo_peer 1) demo_console = (Inr (), w)
    \<and> s_stream (fst w) 3 = ''hi'' @ [newline] @ ''yo'' @ [newline]"
proof -
  let ?run = "tcp_Client (beside_os script_os) (beside_nd demo_names) [''hi'', ''yo''] (demo_peer 1) demo_console"
  let ?new = "SocketTcp (beside_os script_os) (beside_nd demo_names) (demo_peer 1) demo_console"
  have stays: "stream_stays script_os demo_names s_stream"
    by (auto simp: stream_stays_def script_os_def demo_names_def script_close_def script_poll_def script_recv_def split: list.splits)
  have "fst ?new = Inr 3" by code_simp
  then have new: "?new = (Inr 3, snd ?new)" by (simp only: prod_eq_iff fst_conv snd_conv)
  have "fst ?run = Inr ()" by code_simp
  then have run: "?run = (Inr (), snd ?run)" by (simp only: prod_eq_iff fst_conv snd_conv)
  have "s_stream (fst (snd ?new)) 3 = []" by code_simp
  with tcp_client_sends [OF script_os_stream_send stays new run]
  have "s_stream (fst (snd ?run)) 3 = ''hi'' @ [newline] @ ''yo'' @ [newline]" by auto
  with run show ?thesis by (intro exI [of _ "snd ?run"] conjI)
qed

section \<open>The HTTP server on its driver\<close>

text \<open>
  The handlers do not touch the driver, so what holds of every reachable state of a driver of plain sockets holds of the
  driver of the HTTP server.
\<close>

lemma http_user_keeps: "user_keeps driver_ok (http_user os nd n)"
  by (auto simp: user_keeps_def http_user_def keeps_def heap_world_def zoom_def split: prod.splits)

lemma http_server_driver_ok:
  assumes "poll_only_revents os" and "driver_reach (plain_of os nd (http_user os nd n) tls) h"
  shows "driver_ok h"
  by (rule plain.reach_inv [OF _ _ assms(2)]) (simp_all add: assms(1) http_user_keeps)

section \<open>What the HTTP client counts\<close>

lemma find_string_Some: "find_string pat str \<noteq> None \<longleftrightarrow> (\<exists>a b. str = a @ pat @ b)"
proof (induction str)
  case (Cons c cs)
  have "take (length pat) (c # cs) = pat \<longleftrightarrow> (\<exists>b. c # cs = pat @ b)"
    by (metis append_eq_conv_conj append_take_drop_id)
  moreover have "(\<exists>a b. c # cs = a @ pat @ b) \<longleftrightarrow> (\<exists>b. c # cs = pat @ b) \<or> (\<exists>a b. cs = a @ pat @ b)"
    by (metis append_Cons append_Nil list.exhaust list.inject)
  ultimately show ?case using Cons by auto
qed auto

text \<open>The mark is looked for in each fragment alone: when it is split between two, it is missed.\<close>

lemma IsHtmlEnd_split: "IsHtmlEnd (''text</ht'' @ ''ml>'')" "\<not> IsHtmlEnd ''text</ht''" "\<not> IsHtmlEnd ''ml>''"
  by code_simp+

abbreviation shown :: "('w \<times> console) buffered \<Rightarrow> string" where
  "shown s \<equiv> co_out (snd (bw_world s))"

lemma http_fragment_silent: "leaves shown (Buffered_Receive_wait (SocketImpl_vtable (beside_os os) (beside_nd nd)) sock sz timeout)"
proof -
  have pool: "leaves shown (in_pool m)" for m :: "(pool, 'b) exec" by (simp add: leaves_def)
  have drop: "shown (drop_buffer b s) = shown s" for b and s :: "('w \<times> console) buffered" by (simp add: drop_buffer_def)
  have "leaves (snd :: _ \<times> console \<Rightarrow> _) (v_Receive_wait (SocketImpl_vtable (beside_os os) (beside_nd nd)) sock n timeout)" for n
    unfolding SocketImpl_vtable_def vtable.simps Receive_def by (intro leaves_intros beside.waits beside.receives)
  then have world: "leaves shown (in_world (v_Receive_wait (SocketImpl_vtable (beside_os os) (beside_nd nd)) sock n timeout))" for n
    by (simp add: leaves_def del: split_paired_All)
  show ?thesis
    unfolding Buffered_Receive_wait_def GetBuffer_def
    by (intro leaves_intros pool world drop) (auto split: option.split intro!: leaves_intros pool drop simp: fill_buffer_def)
qed

text \<open>
  The fragments are printed one behind the other, each is counted with its length, and only the last one can hold the
  mark of the end.
\<close>

lemma http_receive_counts:
  assumes "http_receive (beside_os os) (beside_nd nd) n sock sz sizes s = (Inr (Some sizes'), t)"
  shows "\<exists>fragments. shown t = shown s @ concat fragments \<and> sizes' = sizes @ map length fragments
    \<and> list_all (\<lambda>x. \<not> IsHtmlEnd x) (butlast fragments)"
  using assms
proof (induction n arbitrary: sizes s)
  case (Suc n)
  obtain r s1 where recv: "Buffered_Receive_wait (SocketImpl_vtable (beside_os os) (beside_nd nd)) sock sz 30000 s = (r, s1)"
    by fastforce
  then have s1: "shown s1 = shown s" using http_fragment_silent [of os nd sock sz 30000] unfolding leaves_def by (metis snd_conv)
  show ?case
  proof (cases r)
    case (Inl e)
    with Suc.prems recv show ?thesis by simp
  next
    case (Inr rx)
    show ?thesis
    proof (cases rx)
      case None
      with Inr Suc.prems recv s1 show ?thesis by (intro exI [of _ "[]"]) simp
    next
      case (Some b)
      let ?x = "content (buf_at (bw_pool s1) b)"
      let ?s2 = "drop_buffer b (snd (in_world (cout ?x) s1))"
      have s2: "shown ?s2 = shown s @ ?x" using s1 by (simp add: drop_buffer_def cout_def case_prod_unfold)
      show ?thesis
      proof (cases "IsHtmlEnd ?x")
        case True
        with Some Inr Suc.prems recv s2 show ?thesis by (intro exI [of _ "[?x]"]) (auto simp: cout_def case_prod_unfold)
      next
        case False
        with Some Inr Suc.prems recv
        have "http_receive (beside_os os) (beside_nd nd) n sock sz (sizes @ [length ?x]) ?s2 = (Inr (Some sizes'), t)"
          by (simp add: cout_def case_prod_unfold)
        from Suc.IH [OF this] obtain fs where "shown t = shown ?s2 @ concat fs" "sizes' = (sizes @ [length ?x]) @ map length fs"
          "list_all (\<lambda>x. \<not> IsHtmlEnd x) (butlast fs)" by blast
        with s2 False show ?thesis by (intro exI [of _ "?x # fs"]) simp
      qed
    qed
  qed
qed simp

end
